theory Spec2Isabelle
  imports Complex_Main "HOL-Library.Log_Nat" "HOL-Library.Word"
begin

unbundle bit_operations_syntax

section \<open>JavaScript numbers\<close>

text \<open>
  \<^verbatim>\<open>main.js\<close> computes with JavaScript Numbers (IEEE 754 binary64) and stores matrices in
  a \<^verbatim>\<open>Float32Array\<close> (binary32).  A Number is modelled by its exact value: \<open>Finite x\<close> is the
  finite Number of rational value \<open>x\<close> (\<open>Finite 0\<close> is \<open>+0\<close>), \<open>NegZero\<close> is \<open>-0\<close>.
  Arithmetic rounds the exact rational result to the nearest value of the format, ties to
  even, as the language standard prescribes.
\<close>

datatype number = Finite rat | NegZero | PosInfinity | NegInfinity | NaN

text \<open>\<open>ilog2 x\<close> is the binary exponent of a positive rational: \<open>2^e \<le> x < 2^(e+1)\<close>.\<close>

definition ilog2 :: "rat \<Rightarrow> int" where
  "ilog2 x = (let (n, d) = quotient_of x; k = bitlen n - bitlen d
              in if 2 powi k \<le> x then k else k - 1)"

definition round_half_even :: "rat \<Rightarrow> int" where
  "round_half_even y = (let f = \<lfloor>y\<rfloor>; d = y - of_int f
     in if d < 1/2 then f else if 1/2 < d then f + 1 else if even f then f else f + 1)"

text \<open>
  A binary format with \<open>p\<close> significand bits whose smallest positive value is \<open>2^qmin\<close>:
  near \<open>x\<close> its values are the integer multiples of \<open>quantum p qmin x\<close>.
\<close>

definition quantum :: "nat \<Rightarrow> int \<Rightarrow> rat \<Rightarrow> rat" where
  "quantum p qmin x = 2 powi (max (ilog2 \<bar>x\<bar> - int p + 1) qmin)"

definition round_to :: "nat \<Rightarrow> int \<Rightarrow> rat \<Rightarrow> rat" where
  "round_to p qmin x = (if x = 0 then 0
     else of_int (round_half_even (x / quantum p qmin x)) * quantum p qmin x)"

text \<open>Rounding with overflow to an infinity (at \<open>2^emax\<close>) and the sign of an underflow to zero.\<close>

definition round_number :: "nat \<Rightarrow> int \<Rightarrow> int \<Rightarrow> rat \<Rightarrow> number" where
  "round_number p qmin emax x = (let y = round_to p qmin x in
     if 2 powi emax \<le> \<bar>y\<bar> then (if x < 0 then NegInfinity else PosInfinity)
     else if y = 0 \<and> x < 0 then NegZero else Finite y)"

definition round64 :: "rat \<Rightarrow> number" where
  "round64 x = round_number 53 (- 1074) 1024 x"

definition round32 :: "rat \<Rightarrow> number" where
  "round32 x = round_number 24 (- 149) 128 x"

text \<open>A decimal literal of the source, such as \<^verbatim>\<open>0.01\<close>, denotes the nearest Number.\<close>

definition lit :: "rat \<Rightarrow> number" where
  "lit x = round64 x"

text \<open>Unary minus and \<^verbatim>\<open>+\<close> on Numbers.\<close>

fun js_neg :: "number \<Rightarrow> number" where
  "js_neg (Finite x) = (if x = 0 then NegZero else Finite (- x))"
| "js_neg NegZero = Finite 0"
| "js_neg PosInfinity = NegInfinity"
| "js_neg NegInfinity = PosInfinity"
| "js_neg NaN = NaN"

fun js_add :: "number \<Rightarrow> number \<Rightarrow> number" where
  "js_add NaN y = NaN"
| "js_add x NaN = NaN"
| "js_add PosInfinity NegInfinity = NaN"
| "js_add NegInfinity PosInfinity = NaN"
| "js_add PosInfinity y = PosInfinity"
| "js_add x PosInfinity = PosInfinity"
| "js_add NegInfinity y = NegInfinity"
| "js_add x NegInfinity = NegInfinity"
| "js_add NegZero NegZero = NegZero"
| "js_add NegZero (Finite y) = Finite y"
| "js_add (Finite x) NegZero = Finite x"
| "js_add (Finite x) (Finite y) = round64 (x + y)"

text \<open>
  Storing a Number in a \<^verbatim>\<open>Float32Array\<close> rounds it to single precision; reading the element
  back gives that single-precision value as a Number.
\<close>

fun to_float32 :: "number \<Rightarrow> number" where
  "to_float32 (Finite x) = round32 x"
| "to_float32 v = v"

definition Float32Array :: "number list \<Rightarrow> number list" where
  "Float32Array xs = map to_float32 xs"

definition BYTES_PER_ELEMENT :: nat where
  "BYTES_PER_ELEMENT = 4"

definition byteLength :: "number list \<Rightarrow> nat" where
  "byteLength arr = BYTES_PER_ELEMENT * length arr"

text \<open>
  \<^verbatim>\<open>Math.cos\<close> and \<^verbatim>\<open>Math.sin\<close> are implementation-approximated: the standard fixes their
  results only at zeros, infinities and NaN.  Their values at the other arguments are a
  parameter of the model, the pair of functions \<open>cos_impl\<close> and \<open>sin_impl\<close>.
\<close>

datatype math_impl = MathImpl (cos_impl: "rat \<Rightarrow> number") (sin_impl: "rat \<Rightarrow> number")

fun Math_cos :: "math_impl \<Rightarrow> number \<Rightarrow> number" where
  "Math_cos M (Finite x) = (if x = 0 then Finite 1 else cos_impl M x)"
| "Math_cos M NegZero = Finite 1"
| "Math_cos M v = NaN"

fun Math_sin :: "math_impl \<Rightarrow> number \<Rightarrow> number" where
  "Math_sin M (Finite x) = (if x = 0 then Finite 0 else sin_impl M x)"
| "Math_sin M NegZero = NegZero"
| "Math_sin M v = NaN"

section \<open>The constants and the pure function of main.js\<close>

text \<open>The WGSL source of the two shader stages, one string per line of the template literal.\<close>

definition shaderCode :: "string list" where
  "shaderCode =
    ['''',
     '''',
     ''  @group(0) @binding(0) var<uniform> transformationMatrix: mat4x4<f32>;'',
     '''',
     ''  struct VertexOutput {'',
     ''    @builtin(position) position: vec4<f32>,  // Position of the vertex'',
     ''    @location(0) fragColor: vec3<f32>      // Color passed to the fragment shader'',
     ''  };'',
     '''',
     ''  @vertex'',
     ''  fn vertexMain('',
     ''    @location(0) position: vec2<f32>,  // Input: position from the vertex buffer'',
     ''    @location(1) color: vec3<f32>      // Input: color from the vertex buffer'',
     ''  ) -> VertexOutput {'',
     '''',
     ''    // Convert position to vec3 to apply 4x4 matrix'',
     ''    let transformedPosition = transformationMatrix * vec4<f32>(position, 0.0, 1.0);'',
     '''',
     ''    var output: VertexOutput;'',
     ''    output.position = vec4<f32>(transformedPosition.xy, 0.0, 1.0);'',
     ''    output.fragColor = color;'',
     ''    return output;'',
     ''  }'',
     '''',
     ''  @fragment'',
     ''  fn fragmentMain('',
     ''    @location(0) fragColor: vec3<f32>  // Input: interpolated color from the vertex shader'',
     ''  ) -> @location(0) vec4<f32> {'',
     ''    return vec4<f32>(fragColor, 1.0); // Output the color with full opacity'',
     ''  }'',
     '''']"

definition vertexData :: "number list" where
  "vertexData = Float32Array
    [lit 0,                lit (6667 / 10000),          lit 1, lit 0, lit 0,
     js_neg (lit (5 / 10)), js_neg (lit (3333 / 10000)), lit 0, lit 1, lit 0,
     lit (5 / 10),          js_neg (lit (3333 / 10000)), lit 0, lit 0, lit 1]"

definition createTransformationMatrix ::
  "math_impl \<Rightarrow> number \<Rightarrow> number \<Rightarrow> number \<Rightarrow> number list" where
  "createTransformationMatrix M rotation tx ty =
    (let cosTheta = Math_cos M rotation;
         sinTheta = Math_sin M rotation
     in Float32Array
       [cosTheta, js_neg sinTheta, lit 0, lit 0,
        sinTheta, cosTheta,        lit 0, lit 0,
        lit 0,    lit 0,           lit 1, lit 0,
        tx,       ty,              lit 0, lit 1])"

text \<open>
  The notions of the specification for the upper-left 2 x 2 block of a column-major
  matrix \<open>m\<close>: its columns are \<open>(m!0, m!1)\<close> and \<open>(m!4, m!5)\<close>.  Orthonormality and the
  determinant are taken in exact arithmetic on the stored values.
\<close>

fun exact :: "number \<Rightarrow> rat option" where
  "exact (Finite x) = Some x"
| "exact NegZero = Some 0"
| "exact v = None"

definition block2x2 :: "number list \<Rightarrow> number list list" where
  "block2x2 m = [[m ! 0, m ! 1], [m ! 4, m ! 5]]"

definition orthonormal2x2 :: "number list \<Rightarrow> bool" where
  "orthonormal2x2 m =
    (case (exact (m ! 0), exact (m ! 1), exact (m ! 4), exact (m ! 5)) of
       (Some a, Some b, Some c, Some d) \<Rightarrow>
          a * a + b * b = 1 \<and> c * c + d * d = 1 \<and> a * c + b * d = 0
     | _ \<Rightarrow> False)"

definition det2x2 :: "number list \<Rightarrow> rat option" where
  "det2x2 m =
    (case (exact (m ! 0), exact (m ! 1), exact (m ! 4), exact (m ! 5)) of
       (Some a, Some b, Some c, Some d) \<Rightarrow> Some (a * d - c * b)
     | _ \<Rightarrow> None)"

text \<open>
  The pairs \<open>(c, s)\<close> on the coordinate axes of the unit circle: \<open>(1, 0)\<close>, \<open>(-1, 0)\<close>,
  \<open>(0, 1)\<close> and \<open>(0, -1)\<close>, a zero of either sign counting as 0.
\<close>

definition on_axis :: "number \<Rightarrow> number \<Rightarrow> bool" where
  "on_axis c s =
    ((exact c = Some 1 \<or> exact c = Some (- 1)) \<and> exact s = Some 0
     \<or> exact c = Some 0 \<and> (exact s = Some 1 \<or> exact s = Some (- 1)))"

text \<open>
  The identity transform of the specification, as a column-major array of 16 Numbers.
\<close>

definition identity_matrix :: "number list" where
  "identity_matrix =
    [Finite 1, Finite 0, Finite 0, Finite 0,
     Finite 0, Finite 1, Finite 0, Finite 0,
     Finite 0, Finite 0, Finite 1, Finite 0,
     Finite 0, Finite 0, Finite 0, Finite 1]"

section \<open>The graphics backend\<close>

text \<open>
  The browser's WebGPU implementation is modelled as a recording backend: it keeps every
  resource the program creates, the contents of the buffers, the operations handed to the
  device queue, the messages of \<^verbatim>\<open>console.error\<close>, and the callbacks the page has
  registered.  Resources are named by their position in the list of their kind.
\<close>

definition GPUBufferUsage_COPY_DST :: "32 word" where
  "GPUBufferUsage_COPY_DST = 0x0008"

definition GPUBufferUsage_VERTEX :: "32 word" where
  "GPUBufferUsage_VERTEX = 0x0020"

definition GPUBufferUsage_UNIFORM :: "32 word" where
  "GPUBufferUsage_UNIFORM = 0x0040"

text \<open>A buffer: its size in bytes, its usage flags, and its contents as 32-bit float slots.\<close>

record gpu_buffer =
  byteSize :: nat
  usage :: "32 word"
  mapped :: bool
  elements :: "number list"

record vertex_attribute =
  shaderLocation :: nat
  attributeFormat :: string
  attributeOffset :: nat

record vertex_buffer_layout =
  arrayStride :: nat
  attributes :: "vertex_attribute list"

record pipeline_descriptor =
  vertexModule :: nat
  vertexEntryPoint :: string
  vertexBuffers :: "vertex_buffer_layout list"
  fragmentModule :: nat
  fragmentEntryPoint :: string
  fragmentTargets :: "string list"
  primitiveTopology :: string
  pipelineLayout :: string

record bind_group_entry =
  binding :: nat
  resourceBuffer :: nat

text \<open>\<open>bindGroupLayout\<close> is \<^verbatim>\<open>pipeline.getBindGroupLayout(i)\<close>: the pipeline and the index \<open>i\<close>.\<close>

record bind_group_descriptor =
  bindGroupLayout :: "nat \<times> nat"
  entries :: "bind_group_entry list"

text \<open>A clear colour \<^verbatim>\<open>{r, g, b, a}\<close>.\<close>

datatype gpu_color = GPUColor number number number number

record color_attachment =
  view :: "nat option"
  loadOp :: string
  clearValue :: gpu_color
  storeOp :: string

record render_pass_descriptor =
  colorAttachments :: "color_attachment list"

text \<open>
  The commands a command encoder records.  \<open>Draw\<close> carries the vertex count, the instance
  count, the first vertex and the first instance.
\<close>

datatype command =
    BeginRenderPass render_pass_descriptor
  | SetPipeline nat
  | SetBindGroup nat nat
  | SetVertexBuffer nat nat
  | Draw nat nat nat nat
  | EndPass

datatype queue_op =
    WriteBuffer nat nat "number list"
  | Submit "command list list"

record backend =
  adapterRequests :: "string list"
  deviceRequests :: nat
  canvasConfigurations :: "(string \<times> string) list"
  shaderModules :: "string list list"
  buffers :: "gpu_buffer list"
  pipelines :: "pipeline_descriptor list"
  bindGroups :: "bind_group_descriptor list"
  texturesAcquired :: nat
  queue :: "queue_op list"
  consoleErrors :: "string list"
  clickListeners :: nat
  animationFrameRequests :: nat

definition new_backend :: backend where
  "new_backend =
    \<lparr>adapterRequests = [], deviceRequests = 0, canvasConfigurations = [], shaderModules = [],
     buffers = [], pipelines = [], bindGroups = [], texturesAcquired = 0, queue = [],
     consoleErrors = [], clickListeners = 0, animationFrameRequests = 0\<rparr>"

definition console_error :: "string \<Rightarrow> backend \<Rightarrow> backend" where
  "console_error msg g = g\<lparr>consoleErrors := consoleErrors g @ [msg]\<rparr>"

definition requestAdapter :: "string \<Rightarrow> backend \<Rightarrow> backend" where
  "requestAdapter powerPreference g = g\<lparr>adapterRequests := adapterRequests g @ [powerPreference]\<rparr>"

definition requestDevice :: "backend \<Rightarrow> backend" where
  "requestDevice g = g\<lparr>deviceRequests := Suc (deviceRequests g)\<rparr>"

definition configure :: "string \<Rightarrow> string \<Rightarrow> backend \<Rightarrow> backend" where
  "configure fmt alphaMode g =
     g\<lparr>canvasConfigurations := canvasConfigurations g @ [(fmt, alphaMode)]\<rparr>"

definition createShaderModule :: "string list \<Rightarrow> backend \<Rightarrow> nat \<times> backend" where
  "createShaderModule code g =
     (length (shaderModules g), g\<lparr>shaderModules := shaderModules g @ [code]\<rparr>)"

text \<open>A new buffer is zero-filled.\<close>

definition createBuffer :: "nat \<Rightarrow> 32 word \<Rightarrow> bool \<Rightarrow> backend \<Rightarrow> nat \<times> backend" where
  "createBuffer sz us mappedAtCreation g =
     (length (buffers g),
      g\<lparr>buffers := buffers g @
         [\<lparr>byteSize = sz, usage = us, mapped = mappedAtCreation,
           elements = replicate (sz div BYTES_PER_ELEMENT) (Finite 0)\<rparr>]\<rparr>)"

text \<open>\<^verbatim>\<open>new Float32Array(buffer.getMappedRange()).set(data)\<close> and \<^verbatim>\<open>buffer.unmap()\<close>.\<close>

definition mappedRange_set :: "nat \<Rightarrow> number list \<Rightarrow> backend \<Rightarrow> backend" where
  "mappedRange_set buffer data g =
     g\<lparr>buffers := (buffers g)
        [buffer := (buffers g ! buffer)
           \<lparr>elements := data @ drop (length data) (elements (buffers g ! buffer))\<rparr>]\<rparr>"

definition unmap :: "nat \<Rightarrow> backend \<Rightarrow> backend" where
  "unmap buffer g = g\<lparr>buffers := (buffers g)[buffer := (buffers g ! buffer)\<lparr>mapped := False\<rparr>]\<rparr>"

definition createRenderPipeline :: "pipeline_descriptor \<Rightarrow> backend \<Rightarrow> nat \<times> backend" where
  "createRenderPipeline descriptor g =
     (length (pipelines g), g\<lparr>pipelines := pipelines g @ [descriptor]\<rparr>)"

definition createBindGroup :: "bind_group_descriptor \<Rightarrow> backend \<Rightarrow> nat \<times> backend" where
  "createBindGroup descriptor g =
     (length (bindGroups g), g\<lparr>bindGroups := bindGroups g @ [descriptor]\<rparr>)"

definition addEventListener_click :: "backend \<Rightarrow> backend" where
  "addEventListener_click g = g\<lparr>clickListeners := Suc (clickListeners g)\<rparr>"

definition requestAnimationFrame :: "backend \<Rightarrow> backend" where
  "requestAnimationFrame g = g\<lparr>animationFrameRequests := Suc (animationFrameRequests g)\<rparr>"

text \<open>
  \<^verbatim>\<open>device.queue.writeBuffer(buffer, bufferOffset, data)\<close>: the floats of \<open>data\<close> replace the
  slots of the buffer from byte \<open>bufferOffset\<close> on, and the operation is queued.
\<close>

definition writeBuffer :: "nat \<Rightarrow> nat \<Rightarrow> number list \<Rightarrow> backend \<Rightarrow> backend" where
  "writeBuffer buffer bufferOffset data g =
     g\<lparr>buffers := (buffers g)
        [buffer := (buffers g ! buffer)
           \<lparr>elements :=
              take (bufferOffset div BYTES_PER_ELEMENT) (elements (buffers g ! buffer)) @ data @
              drop (bufferOffset div BYTES_PER_ELEMENT + length data)
                (elements (buffers g ! buffer))\<rparr>],
       queue := queue g @ [WriteBuffer buffer bufferOffset data]\<rparr>"

text \<open>\<^verbatim>\<open>context.getCurrentTexture().createView()\<close>: a fresh view for each frame.\<close>

definition getCurrentTexture_createView :: "backend \<Rightarrow> nat \<times> backend" where
  "getCurrentTexture_createView g =
     (texturesAcquired g, g\<lparr>texturesAcquired := Suc (texturesAcquired g)\<rparr>)"

text \<open>
  A command encoder is the list of the commands recorded so far; \<^verbatim>\<open>finish()\<close> turns it into
  a command buffer.  \<^verbatim>\<open>draw(n)\<close> leaves the instance count, the first vertex and the first
  instance at their defaults 1, 0 and 0.
\<close>

definition createCommandEncoder :: "command list" where
  "createCommandEncoder = []"

definition beginRenderPass :: "render_pass_descriptor \<Rightarrow> command list \<Rightarrow> command list" where
  "beginRenderPass descriptor encoder = encoder @ [BeginRenderPass descriptor]"

definition setPipeline :: "nat \<Rightarrow> command list \<Rightarrow> command list" where
  "setPipeline p encoder = encoder @ [SetPipeline p]"

definition setBindGroup :: "nat \<Rightarrow> nat \<Rightarrow> command list \<Rightarrow> command list" where
  "setBindGroup i bg encoder = encoder @ [SetBindGroup i bg]"

definition setVertexBuffer :: "nat \<Rightarrow> nat \<Rightarrow> command list \<Rightarrow> command list" where
  "setVertexBuffer slot buffer encoder = encoder @ [SetVertexBuffer slot buffer]"

definition draw :: "nat \<Rightarrow> command list \<Rightarrow> command list" where
  "draw vertexCount encoder = encoder @ [Draw vertexCount 1 0 0]"

definition end_pass :: "command list \<Rightarrow> command list" where
  "end_pass encoder = encoder @ [EndPass]"

definition finish :: "command list \<Rightarrow> command list" where
  "finish encoder = encoder"

definition submit :: "command list list \<Rightarrow> backend \<Rightarrow> backend" where
  "submit commandBuffers g = g\<lparr>queue := queue g @ [Submit commandBuffers]\<rparr>"

section \<open>The program\<close>

text \<open>
  The variables of \<^verbatim>\<open>initWebGPU\<close> that its two callbacks close over, together with the
  backend they act on.
\<close>

record state =
  vertexBuffer :: nat
  pipeline :: nat
  uniformBuffer :: nat
  bindGroup :: nat
  renderPassDescriptor :: render_pass_descriptor
  rotationAngle :: number
  isRotating :: bool
  gpu :: backend

text \<open>The click handler of the canvas.\<close>

definition click :: "state \<Rightarrow> state" where
  "click s = s\<lparr>isRotating := \<not> isRotating s\<rparr>"

text \<open>The body of \<^verbatim>\<open>frame()\<close>, up to and including its \<^verbatim>\<open>requestAnimationFrame(frame)\<close>.\<close>

definition frame :: "math_impl \<Rightarrow> state \<Rightarrow> state" where
  "frame M s =
    (let s1 = (if isRotating s then
                 (let angle = js_add (rotationAngle s) (lit (1 / 100));
                      tx = lit 0;
                      ty = lit 0;
                      transformationMatrix = createTransformationMatrix M angle tx ty
                  in s\<lparr>rotationAngle := angle,
                       gpu := writeBuffer (uniformBuffer s) 0 transformationMatrix (gpu s)\<rparr>)
               else s);
         (currentView, g1) = getCurrentTexture_createView (gpu s1);
         descriptor = (renderPassDescriptor s1)
           \<lparr>colorAttachments := (colorAttachments (renderPassDescriptor s1))
              [0 := (colorAttachments (renderPassDescriptor s1) ! 0)\<lparr>view := Some currentView\<rparr>]\<rparr>;
         commandEncoder = createCommandEncoder;
         passEncoder = beginRenderPass descriptor commandEncoder;
         passEncoder = setPipeline (pipeline s1) passEncoder;
         passEncoder = setBindGroup 0 (bindGroup s1) passEncoder;
         passEncoder = setVertexBuffer 0 (vertexBuffer s1) passEncoder;
         passEncoder = draw 3 passEncoder;
         passEncoder = end_pass passEncoder;
         g2 = submit [finish passEncoder] g1;
         g3 = requestAnimationFrame g2
     in s1\<lparr>renderPassDescriptor := descriptor, gpu := g3\<rparr>)"

text \<open>
  What the page finds in its browser: whether \<^verbatim>\<open>navigator.gpu\<close> exists, whether
  \<^verbatim>\<open>requestAdapter\<close> and \<^verbatim>\<open>requestDevice\<close> yield an object, and the preferred canvas format.
\<close>

record host =
  navigator_gpu :: bool
  adapterAvailable :: bool
  deviceAvailable :: bool
  preferredCanvasFormat :: string

text \<open>
  \<^verbatim>\<open>initWebGPU\<close>: \<open>Inl\<close> is an early return, with the backend as it was left; \<open>Inr\<close> is the
  state after the first call of \<^verbatim>\<open>frame()\<close>, which ends the function.
\<close>

definition initWebGPU :: "math_impl \<Rightarrow> host \<Rightarrow> backend \<Rightarrow> backend + state" where
  "initWebGPU M h g0 =
    (let g1 = requestAdapter ''high-performance'' g0 in
     if \<not> adapterAvailable h then
       Inl (console_error
         ''WebGPU adapter not available. Your hardware or browser may not support WebGPU.'' g1)
     else
      (let g2 = requestDevice g1 in
       if \<not> deviceAvailable h then
         Inl (console_error ''Failed to create WebGPU device.'' g2)
       else
        (let fmt = preferredCanvasFormat h;
             g3 = configure fmt ''opaque'' g2;
             (shaderModule, g4) = createShaderModule shaderCode g3;
             (vertexBuffer', g5) =
                createBuffer (byteLength vertexData) GPUBufferUsage_VERTEX True g4;
             g6 = mappedRange_set vertexBuffer' vertexData g5;
             g7 = unmap vertexBuffer' g6;
             (pipeline', g8) = createRenderPipeline
                \<lparr>vertexModule = shaderModule,
                 vertexEntryPoint = ''vertexMain'',
                 vertexBuffers =
                   [\<lparr>arrayStride = 5 * BYTES_PER_ELEMENT,
                     attributes =
                       [\<lparr>shaderLocation = 0, attributeFormat = ''float32x2'',
                         attributeOffset = 0\<rparr>,
                        \<lparr>shaderLocation = 1, attributeFormat = ''float32x3'',
                         attributeOffset = 2 * BYTES_PER_ELEMENT\<rparr>]\<rparr>],
                 fragmentModule = shaderModule,
                 fragmentEntryPoint = ''fragmentMain'',
                 fragmentTargets = [fmt],
                 primitiveTopology = ''triangle-list'',
                 pipelineLayout = ''auto''\<rparr> g7;
             (uniformBuffer', g9) =
                createBuffer 256 (GPUBufferUsage_UNIFORM OR GPUBufferUsage_COPY_DST) False g8;
             (bindGroup', g10) = createBindGroup
                \<lparr>bindGroupLayout = (pipeline', 0),
                 entries = [\<lparr>binding = 0, resourceBuffer = uniformBuffer'\<rparr>]\<rparr> g9;
             descriptor =
                \<lparr>colorAttachments =
                   [\<lparr>view = None, loadOp = ''clear'',
                     clearValue = GPUColor (lit 0) (lit (2 / 10)) (lit (4 / 10)) (lit 1),
                     storeOp = ''store''\<rparr>]\<rparr>;
             g11 = addEventListener_click g10
         in Inr (frame M
              \<lparr>vertexBuffer = vertexBuffer', pipeline = pipeline',
               uniformBuffer = uniformBuffer', bindGroup = bindGroup',
               renderPassDescriptor = descriptor,
               rotationAngle = lit 0, isRotating = True, gpu = g11\<rparr>))))"

text \<open>The top level of the script.\<close>

definition main_js :: "math_impl \<Rightarrow> host \<Rightarrow> backend + state" where
  "main_js M h =
    (if navigator_gpu h then initWebGPU M h new_backend
     else Inl (console_error ''WebGPU is not supported on this browser.'' new_backend))"

text \<open>
  After the script has run, the browser delivers events: a click on the canvas, to every
  registered click listener, or a display refresh, to a pending animation-frame request.
\<close>

datatype event = Click | AnimationFrame

fun dispatch :: "math_impl \<Rightarrow> event \<Rightarrow> state \<Rightarrow> state" where
  "dispatch M Click s = (if 0 < clickListeners (gpu s) then click s else s)"
| "dispatch M AnimationFrame s =
     (if 0 < animationFrameRequests (gpu s)
      then frame M (s\<lparr>gpu := (gpu s)\<lparr>animationFrameRequests := animationFrameRequests (gpu s) - 1\<rparr>\<rparr>)
      else s)"

definition run :: "math_impl \<Rightarrow> event list \<Rightarrow> state \<Rightarrow> state" where
  "run M evs s = fold (dispatch M) evs s"

text \<open>
  An execution: the script, then the events.  A page whose initialisation returned early
  has registered no listener and no frame request, so no event reaches it.
\<close>

definition execution :: "math_impl \<Rightarrow> host \<Rightarrow> event list \<Rightarrow> backend + state" where
  "execution M h evs =
    (case main_js M h of Inl g \<Rightarrow> Inl g | Inr s \<Rightarrow> Inr (run M evs s))"

section \<open>Hosts and invariants\<close>

text \<open>
  A host on which the initialisation runs to its end, one such host for the examples, and
  the backend an execution leaves behind.
\<close>

definition supported :: "host \<Rightarrow> bool" where
  "supported h = (navigator_gpu h \<and> adapterAvailable h \<and> deviceAvailable h)"

definition example_host :: host where
  "example_host =
    \<lparr>navigator_gpu = True, adapterAvailable = True, deviceAvailable = True,
     preferredCanvasFormat = ''bgra8unorm''\<rparr>"

definition final_backend :: "backend + state \<Rightarrow> backend" where
  "final_backend r = (case r of Inl g \<Rightarrow> g | Inr s \<Rightarrow> gpu s)"

text \<open>
  The invariants of a running page.  The handles, the render pass descriptor (up to its
  view) and the resources other than the buffers are as the initialisation left them, and
  one click listener and one frame request are registered.
\<close>

definition static_ok :: "host \<Rightarrow> state \<Rightarrow> bool" where
  "static_ok h s =
    (vertexBuffer s = 0 \<and> pipeline s = 0 \<and> uniformBuffer s = 1 \<and> bindGroup s = 0
     \<and> (\<exists>v. renderPassDescriptor s =
          \<lparr>colorAttachments =
             [\<lparr>view = Some v, loadOp = ''clear'',
               clearValue = GPUColor (lit 0) (lit (2 / 10)) (lit (4 / 10)) (lit 1),
               storeOp = ''store''\<rparr>]\<rparr>)
     \<and> adapterRequests (gpu s) = [''high-performance'']
     \<and> deviceRequests (gpu s) = 1
     \<and> canvasConfigurations (gpu s) = [(preferredCanvasFormat h, ''opaque'')]
     \<and> shaderModules (gpu s) = [shaderCode]
     \<and> pipelines (gpu s) =
          [\<lparr>vertexModule = 0, vertexEntryPoint = ''vertexMain'',
            vertexBuffers =
              [\<lparr>arrayStride = 20,
                attributes =
                  [\<lparr>shaderLocation = 0, attributeFormat = ''float32x2'', attributeOffset = 0\<rparr>,
                   \<lparr>shaderLocation = 1, attributeFormat = ''float32x3'', attributeOffset = 8\<rparr>]\<rparr>],
            fragmentModule = 0, fragmentEntryPoint = ''fragmentMain'',
            fragmentTargets = [preferredCanvasFormat h],
            primitiveTopology = ''triangle-list'', pipelineLayout = ''auto''\<rparr>]
     \<and> bindGroups (gpu s) =
          [\<lparr>bindGroupLayout = (0, 0), entries = [\<lparr>binding = 0, resourceBuffer = 1\<rparr>]\<rparr>]
     \<and> consoleErrors (gpu s) = []
     \<and> clickListeners (gpu s) = 1
     \<and> animationFrameRequests (gpu s) = 1)"

text \<open>The angle is a finite Number between 0.01 and 2^47.\<close>

definition angle_ok :: "number \<Rightarrow> bool" where
  "angle_ok v =
    (\<exists>a. v = Finite a \<and> 5764607523034235 / 576460752303423488 \<le> a \<and> a \<le> 140737488355328
       \<and> round_to 53 (- 1074) a = a)"

text \<open>
  There are two buffers: the vertex buffer, holding the vertex data, and the uniform
  buffer, whose first 16 slots hold the matrix of the current angle.
\<close>

definition buffers_ok :: "math_impl \<Rightarrow> state \<Rightarrow> bool" where
  "buffers_ok M s =
    (buffers (gpu s) =
      [\<lparr>byteSize = 60, usage = GPUBufferUsage_VERTEX, mapped = False, elements = vertexData\<rparr>,
       \<lparr>byteSize = 256, usage = GPUBufferUsage_UNIFORM OR GPUBufferUsage_COPY_DST,
        mapped = False,
        elements = createTransformationMatrix M (rotationAngle s) (lit 0) (lit 0)
                   @ replicate 48 (Finite 0)\<rparr>])"

text \<open>
  Every write in the queue is an upload, to the uniform buffer at offset 0, of the matrix
  of an angle of at least 0.01, and the queue starts with the upload for the angle 0.01.
\<close>

definition upload_ok :: "math_impl \<Rightarrow> queue_op \<Rightarrow> bool" where
  "upload_ok M op =
    (case op of
       Submit cbs \<Rightarrow> True
     | WriteBuffer b off data \<Rightarrow>
         b = 1 \<and> off = 0
         \<and> (\<exists>a. 5764607523034235 / 576460752303423488 \<le> a
              \<and> data = createTransformationMatrix M (Finite a) (lit 0) (lit 0)))"

definition queue_ok :: "math_impl \<Rightarrow> queue_op list \<Rightarrow> bool" where
  "queue_ok M q =
    ((\<exists>rest. q = WriteBuffer 1 0 (createTransformationMatrix M (lit (1 / 100)) (lit 0) (lit 0))
               # rest)
     \<and> list_all (upload_ok M) q)"

definition running :: "math_impl \<Rightarrow> host \<Rightarrow> state \<Rightarrow> bool" where
  "running M h s =
    (static_ok h s \<and> angle_ok (rotationAngle s) \<and> buffers_ok M s \<and> queue_ok M (queue (gpu s)))"

text \<open>
  The uploads of the first \<open>k\<close> rotating frames: a write is an upload, to the uniform buffer
  at offset 0, of the matrix of the angle that \<open>n + 1\<close> increments by 0.01 reach from 0, for
  some \<open>n < k\<close>.
\<close>

definition uploads_within :: "math_impl \<Rightarrow> nat \<Rightarrow> queue_op \<Rightarrow> bool" where
  "uploads_within M k op =
    (case op of
       Submit cbs \<Rightarrow> True
     | WriteBuffer b off data \<Rightarrow>
         b = 1 \<and> off = 0
         \<and> (\<exists>n<k. data = createTransformationMatrix M
                (((\<lambda>a. js_add a (lit (1 / 100))) ^^ Suc n) (lit 0)) (lit 0) (lit 0)))"

text \<open>
  A table of \<^verbatim>\<open>Math.cos\<close> and \<^verbatim>\<open>Math.sin\<close> for the examples.  At the Numbers 0.01 and 0.02,
  the angles of the first two frames, it holds the Numbers nearest to the cosine and the
  sine (printed \<^verbatim>\<open>0.9999500004166653\<close> and \<^verbatim>\<open>0.009999833334166664\<close>, \<^verbatim>\<open>0.9998000066665778\<close>
  and \<^verbatim>\<open>0.01999866669333308\<close>).  The examples look up no other argument; the table is NaN
  there.
\<close>

definition first_frames_math :: math_impl where
  "first_frames_math =
    MathImpl
      (\<lambda>x. if x = 5764607523034235 / 576460752303423488 then Finite (4503374449265621 / 4503599627370496)
           else if x = 5764607523034235 / 288230376151711744 then Finite (4502698937468619 / 4503599627370496)
           else NaN)
      (\<lambda>x. if x = 5764607523034235 / 576460752303423488 then Finite (5764511446722567 / 576460752303423488)
           else if x = 5764607523034235 / 288230376151711744 then Finite (5764223223552103 / 288230376151711744)
           else NaN)"

section \<open>Rounding to a binary format\<close>

text \<open>
  The facts about rounding that the program depends on: the binary exponent brackets its
  argument, rounding is odd and monotone, and it leaves the values of the format alone.
\<close>

lemma two_powi_less_iff: "(2::rat) powi a < 2 powi b \<longleftrightarrow> a < b"
proof
  assume "a < b"
  then show "(2::rat) powi a < 2 powi b" by (simp add: power_int_strict_increasing)
next
  assume h: "(2::rat) powi a < 2 powi b"
  show "a < b"
  proof (rule ccontr)
    assume "\<not> a < b"
    then have "b \<le> a" by simp
    then have "(2::rat) powi b \<le> 2 powi a" by (simp add: power_int_increasing)
    with h show False by simp
  qed
qed

lemma two_powi_le_iff: "(2::rat) powi a \<le> 2 powi b \<longleftrightarrow> a \<le> b"
  using two_powi_less_iff [of b a] by (simp add: not_less [symmetric])

lemma two_powi_pos: "(0::rat) < 2 powi a"
  by (simp add: zero_less_power_int)

lemma two_powi_of_int: "0 \<le> k \<Longrightarrow> (2::rat) powi k = of_int (2 ^ nat k)"
  by (simp add: power_int_nonneg_exp)

lemma bitlen_powi_bounds:
  assumes "0 < n"
  shows "(2::rat) powi (bitlen n - 1) \<le> of_int n" and "of_int n < (2::rat) powi (bitlen n)"
proof -
  from bitlen_bounds [OF assms]
  have lo: "2 ^ nat (bitlen n - 1) \<le> n" and hi: "n < 2 ^ nat (bitlen n)" by auto
  have b1: "1 \<le> bitlen n" using assms by (auto simp: bitlen_alt_def)
  have "(2::rat) powi (bitlen n - 1) = 2 ^ nat (bitlen n - 1)"
    using b1 by (simp add: power_int_nonneg_exp)
  also have "\<dots> = of_int (2 ^ nat (bitlen n - 1))" by simp
  also have "\<dots> \<le> of_int n" using lo by (simp only: of_int_le_iff)
  finally show "(2::rat) powi (bitlen n - 1) \<le> of_int n" .
  have "(of_int n :: rat) < of_int (2 ^ nat (bitlen n))" using hi by (simp only: of_int_less_iff)
  also have "\<dots> = 2 powi (bitlen n)" using b1 by (simp add: power_int_nonneg_exp)
  finally show "of_int n < (2::rat) powi (bitlen n)" .
qed

lemma ilog2_bounds:
  assumes "0 < x"
  shows "2 powi (ilog2 x) \<le> x" and "x < 2 powi (ilog2 x + 1)"
proof -
  obtain n d where q: "quotient_of x = (n, d)" by force
  have d: "0 < d" using quotient_of_denom_pos [OF q] .
  have x: "x = of_int n / of_int d" using quotient_of_div [OF q] .
  have n: "0 < n" using assms d unfolding x by (simp add: zero_less_divide_iff)
  define k where "k = bitlen n - bitlen d"
  note bn = bitlen_powi_bounds [OF n] and bd = bitlen_powi_bounds [OF d]
  have dpos: "(0::rat) < of_int d" using d by simp
  have up: "x < 2 powi (k + 1)"
  proof -
    have "of_int n * (2::rat) powi (bitlen d - 1) < 2 powi (bitlen n) * of_int d"
      using bn(2) bd(1) n dpos
      by (intro mult_less_le_imp_less) auto
    then have "x * 2 powi (bitlen d - 1) < 2 powi (bitlen n)"
      unfolding x using dpos by (simp add: field_simps)
    then have "x < 2 powi (bitlen n) / 2 powi (bitlen d - 1)"
      by (simp add: pos_less_divide_eq)
    also have "\<dots> = 2 powi (k + 1)"
      by (simp add: k_def power_int_diff power_int_add)
    finally show ?thesis .
  qed
  have lo: "2 powi (k - 1) < x"
  proof -
    have "(2::rat) powi (bitlen n - 1) * of_int d < of_int n * 2 powi (bitlen d)"
      using bn(1) bd(2) n dpos
      by (intro mult_le_less_imp_less) auto
    then have "2 powi (bitlen n - 1) / 2 powi (bitlen d) < x"
      unfolding x using dpos by (simp add: field_simps)
    moreover have "(2::rat) powi (bitlen n - 1) / 2 powi (bitlen d) = 2 powi (k - 1)"
      by (simp add: k_def power_int_diff power_int_add)
    ultimately show ?thesis by simp
  qed
  have e: "ilog2 x = (if 2 powi k \<le> x then k else k - 1)"
    by (simp add: ilog2_def q k_def)
  show "2 powi (ilog2 x) \<le> x" using lo by (simp add: e)
  show "x < 2 powi (ilog2 x + 1)" using up by (auto simp add: e not_le)
qed

lemma ilog2_unique:
  assumes "2 powi e \<le> x" and "x < 2 powi (e + 1)"
  shows "ilog2 x = e"
proof -
  have pos: "0 < x" by (rule less_le_trans [OF two_powi_pos assms(1)])
  note b = ilog2_bounds [OF pos]
  have "(2::rat) powi e < 2 powi (ilog2 x + 1)" using assms(1) b(2) by simp
  then have 1: "e < ilog2 x + 1" by (simp only: two_powi_less_iff)
  have "(2::rat) powi (ilog2 x) < 2 powi (e + 1)" using assms(2) b(1) by simp
  then have 2: "ilog2 x < e + 1" by (simp only: two_powi_less_iff)
  from 1 2 show ?thesis by simp
qed

lemma ilog2_mono:
  assumes "0 < x" and "x \<le> y"
  shows "ilog2 x \<le> ilog2 y"
proof -
  have y: "0 < y" using assms by simp
  have "(2::rat) powi (ilog2 x) < 2 powi (ilog2 y + 1)"
    using ilog2_bounds(1) [OF assms(1)] ilog2_bounds(2) [OF y] assms(2) by simp
  then show ?thesis by (simp add: two_powi_less_iff)
qed

lemma rhe_of_int: "round_half_even (of_int n) = n"
  by (simp add: round_half_even_def)

lemma rhe_floor_bounds: "\<lfloor>y\<rfloor> \<le> round_half_even y" "round_half_even y \<le> \<lfloor>y\<rfloor> + 1"
  by (simp_all add: round_half_even_def Let_def)

lemma rhe_mono:
  assumes "x \<le> y"
  shows "round_half_even x \<le> round_half_even y"
proof (cases "\<lfloor>x\<rfloor> < \<lfloor>y\<rfloor>")
  case True
  then show ?thesis using rhe_floor_bounds(2) [of x] rhe_floor_bounds(1) [of y] by linarith
next
  case False
  then have eq: "\<lfloor>x\<rfloor> = \<lfloor>y\<rfloor>" using floor_mono [OF assms] by simp
  show ?thesis using assms by (auto simp add: round_half_even_def Let_def eq)
qed

lemma rhe_neg: "round_half_even (- y) = - round_half_even y"
proof (cases "y = of_int \<lfloor>y\<rfloor>")
  case True
  then obtain n where "y = of_int n" ..
  then show ?thesis by (simp add: rhe_of_int flip: of_int_minus)
next
  case False
  then have f: "\<lfloor>- y\<rfloor> = - \<lfloor>y\<rfloor> - 1"
    by (simp add: floor_minus ceiling_altdef)
  show ?thesis
    by (auto simp add: round_half_even_def Let_def f)
qed

lemma rhe_le_of_int: "x \<le> of_int n \<Longrightarrow> round_half_even x \<le> n"
  using rhe_mono [of x "of_int n"] by (simp add: rhe_of_int)

lemma rhe_ge_of_int: "of_int n \<le> x \<Longrightarrow> n \<le> round_half_even x"
  using rhe_mono [of "of_int n" x] by (simp add: rhe_of_int)


lemma quantum_pos: "0 < quantum p qmin x"
  by (simp add: quantum_def two_powi_pos)

lemma quantum_neg: "quantum p qmin (- x) = quantum p qmin x"
  by (simp add: quantum_def)

lemma round_to_neg: "round_to p qmin (- x) = - round_to p qmin x"
  by (simp add: round_to_def quantum_neg rhe_neg)

lemma round_to_le_grid:
  assumes "x \<le> of_int n * quantum p qmin x"
  shows "round_to p qmin x \<le> of_int n * quantum p qmin x"
proof (cases "x = 0")
  case True
  with assms show ?thesis by (simp add: round_to_def)
next
  case False
  have "x / quantum p qmin x \<le> of_int n"
    using assms quantum_pos [of p qmin x] by (simp add: pos_divide_le_eq)
  then have "round_half_even (x / quantum p qmin x) \<le> n" by (rule rhe_le_of_int)
  then have "(of_int (round_half_even (x / quantum p qmin x)) :: rat) \<le> of_int n"
    by (simp only: of_int_le_iff)
  then show ?thesis
    using False quantum_pos [of p qmin x] by (simp add: round_to_def)
qed

lemma round_to_ge_grid:
  assumes "of_int n * quantum p qmin x \<le> x"
  shows "of_int n * quantum p qmin x \<le> round_to p qmin x"
proof (cases "x = 0")
  case True
  with assms show ?thesis by (simp add: round_to_def)
next
  case False
  have "of_int n \<le> x / quantum p qmin x"
    using assms quantum_pos [of p qmin x] by (simp add: pos_le_divide_eq)
  then have "n \<le> round_half_even (x / quantum p qmin x)" by (rule rhe_ge_of_int)
  then have "(of_int n :: rat) \<le> of_int (round_half_even (x / quantum p qmin x))"
    by (simp only: of_int_le_iff)
  then show ?thesis
    using False quantum_pos [of p qmin x] by (simp add: round_to_def)
qed

lemma round_to_nonneg: "0 \<le> x \<Longrightarrow> 0 \<le> round_to p qmin x"
  using round_to_ge_grid [of 0 p qmin x] by simp

lemma round_to_lower:
  assumes "0 < x" and "1 \<le> p" and "qmin \<le> ilog2 x - int p + 1"
  shows "2 powi (ilog2 x) \<le> round_to p qmin x"
proof -
  have q: "quantum p qmin x = 2 powi (ilog2 x - int p + 1)"
    using assms by (simp add: quantum_def max_def)
  have "(2::rat) powi (ilog2 x) = 2 powi (int p - 1) * 2 powi (ilog2 x - int p + 1)"
    by (simp flip: power_int_add)
  also have "(2::rat) powi (int p - 1) = of_int (2 ^ nat (int p - 1))"
    using assms(2) by (intro two_powi_of_int) simp
  finally have g: "(2::rat) powi (ilog2 x) = of_int (2 ^ nat (int p - 1)) * quantum p qmin x"
    by (simp only: q)
  show ?thesis
    using round_to_ge_grid [of "2 ^ nat (int p - 1)" p qmin x] ilog2_bounds(1) [OF assms(1)]
    by (simp only: g [symmetric])
qed

lemma round_to_upper:
  assumes "0 < x"
  shows "round_to p qmin x \<le> max (2 powi (ilog2 x + 1)) (quantum p qmin x)"
proof -
  define k where "k = max (ilog2 x - int p + 1) qmin"
  have q: "quantum p qmin x = 2 powi k" using assms by (simp add: quantum_def k_def)
  show ?thesis
  proof (cases "k \<le> ilog2 x + 1")
    case True
    have "(2::rat) powi (ilog2 x + 1) = 2 powi (ilog2 x + 1 - k) * 2 powi k"
      by (simp flip: power_int_add)
    also have "(2::rat) powi (ilog2 x + 1 - k) = of_int (2 ^ nat (ilog2 x + 1 - k))"
      using True by (intro two_powi_of_int) simp
    finally have g: "(2::rat) powi (ilog2 x + 1) = of_int (2 ^ nat (ilog2 x + 1 - k)) * quantum p qmin x"
      by (simp only: q)
    have "x \<le> 2 powi (ilog2 x + 1)" using ilog2_bounds(2) [OF assms] by simp
    then have "round_to p qmin x \<le> 2 powi (ilog2 x + 1)"
      using round_to_le_grid [of x "2 ^ nat (ilog2 x + 1 - k)" p qmin] by (simp only: g [symmetric])
    then show ?thesis by simp
  next
    case False
    then have "(2::rat) powi (ilog2 x + 1) \<le> 2 powi k" by (simp add: two_powi_le_iff)
    then have "x \<le> of_int 1 * quantum p qmin x"
      using ilog2_bounds(2) [OF assms] by (simp add: q)
    then have "round_to p qmin x \<le> of_int 1 * quantum p qmin x" by (rule round_to_le_grid)
    then show ?thesis by simp
  qed
qed

lemma round_to_mono_pos:
  assumes "0 < x" and "x \<le> y" and "1 \<le> p"
  shows "round_to p qmin x \<le> round_to p qmin y"
proof -
  have y: "0 < y" using assms by simp
  define kx where "kx = max (ilog2 x - int p + 1) qmin"
  define ky where "ky = max (ilog2 y - int p + 1) qmin"
  have qx: "quantum p qmin x = 2 powi kx" using assms(1) by (simp add: quantum_def kx_def)
  have qy: "quantum p qmin y = 2 powi ky" using y by (simp add: quantum_def ky_def)
  have e: "ilog2 x \<le> ilog2 y" using assms(1,2) by (rule ilog2_mono)
  then have k: "kx \<le> ky" by (simp add: kx_def ky_def max_def)
  show ?thesis
  proof (cases "kx = ky")
    case True
    have "x / 2 powi ky \<le> y / 2 powi ky"
      using assms(2) two_powi_pos [of ky] by (simp add: divide_right_mono)
    then have "round_half_even (x / 2 powi ky) \<le> round_half_even (y / 2 powi ky)" by (rule rhe_mono)
    then have "(of_int (round_half_even (x / 2 powi ky)) :: rat) \<le> of_int (round_half_even (y / 2 powi ky))"
      by (simp only: of_int_le_iff)
    then show ?thesis
      using assms(1) y two_powi_pos [of ky] by (simp add: round_to_def qx qy True)
  next
    case False
    with k have lt: "kx < ky" by simp
    then have ky': "ky = ilog2 y - int p + 1" and qm: "qmin \<le> ilog2 y - int p + 1"
      by (auto simp add: kx_def ky_def max_def split: if_splits)
    have elt: "ilog2 x < ilog2 y" using lt e by (auto simp add: kx_def ky_def max_def split: if_splits)
    have "round_to p qmin x \<le> max (2 powi (ilog2 x + 1)) (2 powi kx)"
      using round_to_upper [OF assms(1), of p qmin] by (simp only: qx)
    also have "\<dots> \<le> 2 powi (ilog2 y)"
      using elt lt assms(3) by (simp add: two_powi_le_iff ky')
    also have "\<dots> \<le> round_to p qmin y" using y assms(3) qm by (rule round_to_lower)
    finally show ?thesis .
  qed
qed

lemma round_to_mono:
  assumes "x \<le> y" and "1 \<le> p"
  shows "round_to p qmin x \<le> round_to p qmin y"
proof -
  consider "0 < x" | "x \<le> 0" "0 \<le> y" | "y < 0" using assms(1) by linarith
  then show ?thesis
  proof cases
    case 1
    then show ?thesis using assms by (rule round_to_mono_pos)
  next
    case 2
    have "round_to p qmin x \<le> 0"
      using round_to_nonneg [of "- x" p qmin] 2(1) by (simp add: round_to_neg)
    also have "0 \<le> round_to p qmin y" using 2(2) by (rule round_to_nonneg)
    finally show ?thesis .
  next
    case 3
    have "round_to p qmin (- y) \<le> round_to p qmin (- x)"
      using 3 assms by (intro round_to_mono_pos) auto
    then show ?thesis by (simp add: round_to_neg)
  qed
qed

lemma round_to_rep_pos:
  assumes "1 \<le> p" and "0 < n" and "n \<le> 2 ^ p" and "qmin \<le> k"
  shows "round_to p qmin (of_int n * 2 powi k) = of_int n * 2 powi k"
proof -
  define y :: rat where "y = of_int n * 2 powi k"
  have y: "0 < y" using assms(2) two_powi_pos [of k] by (simp add: y_def)
  define k' where "k' = max (ilog2 y - int p + 1) qmin"
  have q: "quantum p qmin y = 2 powi k'" using y by (simp add: quantum_def k'_def)
  have "\<exists>m. y = of_int m * 2 powi k'"
  proof (cases "n = 2 ^ p")
    case True
    have yp: "y = 2 powi (int p + k)" by (simp add: y_def True power_int_add)
    have "ilog2 y = int p + k"
      unfolding yp by (rule ilog2_unique) (simp_all add: two_powi_less_iff)
    then have k': "k' = k + 1" using assms(4) by (simp add: k'_def)
    have "(2::rat) powi (int p + k) = 2 powi (int p - 1) * 2 powi (k + 1)"
      by (simp flip: power_int_add)
    also have "(2::rat) powi (int p - 1) = of_int (2 ^ nat (int p - 1))"
      using assms(1) by (intro two_powi_of_int) simp
    finally show ?thesis unfolding yp k' by blast
  next
    case False
    with assms(3) have "n < 2 ^ p" by simp
    then have "(of_int n :: rat) < of_int (2 ^ p)" by (simp only: of_int_less_iff)
    then have "y < 2 powi (int p) * 2 powi k"
      unfolding y_def using two_powi_pos [of k] by simp
    then have "y < 2 powi (int p + k)" by (simp add: power_int_add)
    with ilog2_bounds(1) [OF y] have "(2::rat) powi (ilog2 y) < 2 powi (int p + k)" by simp
    then have "ilog2 y < int p + k" by (simp only: two_powi_less_iff)
    then have le: "k' \<le> k" using assms(4) by (simp add: k'_def)
    have "(2::rat) powi k = 2 powi (k - k') * 2 powi k'" by (simp flip: power_int_add)
    also have "(2::rat) powi (k - k') = of_int (2 ^ nat (k - k'))"
      using le by (intro two_powi_of_int) simp
    finally have "y = of_int (n * 2 ^ nat (k - k')) * 2 powi k'"
      by (simp add: y_def)
    then show ?thesis by blast
  qed
  then obtain m where m: "y = of_int m * 2 powi k'" ..
  have d: "y / 2 powi k' = of_int m" using two_powi_pos [of k'] by (simp add: m)
  have "round_to p qmin y = of_int (round_half_even (y / 2 powi k')) * 2 powi k'"
    using y by (simp add: round_to_def q)
  also have "\<dots> = of_int m * 2 powi k'" by (simp only: d rhe_of_int)
  also have "\<dots> = y" by (simp only: m)
  finally show ?thesis by (simp only: y_def)
qed

lemma round_to_rep:
  assumes "1 \<le> p" and "\<bar>n\<bar> \<le> 2 ^ p" and "qmin \<le> k"
  shows "round_to p qmin (of_int n * 2 powi k) = of_int n * 2 powi k"
proof -
  consider "0 < n" | "n = 0" | "n < 0" by linarith
  then show ?thesis
  proof cases
    case 1
    then show ?thesis using assms by (intro round_to_rep_pos) auto
  next
    case 2
    then show ?thesis by (simp add: round_to_def)
  next
    case 3
    then have "round_to p qmin (of_int (- n) * 2 powi k) = of_int (- n) * 2 powi k"
      using assms by (intro round_to_rep_pos) auto
    then show ?thesis by (simp add: round_to_neg)
  qed
qed

lemma round_to_form:
  "\<exists>n k. round_to p qmin x = of_int n * 2 powi k \<and> \<bar>n\<bar> \<le> 2 ^ p \<and> qmin \<le> k"
proof (cases "x = 0")
  case True
  have "round_to p qmin x = of_int 0 * 2 powi qmin \<and> \<bar>0::int\<bar> \<le> 2 ^ p \<and> qmin \<le> qmin"
    by (simp add: True round_to_def)
  then show ?thesis by blast
next
  case False
  define k where "k = max (ilog2 \<bar>x\<bar> - int p + 1) qmin"
  have q: "quantum p qmin x = 2 powi k" by (simp add: quantum_def k_def)
  have ax: "0 < \<bar>x\<bar>" using False by simp
  have "\<bar>x\<bar> < 2 powi (ilog2 \<bar>x\<bar> + 1)" using ilog2_bounds(2) [OF ax] .
  also have "\<dots> \<le> 2 powi (int p + k)" by (simp add: two_powi_le_iff k_def)
  also have "\<dots> = of_int (2 ^ p) * 2 powi k" by (simp add: power_int_add)
  finally have b: "\<bar>x\<bar> \<le> of_int (2 ^ p) * quantum p qmin x" by (simp add: q)
  have "x \<le> of_int (2 ^ p) * quantum p qmin x" using b by simp
  then have u: "round_to p qmin x \<le> of_int (2 ^ p) * quantum p qmin x" by (rule round_to_le_grid)
  have "of_int (- (2 ^ p)) * quantum p qmin x \<le> x" using b by simp
  then have l: "of_int (- (2 ^ p)) * quantum p qmin x \<le> round_to p qmin x" by (rule round_to_ge_grid)
  define n where "n = round_half_even (x / quantum p qmin x)"
  have r: "round_to p qmin x = of_int n * 2 powi k" using False by (simp add: round_to_def n_def q)
  have "of_int n * (2::rat) powi k \<le> of_int (2 ^ p) * 2 powi k" using u by (simp only: r q)
  then have "(of_int n :: rat) \<le> of_int (2 ^ p)" using two_powi_pos [of k] by (simp only: mult_le_cancel_right_pos)
  then have n1: "n \<le> 2 ^ p" by (simp only: of_int_le_iff)
  have "of_int (- (2 ^ p)) * (2::rat) powi k \<le> of_int n * 2 powi k" using l by (simp only: r q)
  then have "(of_int (- (2 ^ p)) :: rat) \<le> of_int n" using two_powi_pos [of k] by (simp only: mult_le_cancel_right_pos)
  then have n2: "- (2 ^ p) \<le> n" by (simp only: of_int_le_iff)
  have "\<bar>n\<bar> \<le> 2 ^ p" using n1 n2 by simp
  moreover have "qmin \<le> k" by (simp add: k_def)
  ultimately show ?thesis using r by blast
qed

lemma round_to_idem:
  assumes "1 \<le> p"
  shows "round_to p qmin (round_to p qmin x) = round_to p qmin x"
proof -
  obtain n k where "round_to p qmin x = of_int n * 2 powi k" "\<bar>n\<bar> \<le> 2 ^ p" "qmin \<le> k"
    using round_to_form [of p qmin x] by blast
  then show ?thesis using round_to_rep [OF assms, of n qmin k] by simp
qed

lemma rhe_nearest:
  assumes "of_int n - 1 / 2 < y" and "y < of_int n + 1 / 2"
  shows "round_half_even y = n"
proof -
  have "\<lfloor>y\<rfloor> = n \<or> \<lfloor>y\<rfloor> = n - 1" using assms by linarith
  then show ?thesis
  proof
    assume "\<lfloor>y\<rfloor> = n"
    then show ?thesis using assms by (simp add: round_half_even_def)
  next
    assume "\<lfloor>y\<rfloor> = n - 1"
    then show ?thesis using assms by (simp add: round_half_even_def)
  qed
qed

text \<open>
  Rounding a given rational, by hand: \<open>e\<close> is its binary exponent, \<open>q\<close> the quantum there,
  and \<open>n\<close> the integer nearest to \<open>x / q\<close>.
\<close>

lemma round_to_eval:
  assumes "2 powi e \<le> \<bar>x\<bar>" and "\<bar>x\<bar> < 2 powi (e + 1)"
    and "q = 2 powi (max (e - int p + 1) qmin)"
    and "of_int n - 1 / 2 < x / q" and "x / q < of_int n + 1 / 2"
  shows "round_to p qmin x = of_int n * q"
proof -
  have "ilog2 \<bar>x\<bar> = e" using assms(1,2) by (rule ilog2_unique)
  moreover have "0 < \<bar>x\<bar>" by (rule less_le_trans [OF two_powi_pos assms(1)])
  moreover have "round_half_even (x / q) = n" using assms(4,5) by (rule rhe_nearest)
  ultimately show ?thesis using assms(3) by (simp add: round_to_def quantum_def)
qed

lemma round_number_eval:
  assumes "2 powi e \<le> \<bar>x\<bar>" and "\<bar>x\<bar> < 2 powi (e + 1)"
    and "q = 2 powi (max (e - int p + 1) qmin)"
    and "of_int n - 1 / 2 < x / q" and "x / q < of_int n + 1 / 2"
    and "n \<noteq> 0" and "\<bar>of_int n * q\<bar> < 2 powi emax"
  shows "round_number p qmin emax x = Finite (of_int n * q)"
proof -
  have r: "round_to p qmin x = of_int n * q" using assms(1-5) by (rule round_to_eval)
  have "q \<noteq> 0" by (simp add: assms(3))
  then have "of_int n * q \<noteq> 0" using assms(6) by simp
  then show ?thesis using assms(7) by (simp add: round_number_def r not_le)
qed

lemma rhe_tie:
  assumes "y = of_int n + 1 / 2 \<or> y = of_int n - 1 / 2" and "even n"
  shows "round_half_even y = n"
  using assms(1)
proof
  assume y: "y = of_int n + 1 / 2"
  have "\<lfloor>y\<rfloor> = n" unfolding y by linarith
  then show ?thesis using assms(2) by (simp add: round_half_even_def y)
next
  assume y: "y = of_int n - 1 / 2"
  have "\<lfloor>y\<rfloor> = n - 1" unfolding y by linarith
  then show ?thesis using assms(2) by (simp add: round_half_even_def y)
qed

lemma round_number_eval_tie:
  assumes "2 powi e \<le> \<bar>x\<bar>" and "\<bar>x\<bar> < 2 powi (e + 1)"
    and "q = 2 powi (max (e - int p + 1) qmin)"
    and "x / q = of_int n + 1 / 2 \<or> x / q = of_int n - 1 / 2" and "even n"
    and "n \<noteq> 0" and "\<bar>of_int n * q\<bar> < 2 powi emax"
  shows "round_number p qmin emax x = Finite (of_int n * q)"
proof -
  have "ilog2 \<bar>x\<bar> = e" using assms(1,2) by (rule ilog2_unique)
  moreover have "0 < \<bar>x\<bar>" by (rule less_le_trans [OF two_powi_pos assms(1)])
  moreover have "round_half_even (x / q) = n" using assms(4,5) by (rule rhe_tie)
  ultimately have r: "round_to p qmin x = of_int n * q"
    using assms(3) by (simp add: round_to_def quantum_def)
  have "q \<noteq> 0" by (simp add: assms(3))
  then have "of_int n * q \<noteq> 0" using assms(6) by simp
  then show ?thesis using assms(7) by (simp add: round_number_def r not_le)
qed

section \<open>Numbers of the program\<close>

lemma round_number_zero: "round_number p qmin emax 0 = Finite 0"
  by (simp add: round_number_def round_to_def not_le two_powi_pos)

lemma lit_0: "lit 0 = Finite 0"
  by (simp add: lit_def round64_def round_number_zero)

lemma lit_1: "lit 1 = Finite 1"
  unfolding lit_def round64_def
  by (rule trans [OF round_number_eval [where e = 0 and n = 4503599627370496 and q = "1 / 4503599627370496"]])
     simp_all

lemma to_float32_0: "to_float32 (Finite 0) = Finite 0"
  by (simp add: round32_def round_number_zero)

lemma to_float32_1: "to_float32 (Finite 1) = Finite 1"
  unfolding to_float32.simps round32_def
  by (rule trans [OF round_number_eval [where e = 0 and n = 8388608 and q = "1 / 8388608"]])
     simp_all

lemma round_number_neg:
  "x \<noteq> 0 \<Longrightarrow> round_number p qmin emax (- x) = js_neg (round_number p qmin emax x)"
  by (auto simp add: round_number_def round_to_neg Let_def)

lemma to_float32_neg: "to_float32 (js_neg v) = js_neg (to_float32 v)"
proof (cases v)
  case (Finite x)
  then show ?thesis
    by (cases "x = 0") (simp_all add: round32_def round_number_neg round_number_zero)
qed (simp_all add: round32_def round_number_zero)

lemma exact_neg: "exact (js_neg v) = map_option uminus (exact v)"
  by (cases v) simp_all

lemma round_number_dyadic:
  assumes "exact (round_number p qmin emax x) = Some y"
  shows "\<exists>n k. y = of_int n * 2 powi k"
proof -
  obtain n k where f: "round_to p qmin x = of_int n * 2 powi k"
    using round_to_form [of p qmin x] by blast
  have "y = round_to p qmin x \<or> y = 0"
    using assms by (auto simp add: round_number_def Let_def split: if_splits)
  then show ?thesis
  proof
    assume "y = round_to p qmin x"
    with f show ?thesis by blast
  next
    assume "y = 0"
    then have "y = of_int 0 * 2 powi 0" by simp
    then show ?thesis by blast
  qed
qed

lemma to_float32_dyadic:
  assumes "exact (to_float32 v) = Some y"
  shows "\<exists>n k. y = of_int n * 2 powi k"
proof (cases v)
  case (Finite x)
  with assms show ?thesis by (auto simp add: round32_def dest: round_number_dyadic)
next
  case NegZero
  with assms have "y = of_int 0 * 2 powi 0" by simp
  then show ?thesis by blast
qed (use assms in simp_all)

lemma lit_tenth: "lit (1 / 10) = Finite (3602879701896397 / 36028797018963968)"
  unfolding lit_def round64_def
  by (rule trans [OF round_number_eval [where e = "- 4" and n = 7205759403792794 and q = "1 / 72057594037927936"]])
     simp_all

lemma to_float32_tenth:
  "to_float32 (Finite (3602879701896397 / 36028797018963968)) = Finite (13421773 / 134217728)"
  unfolding to_float32.simps round32_def
  by (rule trans [OF round_number_eval [where e = "- 4" and n = 13421773 and q = "1 / 134217728"]])
     simp_all

section \<open>The transformation matrix\<close>

lemma createTransformationMatrix_eq:
  "createTransformationMatrix M rotation tx ty =
     [to_float32 (Math_cos M rotation), js_neg (to_float32 (Math_sin M rotation)),
        Finite 0, Finite 0,
      to_float32 (Math_sin M rotation), to_float32 (Math_cos M rotation),
        Finite 0, Finite 0,
      Finite 0, Finite 0, Finite 1, Finite 0,
      to_float32 tx, to_float32 ty, Finite 0, Finite 1]"
  by (simp add: createTransformationMatrix_def Float32Array_def Let_def lit_0 lit_1
      to_float32_0 to_float32_1 to_float32_neg del: to_float32.simps)

text \<open>
  C1 (as amended).  For all Numbers \<open>rotation\<close>, \<open>tx\<close> and \<open>ty\<close> the function returns the
  column-major array whose columns are \<open>(c, -s, 0, 0)\<close>, \<open>(s, c, 0, 0)\<close>, \<open>(0, 0, 1, 0)\<close> and
  \<open>(tx', ty', 0, 1)\<close>, where \<open>c\<close>, \<open>s\<close>, \<open>tx'\<close> and \<open>ty'\<close> are \<^verbatim>\<open>Math.cos(rotation)\<close>,
  \<^verbatim>\<open>Math.sin(rotation)\<close>, \<open>tx\<close> and \<open>ty\<close> rounded to single precision by the \<^verbatim>\<open>Float32Array\<close>.
  The last column is \<open>(tx, ty, 0, 1)\<close> itself exactly when \<open>tx\<close> and \<open>ty\<close> are
  single-precision values.  The function is pure: the result is a function of the three
  arguments (and of the platform's \<^verbatim>\<open>Math\<close>), with no state read or written.
\<close>

theorem createTransformationMatrix_columns:
  "createTransformationMatrix M rotation tx ty =
     [to_float32 (Math_cos M rotation), js_neg (to_float32 (Math_sin M rotation)),
        Finite 0, Finite 0,
      to_float32 (Math_sin M rotation), to_float32 (Math_cos M rotation),
        Finite 0, Finite 0,
      Finite 0, Finite 0, Finite 1, Finite 0,
      to_float32 tx, to_float32 ty, Finite 0, Finite 1]
   \<and> (drop 12 (createTransformationMatrix M rotation tx ty) = [tx, ty, Finite 0, Finite 1]
        \<longleftrightarrow> to_float32 tx = tx \<and> to_float32 ty = ty)"
  by (simp only: createTransformationMatrix_eq) (simp del: to_float32.simps)

text \<open>
  C1 as stated fails: \<^verbatim>\<open>createTransformationMatrix(0, 0.1, 0)\<close> does not have the last column
  \<open>(0.1, 0, 0, 1)\<close>, on any platform.  The Number \<^verbatim>\<open>0.1\<close> is not a single-precision value, and
  the array holds 13421773 / 2^27 in its place.
\<close>

theorem createTransformationMatrix_translation_rounded:
  "\<forall>M. drop 12 (createTransformationMatrix M (lit 0) (lit (1 / 10)) (lit 0))
          = [Finite (13421773 / 134217728), Finite 0, Finite 0, Finite 1]
      \<and> drop 12 (createTransformationMatrix M (lit 0) (lit (1 / 10)) (lit 0))
          \<noteq> [lit (1 / 10), lit 0, lit 0, lit 1]"
  by (simp add: createTransformationMatrix_eq lit_tenth to_float32_tenth lit_0 to_float32_0
      del: to_float32.simps)

section \<open>The rotation block\<close>

text \<open>The only points of the unit circle with dyadic coordinates are the four on the axes.\<close>

lemma sq_mod_4: "(a::int) * a mod 4 = (if even a then 0 else 1)"
proof (cases "even a")
  case True
  then obtain u where "a = 2 * u" by (auto elim: evenE)
  then have "a * a = 4 * (u * u)" by simp
  then obtain w where "a * a = 4 * w" ..
  then have "a * a mod 4 = 0" by presburger
  then show ?thesis using True by simp
next
  case False
  then obtain u where "a = 2 * u + 1" by (auto elim: oddE)
  then have "a * a = 4 * (u * u + u) + 1" by (simp add: algebra_simps)
  then obtain w where "a * a = 4 * w + 1" ..
  then have "a * a mod 4 = 1" by presburger
  then show ?thesis using False by simp
qed

lemma sum_squares_power4:
  "(a::int) * a + b * b = 4 ^ k \<Longrightarrow> a = 0 \<or> b = 0"
proof (induction k arbitrary: a b)
  case 0
  have "a * a \<ge> 0" "b * b \<ge> 0" by simp_all
  show ?case
  proof (rule ccontr)
    assume "\<not> (a = 0 \<or> b = 0)"
    then have "a \<noteq> 0" "b \<noteq> 0" by simp_all
    then have "0 < a * a" "0 < b * b"
      by (auto simp add: zero_less_mult_iff)
    with "0.prems" show False by simp
  qed
next
  case (Suc k)
  have "(a * a + b * b) mod 4 = 0" by (simp add: Suc.prems)
  then have "(a * a mod 4 + b * b mod 4) mod 4 = 0" by (simp add: mod_add_eq)
  then have ev: "even a \<and> even b" by (auto simp add: sq_mod_4 split: if_splits)
  then obtain u v where uv: "a = 2 * u" "b = 2 * v" by (auto elim!: evenE)
  with Suc.prems have "u * u + v * v = 4 ^ k" by simp
  then have "u = 0 \<or> v = 0" by (rule Suc.IH)
  with uv show ?case by auto
qed

lemma dyadic_unit_circle:
  fixes x y :: rat
  assumes x: "x = of_int n * 2 powi i" and y: "y = of_int m * 2 powi j"
    and c: "x * x + y * y = 1"
  shows "x = 0 \<or> y = 0"
proof -
  define K where "K = nat (max 0 (max (- i) (- j)))"
  have iK: "0 \<le> i + int K" and jK: "0 \<le> j + int K" by (simp_all add: K_def)
  define a where "a = n * 2 ^ nat (i + int K)"
  define b where "b = m * 2 ^ nat (j + int K)"
  have "(2::rat) powi i = 2 powi (i + int K) / 2 powi (int K)"
    by (simp add: power_int_add)
  also have "(2::rat) powi (i + int K) = of_int (2 ^ nat (i + int K))"
    using iK by (rule two_powi_of_int)
  finally have xa: "x = of_int a / 2 ^ K" by (simp add: x a_def)
  have "(2::rat) powi j = 2 powi (j + int K) / 2 powi (int K)"
    by (simp add: power_int_add)
  also have "(2::rat) powi (j + int K) = of_int (2 ^ nat (j + int K))"
    using jK by (rule two_powi_of_int)
  finally have yb: "y = of_int b / 2 ^ K" by (simp add: y b_def)
  have "(of_int a * of_int a + of_int b * of_int b :: rat) = 2 ^ K * 2 ^ K"
    using c unfolding xa yb by (simp add: field_simps)
  also have "\<dots> = of_int (4 ^ K)" by (simp add: power_mult_distrib [symmetric])
  finally have "(of_int (a * a + b * b) :: rat) = of_int (4 ^ K)" by simp
  then have "a * a + b * b = 4 ^ K" by (simp only: of_int_eq_iff)
  then have "a = 0 \<or> b = 0" by (rule sum_squares_power4)
  then show ?thesis by (auto simp add: xa yb)
qed

lemma block2x2_createTransformationMatrix:
  "block2x2 (createTransformationMatrix M rotation tx ty) =
     [[to_float32 (Math_cos M rotation), js_neg (to_float32 (Math_sin M rotation))],
      [to_float32 (Math_sin M rotation), to_float32 (Math_cos M rotation)]]"
  by (simp add: block2x2_def createTransformationMatrix_eq del: to_float32.simps)

lemma orthonormal2x2_createTransformationMatrix:
  "orthonormal2x2 (createTransformationMatrix M rotation tx ty) =
     (case (exact (to_float32 (Math_cos M rotation)), exact (to_float32 (Math_sin M rotation))) of
        (Some a, Some b) \<Rightarrow> a * a + b * b = 1
      | _ \<Rightarrow> False)"
  by (cases "exact (to_float32 (Math_cos M rotation))";
      cases "exact (to_float32 (Math_sin M rotation))")
     (auto simp add: orthonormal2x2_def createTransformationMatrix_eq exact_neg algebra_simps
       simp del: to_float32.simps)

lemma det2x2_createTransformationMatrix:
  "det2x2 (createTransformationMatrix M rotation tx ty) =
     (case (exact (to_float32 (Math_cos M rotation)), exact (to_float32 (Math_sin M rotation))) of
        (Some a, Some b) \<Rightarrow> Some (a * a + b * b)
      | _ \<Rightarrow> None)"
  by (cases "exact (to_float32 (Math_cos M rotation))";
      cases "exact (to_float32 (Math_sin M rotation))")
     (simp_all add: det2x2_def createTransformationMatrix_eq exact_neg del: to_float32.simps)

lemma unit_circle_on_axis:
  "(case (exact (to_float32 v), exact (to_float32 w)) of
      (Some a, Some b) \<Rightarrow> a * a + b * b = 1
    | _ \<Rightarrow> False) = on_axis (to_float32 v) (to_float32 w)"
proof (cases "exact (to_float32 v)")
  case None
  then show ?thesis by (simp add: on_axis_def)
next
  case a: (Some a)
  show ?thesis
  proof (cases "exact (to_float32 w)")
    case None
    then show ?thesis by (simp add: on_axis_def a)
  next
    case b: (Some b)
    obtain n i where na: "a = of_int n * 2 powi i" using to_float32_dyadic [OF a] by blast
    obtain m j where mb: "b = of_int m * 2 powi j" using to_float32_dyadic [OF b] by blast
    have "a * a + b * b = 1 \<longleftrightarrow>
        (a = 1 \<or> a = - 1) \<and> b = 0 \<or> a = 0 \<and> (b = 1 \<or> b = - 1)"
    proof
      assume c: "a * a + b * b = 1"
      from dyadic_unit_circle [OF na mb c] show
        "(a = 1 \<or> a = - 1) \<and> b = 0 \<or> a = 0 \<and> (b = 1 \<or> b = - 1)"
      proof
        assume "a = 0"
        with c have "b * b = 1" by simp
        then have "b = 1 \<or> b = - 1" by (simp only: square_eq_1_iff)
        with \<open>a = 0\<close> show ?thesis by simp
      next
        assume "b = 0"
        with c have "a * a = 1" by simp
        then have "a = 1 \<or> a = - 1" by (simp only: square_eq_1_iff)
        with \<open>b = 0\<close> show ?thesis by simp
      qed
    next
      assume "(a = 1 \<or> a = - 1) \<and> b = 0 \<or> a = 0 \<and> (b = 1 \<or> b = - 1)"
      then show "a * a + b * b = 1" by auto
    qed
    then show ?thesis by (simp add: on_axis_def a b)
  qed
qed

text \<open>
  C6 (as amended).  For every Number \<open>rotation\<close>, the upper-left 2 x 2 block of
  \<^verbatim>\<open>createTransformationMatrix(rotation, 0, 0)\<close> is, column by column, \<open>[[c, -s], [s, c]]\<close>
  where \<open>c\<close> and \<open>s\<close> are \<^verbatim>\<open>Math.cos(rotation)\<close> and \<^verbatim>\<open>Math.sin(rotation)\<close> rounded to single
  precision.  Its determinant in exact arithmetic is \<open>c * c + s * s\<close> when both are finite.
  The block is orthonormal, and its determinant is 1, exactly when \<open>(c, s)\<close> is one of
  \<open>(1, 0)\<close>, \<open>(-1, 0)\<close>, \<open>(0, 1)\<close>, \<open>(0, -1)\<close>; for every other pair of stored values neither
  holds.
\<close>

theorem rotation_block_orthonormal_iff:
  "block2x2 (createTransformationMatrix M rotation (lit 0) (lit 0)) =
     [[to_float32 (Math_cos M rotation), js_neg (to_float32 (Math_sin M rotation))],
      [to_float32 (Math_sin M rotation), to_float32 (Math_cos M rotation)]]
   \<and> det2x2 (createTransformationMatrix M rotation (lit 0) (lit 0)) =
       (case (exact (to_float32 (Math_cos M rotation)),
              exact (to_float32 (Math_sin M rotation))) of
          (Some a, Some b) \<Rightarrow> Some (a * a + b * b)
        | _ \<Rightarrow> None)
   \<and> (orthonormal2x2 (createTransformationMatrix M rotation (lit 0) (lit 0))
        \<longleftrightarrow> on_axis (to_float32 (Math_cos M rotation)) (to_float32 (Math_sin M rotation)))
   \<and> (det2x2 (createTransformationMatrix M rotation (lit 0) (lit 0)) = Some 1
        \<longleftrightarrow> on_axis (to_float32 (Math_cos M rotation)) (to_float32 (Math_sin M rotation)))"
proof -
  have 1: "orthonormal2x2 (createTransformationMatrix M rotation (lit 0) (lit 0))
      \<longleftrightarrow> on_axis (to_float32 (Math_cos M rotation)) (to_float32 (Math_sin M rotation))"
    by (simp only: orthonormal2x2_createTransformationMatrix unit_circle_on_axis)
  have 2: "det2x2 (createTransformationMatrix M rotation (lit 0) (lit 0)) = Some 1
      \<longleftrightarrow> on_axis (to_float32 (Math_cos M rotation)) (to_float32 (Math_sin M rotation))"
    unfolding unit_circle_on_axis [symmetric] det2x2_createTransformationMatrix
    by (simp split: option.split)
  show ?thesis
    using 1 2 block2x2_createTransformationMatrix det2x2_createTransformationMatrix
    by blast
qed

text \<open>
  C6 as stated fails.  At \<open>rotation = Infinity\<close> the entries of the block are NaN on every
  platform.  At \<open>rotation = 0.01\<close>, the angle of the first frame, take a platform whose
  \<^verbatim>\<open>Math.cos\<close> and \<^verbatim>\<open>Math.sin\<close> return 4503374449265621 / 2^52 and 5764511446722567 / 2^59,
  the Numbers nearest to \<open>cos 0.01\<close> and \<open>sin 0.01\<close> (printed \<^verbatim>\<open>0.9999500004166653\<close> and
  \<^verbatim>\<open>0.009999833334166664\<close>): the stored block has determinant \<open>1 - 20097359471 / 2^60\<close>.
\<close>

theorem rotation_block_not_orthonormal:
  "(\<forall>M. \<not> orthonormal2x2 (createTransformationMatrix M PosInfinity (lit 0) (lit 0))
      \<and> det2x2 (createTransformationMatrix M PosInfinity (lit 0) (lit 0)) = None)
   \<and> det2x2 (createTransformationMatrix
        (MathImpl (\<lambda>x. Finite (4503374449265621 / 4503599627370496))
                  (\<lambda>x. Finite (5764511446722567 / 576460752303423488)))
        (lit (1 / 100)) (lit 0) (lit 0))
      = Some (1 - 20097359471 / 1152921504606846976)
   \<and> \<not> orthonormal2x2 (createTransformationMatrix
        (MathImpl (\<lambda>x. Finite (4503374449265621 / 4503599627370496))
                  (\<lambda>x. Finite (5764511446722567 / 576460752303423488)))
        (lit (1 / 100)) (lit 0) (lit 0))"
proof -
  have c: "to_float32 (Finite (4503374449265621 / 4503599627370496)) = Finite (16776377 / 16777216)"
    unfolding to_float32.simps round32_def
    by (rule trans [OF round_number_eval [where e = "- 1" and n = 16776377 and q = "1 / 16777216"]])
       simp_all
  have s: "to_float32 (Finite (5764511446722567 / 576460752303423488))
      = Finite (10737239 / 1073741824)"
    unfolding to_float32.simps round32_def
    by (rule trans [OF round_number_eval [where e = "- 7" and n = 10737239 and q = "1 / 1073741824"]])
       simp_all
  have l: "lit (1 / 100) = Finite (5764607523034235 / 576460752303423488)"
    unfolding lit_def round64_def
    by (rule trans [OF round_number_eval [where e = "- 7" and n = 5764607523034235 and q = "1 / 576460752303423488"]])
       simp_all
  have inf: "\<forall>M. \<not> orthonormal2x2 (createTransformationMatrix M PosInfinity (lit 0) (lit 0))
      \<and> det2x2 (createTransformationMatrix M PosInfinity (lit 0) (lit 0)) = None"
    by (simp add: orthonormal2x2_createTransformationMatrix det2x2_createTransformationMatrix)
  show ?thesis
    by (rule conjI [OF inf])
       (simp add: orthonormal2x2_createTransformationMatrix det2x2_createTransformationMatrix
         l c s del: to_float32.simps)
qed

section \<open>One frame\<close>

text \<open>The render pass that \<^verbatim>\<open>frame()\<close> records in state \<open>s\<close>, and the two cases of \<^verbatim>\<open>frame()\<close>.\<close>

lemma frame_paused:
  assumes "\<not> isRotating s"
  shows "frame M s =
    s\<lparr>renderPassDescriptor := (renderPassDescriptor s)
         \<lparr>colorAttachments := (colorAttachments (renderPassDescriptor s))
            [0 := (colorAttachments (renderPassDescriptor s) ! 0)
               \<lparr>view := Some (texturesAcquired (gpu s))\<rparr>]\<rparr>,
      gpu := (gpu s)
         \<lparr>texturesAcquired := Suc (texturesAcquired (gpu s)),
          queue := queue (gpu s) @
            [Submit [[BeginRenderPass ((renderPassDescriptor s)
                \<lparr>colorAttachments := (colorAttachments (renderPassDescriptor s))
                   [0 := (colorAttachments (renderPassDescriptor s) ! 0)
                      \<lparr>view := Some (texturesAcquired (gpu s))\<rparr>]\<rparr>),
              SetPipeline (pipeline s), SetBindGroup 0 (bindGroup s),
              SetVertexBuffer 0 (vertexBuffer s), Draw 3 1 0 0, EndPass]]],
          animationFrameRequests := Suc (animationFrameRequests (gpu s))\<rparr>\<rparr>"
  using assms
  by (simp add: frame_def Let_def getCurrentTexture_createView_def createCommandEncoder_def
      beginRenderPass_def setPipeline_def setBindGroup_def setVertexBuffer_def draw_def
      end_pass_def finish_def submit_def requestAnimationFrame_def)

lemma frame_rotating:
  assumes "isRotating s"
  shows "frame M s =
    s\<lparr>rotationAngle := js_add (rotationAngle s) (lit (1 / 100)),
      renderPassDescriptor := (renderPassDescriptor s)
         \<lparr>colorAttachments := (colorAttachments (renderPassDescriptor s))
            [0 := (colorAttachments (renderPassDescriptor s) ! 0)
               \<lparr>view := Some (texturesAcquired (gpu s))\<rparr>]\<rparr>,
      gpu := (writeBuffer (uniformBuffer s) 0
                (createTransformationMatrix M (js_add (rotationAngle s) (lit (1 / 100)))
                   (lit 0) (lit 0)) (gpu s))
         \<lparr>texturesAcquired := Suc (texturesAcquired (gpu s)),
          queue := queue (gpu s) @
            [WriteBuffer (uniformBuffer s) 0
               (createTransformationMatrix M (js_add (rotationAngle s) (lit (1 / 100)))
                  (lit 0) (lit 0)),
             Submit [[BeginRenderPass ((renderPassDescriptor s)
                \<lparr>colorAttachments := (colorAttachments (renderPassDescriptor s))
                   [0 := (colorAttachments (renderPassDescriptor s) ! 0)
                      \<lparr>view := Some (texturesAcquired (gpu s))\<rparr>]\<rparr>),
              SetPipeline (pipeline s), SetBindGroup 0 (bindGroup s),
              SetVertexBuffer 0 (vertexBuffer s), Draw 3 1 0 0, EndPass]]],
          animationFrameRequests := Suc (animationFrameRequests (gpu s))\<rparr>\<rparr>"
  using assms
  by (simp add: frame_def Let_def getCurrentTexture_createView_def createCommandEncoder_def
      beginRenderPass_def setPipeline_def setBindGroup_def setVertexBuffer_def draw_def
      end_pass_def finish_def submit_def requestAnimationFrame_def writeBuffer_def)

lemma frame_isRotating: "isRotating (frame M s) = isRotating s"
  by (cases "isRotating s") (simp_all add: frame_paused frame_rotating)

lemma frame_rotationAngle:
  "rotationAngle (frame M s) =
     (if isRotating s then js_add (rotationAngle s) (lit (1 / 100)) else rotationAngle s)"
  by (cases "isRotating s") (simp_all add: frame_paused frame_rotating)

lemma frame_handles:
  "vertexBuffer (frame M s) = vertexBuffer s" "pipeline (frame M s) = pipeline s"
  "uniformBuffer (frame M s) = uniformBuffer s" "bindGroup (frame M s) = bindGroup s"
  by (cases "isRotating s"; simp add: frame_paused frame_rotating)+

lemma frame_buffers:
  "buffers (gpu (frame M s)) =
     (if isRotating s
      then buffers (writeBuffer (uniformBuffer s) 0
             (createTransformationMatrix M (js_add (rotationAngle s) (lit (1 / 100)))
                (lit 0) (lit 0)) (gpu s))
      else buffers (gpu s))"
  by (cases "isRotating s") (simp_all add: frame_paused frame_rotating)

lemma frame_queue:
  "queue (gpu (frame M s)) = queue (gpu s) @
     (if isRotating s
      then [WriteBuffer (uniformBuffer s) 0
              (createTransformationMatrix M (js_add (rotationAngle s) (lit (1 / 100)))
                 (lit 0) (lit 0))]
      else []) @
     [Submit [[BeginRenderPass ((renderPassDescriptor s)
         \<lparr>colorAttachments := (colorAttachments (renderPassDescriptor s))
            [0 := (colorAttachments (renderPassDescriptor s) ! 0)
               \<lparr>view := Some (texturesAcquired (gpu s))\<rparr>]\<rparr>),
       SetPipeline (pipeline s), SetBindGroup 0 (bindGroup s),
       SetVertexBuffer 0 (vertexBuffer s), Draw 3 1 0 0, EndPass]]]"
  by (cases "isRotating s") (simp_all add: frame_paused frame_rotating)

lemma frame_resources:
  "pipelines (gpu (frame M s)) = pipelines (gpu s)"
  "bindGroups (gpu (frame M s)) = bindGroups (gpu s)"
  "shaderModules (gpu (frame M s)) = shaderModules (gpu s)"
  "consoleErrors (gpu (frame M s)) = consoleErrors (gpu s)"
  "adapterRequests (gpu (frame M s)) = adapterRequests (gpu s)"
  "deviceRequests (gpu (frame M s)) = deviceRequests (gpu s)"
  "canvasConfigurations (gpu (frame M s)) = canvasConfigurations (gpu s)"
  "clickListeners (gpu (frame M s)) = clickListeners (gpu s)"
  "animationFrameRequests (gpu (frame M s)) = Suc (animationFrameRequests (gpu s))"
  "texturesAcquired (gpu (frame M s)) = Suc (texturesAcquired (gpu s))"
  by (cases "isRotating s"; simp add: frame_paused frame_rotating writeBuffer_def)+

lemma frame_renderPassDescriptor:
  "renderPassDescriptor (frame M s) = (renderPassDescriptor s)
     \<lparr>colorAttachments := (colorAttachments (renderPassDescriptor s))
        [0 := (colorAttachments (renderPassDescriptor s) ! 0)
           \<lparr>view := Some (texturesAcquired (gpu s))\<rparr>]\<rparr>"
  by (cases "isRotating s") (simp_all add: frame_paused frame_rotating)

section \<open>The rotation angle\<close>

text \<open>
  The literal \<^verbatim>\<open>0.01\<close> is the Number 5764607523034235 / 2^59.  Added to 2^47 = 140737488355328
  it is absorbed by the rounding.
\<close>

lemma lit_hundredth: "lit (1 / 100) = Finite (5764607523034235 / 576460752303423488)"
  unfolding lit_def round64_def
  by (rule trans [OF round_number_eval [where e = "- 7" and n = 5764607523034235 and q = "1 / 576460752303423488"]])
     simp_all

lemma round_to_hundredth: "round_to 53 (- 1074) (5764607523034235 / 576460752303423488) = 5764607523034235 / 576460752303423488"
  by (rule trans [OF round_to_eval [where e = "- 7" and n = 5764607523034235
        and q = "1 / 576460752303423488"]]) simp_all

lemma round_to_stall: "round_to 53 (- 1074) (140737488355328 + 5764607523034235 / 576460752303423488) = 140737488355328"
  by (rule trans [OF round_to_eval [where e = 47 and n = 4503599627370496 and q = "1 / 32"]])
     simp_all

lemma angle_step:
  assumes "0 \<le> a" and "a \<le> 140737488355328"
  shows "js_add (Finite a) (lit (1 / 100)) = Finite (round_to 53 (- 1074) (a + 5764607523034235 / 576460752303423488))"
    and "5764607523034235 / 576460752303423488 \<le> round_to 53 (- 1074) (a + 5764607523034235 / 576460752303423488)"
    and "round_to 53 (- 1074) (a + 5764607523034235 / 576460752303423488) \<le> 140737488355328"
proof -
  have "round_to 53 (- 1074) (5764607523034235 / 576460752303423488) \<le> round_to 53 (- 1074) (a + 5764607523034235 / 576460752303423488)"
    using assms(1) by (intro round_to_mono) simp_all
  then show lo: "5764607523034235 / 576460752303423488 \<le> round_to 53 (- 1074) (a + 5764607523034235 / 576460752303423488)"
    by (simp only: round_to_hundredth)
  have "round_to 53 (- 1074) (a + 5764607523034235 / 576460752303423488) \<le> round_to 53 (- 1074) (140737488355328 + 5764607523034235 / 576460752303423488)"
    using assms(2) by (intro round_to_mono) simp_all
  then show hi: "round_to 53 (- 1074) (a + 5764607523034235 / 576460752303423488) \<le> 140737488355328"
    by (simp only: round_to_stall)
  have "\<bar>round_to 53 (- 1074) (a + 5764607523034235 / 576460752303423488)\<bar> < 2 powi 1024"
    using lo hi by simp
  then show "js_add (Finite a) (lit (1 / 100)) = Finite (round_to 53 (- 1074) (a + 5764607523034235 / 576460752303423488))"
    using assms(1) by (simp add: lit_hundredth round64_def round_number_def not_le)
qed

lemma angle_step_mono:
  assumes "round_to 53 (- 1074) a = a"
  shows "a \<le> round_to 53 (- 1074) (a + 5764607523034235 / 576460752303423488)"
proof -
  have "round_to 53 (- 1074) a \<le> round_to 53 (- 1074) (a + 5764607523034235 / 576460752303423488)"
    by (intro round_to_mono) simp_all
  then show ?thesis by (simp only: assms)
qed

lemma rhe_ge_succ:
  assumes "of_int m + 1 / 2 < y"
  shows "m + 1 \<le> round_half_even y"
proof -
  have le: "m \<le> \<lfloor>y\<rfloor>" using assms by linarith
  show ?thesis
  proof (cases "m < \<lfloor>y\<rfloor>")
    case True
    then show ?thesis using rhe_floor_bounds(1) [of y] by linarith
  next
    case False
    with le have "\<lfloor>y\<rfloor> = m" by simp
    then show ?thesis using assms by (simp add: round_half_even_def)
  qed
qed

lemma angle_step_strict:
  assumes rep: "round_to 53 (- 1074) a = a" and "0 \<le> a" and "a < 140737488355328"
  shows "a < round_to 53 (- 1074) (a + 5764607523034235 / 576460752303423488)"
proof (cases "a = 0")
  case True
  then show ?thesis by (simp add: round_to_hundredth)
next
  case False
  with assms(2) have a: "0 < a" by simp
  define x where "x = a + 5764607523034235 / 576460752303423488"
  have x: "0 < x" "a \<le> x" "5764607523034235 / 576460752303423488 \<le> x" using a by (simp_all add: x_def)
  have ea: "ilog2 a \<le> ilog2 x" using a x(2) by (rule ilog2_mono)
  have "(2::rat) powi (- 7) \<le> x" using x(3) by simp
  also have "x < 2 powi (ilog2 x + 1)" using ilog2_bounds(2) [OF x(1)] .
  finally have ex: "- 7 \<le> ilog2 x" by (simp only: two_powi_less_iff)
  show ?thesis
  proof (cases "ilog2 a = ilog2 x")
    case True
    define e where "e = ilog2 x"
    have "(2::rat) powi e \<le> a" using ilog2_bounds(1) [OF a] by (simp add: e_def True)
    also have "a < 2 powi 47" using assms(3) by simp
    finally have e46: "e \<le> 46" by (simp only: two_powi_less_iff)
    define q :: rat where "q = 2 powi (e - 52)"
    have q: "0 < q" by (simp add: q_def)
    have qa: "quantum 53 (- 1074) a = q"
      using a ex by (simp add: quantum_def q_def e_def True max_def)
    have qx: "quantum 53 (- 1074) x = q"
      using x(1) ex by (simp add: quantum_def q_def e_def max_def)
    define m where "m = round_half_even (a / q)"
    have am: "a = of_int m * q" using rep False by (simp add: round_to_def qa m_def)
    have "q \<le> 2 powi (- 6)" unfolding q_def using e46 by (simp only: two_powi_le_iff)
    then have "q / 2 < 5764607523034235 / 576460752303423488" by simp
    then have "1 / 2 < 5764607523034235 / 576460752303423488 / q" using q by (simp add: pos_less_divide_eq)
    moreover have "x / q = of_int m + 5764607523034235 / 576460752303423488 / q"
      using q by (simp add: x_def am add_divide_distrib)
    ultimately have "of_int m + 1 / 2 < x / q" by simp
    then have "m + 1 \<le> round_half_even (x / q)" by (rule rhe_ge_succ)
    then have "(of_int (m + 1) :: rat) \<le> of_int (round_half_even (x / q))"
      by (simp only: of_int_le_iff)
    then have "of_int (m + 1) * q \<le> of_int (round_half_even (x / q)) * q"
      using q by (simp only: mult_le_cancel_right_pos)
    also have "\<dots> = round_to 53 (- 1074) x"
      using x(1) by (simp add: round_to_def qx)
    finally have "a + q \<le> round_to 53 (- 1074) x" by (simp add: am algebra_simps)
    then show ?thesis using q by (simp add: x_def)
  next
    case False
    with ea have lt: "ilog2 a + 1 \<le> ilog2 x" by simp
    have "a < 2 powi (ilog2 a + 1)" using ilog2_bounds(2) [OF a] .
    also have "\<dots> \<le> 2 powi (ilog2 x)" using lt by (simp only: two_powi_le_iff)
    also have "\<dots> \<le> round_to 53 (- 1074) x"
      using x(1) ex by (intro round_to_lower) simp_all
    finally show ?thesis by (simp only: x_def)
  qed
qed

text \<open>The angles that repeated increments reach from 0.\<close>

lemma angle_orbit:
  "\<exists>r. ((\<lambda>a. js_add a (lit (1 / 100))) ^^ n) (lit 0) = Finite r
      \<and> 0 \<le> r \<and> r \<le> 140737488355328 \<and> round_to 53 (- 1074) r = r"
proof (induction n)
  case 0
  show ?case by (simp add: lit_0 round_to_def)
next
  case (Suc n)
  then obtain r where r: "((\<lambda>a. js_add a (lit (1 / 100))) ^^ n) (lit 0) = Finite r"
    "0 \<le> r" "r \<le> 140737488355328" "round_to 53 (- 1074) r = r" by blast
  note st = angle_step [OF r(2,3)]
  have "0 \<le> round_to 53 (- 1074) (r + 5764607523034235 / 576460752303423488)" using st(2) by simp
  moreover have "round_to 53 (- 1074) (round_to 53 (- 1074) (r + 5764607523034235 / 576460752303423488))
      = round_to 53 (- 1074) (r + 5764607523034235 / 576460752303423488)"
    by (rule round_to_idem) simp
  ultimately show ?case using st(1,3) by (simp add: r(1))
qed

lemma funpow_frame_rotating:
  assumes "isRotating s"
  shows "isRotating ((frame M ^^ n) s)
    \<and> rotationAngle ((frame M ^^ n) s)
        = ((\<lambda>a. js_add a (lit (1 / 100))) ^^ n) (rotationAngle s)"
  using assms by (induction n) (simp_all add: frame_isRotating frame_rotationAngle)

lemma funpow_frame_paused:
  assumes "\<not> isRotating s"
  shows "\<not> isRotating ((frame M ^^ n) s)
    \<and> rotationAngle ((frame M ^^ n) s) = rotationAngle s
    \<and> buffers (gpu ((frame M ^^ n) s)) = buffers (gpu s)"
  using assms
  by (induction n) (simp_all add: frame_isRotating frame_rotationAngle frame_buffers)

section \<open>Initialisation\<close>

lemma length_vertexData: "length vertexData = 15"
  by (simp add: vertexData_def Float32Array_def)

lemma length_createTransformationMatrix: "length (createTransformationMatrix M v tx ty) = 16"
  by (simp add: createTransformationMatrix_eq)

text \<open>On a supported host the initialisation reaches \<^verbatim>\<open>frame()\<close>, in this state.\<close>

lemma initWebGPU_supported:
  assumes "adapterAvailable h" and "deviceAvailable h"
  shows "initWebGPU M h new_backend = Inr (frame M
    \<lparr>vertexBuffer = 0, pipeline = 0, uniformBuffer = 1, bindGroup = 0,
     renderPassDescriptor =
       \<lparr>colorAttachments =
          [\<lparr>view = None, loadOp = ''clear'',
            clearValue = GPUColor (lit 0) (lit (2 / 10)) (lit (4 / 10)) (lit 1),
            storeOp = ''store''\<rparr>]\<rparr>,
     rotationAngle = lit 0, isRotating = True,
     gpu =
       \<lparr>adapterRequests = [''high-performance''], deviceRequests = 1,
        canvasConfigurations = [(preferredCanvasFormat h, ''opaque'')],
        shaderModules = [shaderCode],
        buffers =
          [\<lparr>byteSize = 60, usage = GPUBufferUsage_VERTEX, mapped = False,
            elements = vertexData\<rparr>,
           \<lparr>byteSize = 256, usage = GPUBufferUsage_UNIFORM OR GPUBufferUsage_COPY_DST,
            mapped = False, elements = replicate 64 (Finite 0)\<rparr>],
        pipelines =
          [\<lparr>vertexModule = 0, vertexEntryPoint = ''vertexMain'',
            vertexBuffers =
              [\<lparr>arrayStride = 20,
                attributes =
                  [\<lparr>shaderLocation = 0, attributeFormat = ''float32x2'', attributeOffset = 0\<rparr>,
                   \<lparr>shaderLocation = 1, attributeFormat = ''float32x3'', attributeOffset = 8\<rparr>]\<rparr>],
            fragmentModule = 0, fragmentEntryPoint = ''fragmentMain'',
            fragmentTargets = [preferredCanvasFormat h],
            primitiveTopology = ''triangle-list'', pipelineLayout = ''auto''\<rparr>],
        bindGroups =
          [\<lparr>bindGroupLayout = (0, 0), entries = [\<lparr>binding = 0, resourceBuffer = 1\<rparr>]\<rparr>],
        texturesAcquired = 0, queue = [], consoleErrors = [], clickListeners = 1,
        animationFrameRequests = 0\<rparr>\<rparr>)"
  using assms
  by (simp add: initWebGPU_def Let_def new_backend_def requestAdapter_def requestDevice_def
      configure_def createShaderModule_def createBuffer_def mappedRange_set_def unmap_def
      createRenderPipeline_def createBindGroup_def addEventListener_click_def
      byteLength_def BYTES_PER_ELEMENT_def length_vertexData)

lemma first_angle: "js_add (lit 0) (lit (1 / 100)) = lit (1 / 100)"
  using angle_step(1) [of 0] by (simp add: lit_0 round_to_hundredth lit_hundredth)

lemma angle_ok_hundredth: "angle_ok (lit (1 / 100))"
  unfolding angle_ok_def lit_hundredth
  by (rule exI [of _ "5764607523034235 / 576460752303423488"]) (simp add: round_to_hundredth)

lemma upload_ok_Submit: "upload_ok M (Submit cbs)"
  by (simp add: upload_ok_def)

lemma upload_ok_first:
  "upload_ok M (WriteBuffer 1 0 (createTransformationMatrix M (lit (1 / 100)) (lit 0) (lit 0)))"
proof -
  have "5764607523034235 / 576460752303423488 \<le> (5764607523034235 / 576460752303423488 :: rat)
      \<and> createTransformationMatrix M (lit (1 / 100)) (lit 0) (lit 0)
        = createTransformationMatrix M (Finite (5764607523034235 / 576460752303423488)) (lit 0) (lit 0)"
    by (simp add: lit_hundredth)
  then show ?thesis unfolding upload_ok_def by (simp only: queue_op.case) blast
qed

lemma angle_ok_step:
  assumes "angle_ok v"
  shows "angle_ok (js_add v (lit (1 / 100)))"
proof -
  from assms obtain a where a: "v = Finite a" "5764607523034235 / 576460752303423488 \<le> a" "a \<le> 140737488355328"
    by (auto simp add: angle_ok_def)
  have a0: "0 \<le> a" using a(2) by simp
  note st = angle_step [OF a0 a(3)]
  have "round_to 53 (- 1074) (round_to 53 (- 1074) (a + 5764607523034235 / 576460752303423488))
      = round_to 53 (- 1074) (a + 5764607523034235 / 576460752303423488)"
    by (rule round_to_idem) simp
  then show ?thesis using st by (simp add: angle_ok_def a(1))
qed

section \<open>The invariants hold in every execution\<close>

lemma static_ok_frame:
  assumes "static_ok h s"
  shows "static_ok h (frame M
    (s\<lparr>gpu := (gpu s)\<lparr>animationFrameRequests := animationFrameRequests (gpu s) - 1\<rparr>\<rparr>))"
  using assms
  by (auto simp add: static_ok_def frame_handles frame_resources frame_renderPassDescriptor)

lemma angle_ok_frame:
  assumes "angle_ok (rotationAngle s)"
  shows "angle_ok (rotationAngle (frame M s))"
  using assms by (simp add: frame_rotationAngle angle_ok_step)

lemma buffers_ok_frame:
  assumes "buffers_ok M s" and "uniformBuffer s = 1"
  shows "buffers_ok M (frame M
    (s\<lparr>gpu := (gpu s)\<lparr>animationFrameRequests := animationFrameRequests (gpu s) - 1\<rparr>\<rparr>))"
  using assms
  by (simp add: buffers_ok_def frame_buffers frame_rotationAngle writeBuffer_def
      BYTES_PER_ELEMENT_def length_createTransformationMatrix)

lemma queue_ok_frame:
  assumes "queue_ok M (queue (gpu s))" and "uniformBuffer s = 1"
    and "angle_ok (rotationAngle s)"
  shows "queue_ok M (queue (gpu (frame M
    (s\<lparr>gpu := (gpu s)\<lparr>animationFrameRequests := animationFrameRequests (gpu s) - 1\<rparr>\<rparr>))))"
proof -
  from angle_ok_step [OF assms(3)] obtain a where
    a: "js_add (rotationAngle s) (lit (1 / 100)) = Finite a" "5764607523034235 / 576460752303423488 \<le> a"
    by (auto simp add: angle_ok_def)
  then have "upload_ok M (WriteBuffer 1 0
      (createTransformationMatrix M (js_add (rotationAngle s) (lit (1 / 100))) (lit 0) (lit 0)))"
    by (auto simp add: upload_ok_def)
  then show ?thesis
    using assms(1,2) by (auto simp add: queue_ok_def frame_queue upload_ok_def)
qed

lemma running_frame:
  assumes "running M h s"
  shows "running M h (frame M
    (s\<lparr>gpu := (gpu s)\<lparr>animationFrameRequests := animationFrameRequests (gpu s) - 1\<rparr>\<rparr>))"
proof -
  let ?s = "s\<lparr>gpu := (gpu s)\<lparr>animationFrameRequests := animationFrameRequests (gpu s) - 1\<rparr>\<rparr>"
  from assms have st: "static_ok h s" and an: "angle_ok (rotationAngle s)"
    and bu: "buffers_ok M s" and qu: "queue_ok M (queue (gpu s))"
    by (simp_all add: running_def)
  have u: "uniformBuffer s = 1" using st by (simp add: static_ok_def)
  have "angle_ok (rotationAngle ?s)" using an by simp
  then have "angle_ok (rotationAngle (frame M ?s))" by (rule angle_ok_frame)
  then show ?thesis
    using static_ok_frame [OF st] buffers_ok_frame [OF bu u] queue_ok_frame [OF qu u an]
    by (simp add: running_def)
qed

lemma running_click:
  assumes "running M h s"
  shows "running M h (click s)"
  using assms by (simp add: running_def static_ok_def buffers_ok_def click_def)

lemma running_dispatch:
  assumes "running M h s"
  shows "running M h (dispatch M ev s)"
proof (cases ev)
  case Click
  then show ?thesis using assms running_click [OF assms] by simp
next
  case AnimationFrame
  then show ?thesis using assms running_frame [OF assms] by simp
qed

lemma running_run:
  assumes "running M h s"
  shows "running M h (run M evs s)"
  using assms unfolding run_def
  by (induction evs arbitrary: s) (simp_all add: running_dispatch)

text \<open>The state in which the script of a supported host ends, after the first frame.\<close>

lemma main_js_supported:
  assumes "supported h"
  shows "\<exists>s. main_js M h = Inr s \<and> running M h s \<and> isRotating s
    \<and> rotationAngle s = lit (1 / 100)
    \<and> queue (gpu s) =
        [WriteBuffer 1 0 (createTransformationMatrix M (lit (1 / 100)) (lit 0) (lit 0)),
         Submit [[BeginRenderPass
            \<lparr>colorAttachments =
               [\<lparr>view = Some 0, loadOp = ''clear'',
                 clearValue = GPUColor (lit 0) (lit (2 / 10)) (lit (4 / 10)) (lit 1),
                 storeOp = ''store''\<rparr>]\<rparr>,
           SetPipeline 0, SetBindGroup 0 0, SetVertexBuffer 0 0, Draw 3 1 0 0, EndPass]]]"
proof -
  from assms have a: "navigator_gpu h" "adapterAvailable h" "deviceAvailable h"
    by (simp_all add: supported_def)
  note i = initWebGPU_supported [OF a(2,3), of M]
  have m: "main_js M h = initWebGPU M h new_backend" using a(1) by (simp add: main_js_def)
  show ?thesis
    unfolding m i
    by (simp add: running_def static_ok_def buffers_ok_def queue_ok_def upload_ok_Submit
        upload_ok_first [unfolded One_nat_def] frame_handles frame_resources frame_renderPassDescriptor
        frame_rotationAngle frame_isRotating frame_buffers frame_queue first_angle
        angle_ok_hundredth writeBuffer_def BYTES_PER_ELEMENT_def
        length_createTransformationMatrix)
qed

lemma execution_supported:
  assumes "supported h"
  shows "\<exists>s. execution M h evs = Inr s \<and> running M h s"
proof -
  from main_js_supported [OF assms, of M] obtain s0 where
    "main_js M h = Inr s0" "running M h s0" by blast
  then show ?thesis by (simp add: execution_def running_run)
qed

section \<open>Events\<close>

lemma execution_append:
  assumes "execution M h evs = Inr s"
  shows "execution M h (evs @ evs') = Inr (run M evs' s)"
  using assms by (auto simp add: execution_def run_def split: sum.splits)

lemma run_Cons: "run M (ev # evs) s = run M evs (dispatch M ev s)"
  by (simp add: run_def)

lemma run_Nil: "run M [] s = s"
  by (simp add: run_def)

text \<open>A display refresh on a running page is one call of \<^verbatim>\<open>frame()\<close>.\<close>

lemma dispatch_frame:
  assumes "running M h s"
  shows "isRotating (dispatch M AnimationFrame s) = isRotating s"
    and "rotationAngle (dispatch M AnimationFrame s) = rotationAngle (frame M s)"
    and "buffers (gpu (dispatch M AnimationFrame s)) = buffers (gpu (frame M s))"
    and "queue (gpu (dispatch M AnimationFrame s)) = queue (gpu (frame M s))"
proof -
  have p: "0 < animationFrameRequests (gpu s)"
    using assms by (simp add: running_def static_ok_def)
  show "isRotating (dispatch M AnimationFrame s) = isRotating s"
    using p by (simp add: frame_isRotating)
  show "rotationAngle (dispatch M AnimationFrame s) = rotationAngle (frame M s)"
    using p by (simp add: frame_rotationAngle)
  show "buffers (gpu (dispatch M AnimationFrame s)) = buffers (gpu (frame M s))"
    using p by (simp add: frame_buffers writeBuffer_def)
  show "queue (gpu (dispatch M AnimationFrame s)) = queue (gpu (frame M s))"
    using p by (simp add: frame_queue)
qed

lemma dispatch_click:
  assumes "running M h s"
  shows "dispatch M Click s = click s"
  using assms by (simp add: running_def static_ok_def)

lemma run_frames_rotating:
  assumes "running M h s" and "isRotating s"
  shows "isRotating (run M (replicate n AnimationFrame) s)
    \<and> rotationAngle (run M (replicate n AnimationFrame) s)
        = ((\<lambda>a. js_add a (lit (1 / 100))) ^^ n) (rotationAngle s)"
  using assms
proof (induction n arbitrary: s)
  case 0
  then show ?case by (simp add: run_Nil)
next
  case (Suc n)
  note d = dispatch_frame [OF Suc.prems(1)]
  have r: "running M h (dispatch M AnimationFrame s)"
    using Suc.prems(1) by (rule running_dispatch)
  have i: "isRotating (dispatch M AnimationFrame s)" using d(1) Suc.prems(2) by simp
  have a: "rotationAngle (dispatch M AnimationFrame s) = js_add (rotationAngle s) (lit (1 / 100))"
    using d(2) Suc.prems(2) by (simp add: frame_rotationAngle)
  have "((\<lambda>a. js_add a (lit (1 / 100))) ^^ Suc n) (rotationAngle s)
      = ((\<lambda>a. js_add a (lit (1 / 100))) ^^ n) (js_add (rotationAngle s) (lit (1 / 100)))"
    by (simp only: funpow_Suc_right comp_apply)
  then show ?case
    using Suc.IH [OF r i] by (simp add: run_Cons a del: dispatch.simps funpow.simps)
qed

lemma run_frames_paused:
  assumes "running M h s" and "\<not> isRotating s"
  shows "\<not> isRotating (run M (replicate n AnimationFrame) s)
    \<and> rotationAngle (run M (replicate n AnimationFrame) s) = rotationAngle s
    \<and> buffers (gpu (run M (replicate n AnimationFrame) s)) = buffers (gpu s)"
  using assms
proof (induction n arbitrary: s)
  case 0
  then show ?case by (simp add: run_Nil)
next
  case (Suc n)
  note d = dispatch_frame [OF Suc.prems(1)]
  have r: "running M h (dispatch M AnimationFrame s)"
    using Suc.prems(1) by (rule running_dispatch)
  have i: "\<not> isRotating (dispatch M AnimationFrame s)" using d(1) Suc.prems(2) by simp
  have a: "rotationAngle (dispatch M AnimationFrame s) = rotationAngle s"
    using d(2) Suc.prems(2) by (simp add: frame_rotationAngle)
  have b: "buffers (gpu (dispatch M AnimationFrame s)) = buffers (gpu s)"
    using d(3) Suc.prems(2) by (simp add: frame_buffers)
  show ?case
    using Suc.IH [OF r i] by (simp add: run_Cons a b del: dispatch.simps)
qed

lemma run_isRotating:
  assumes "running M h s"
  shows "isRotating (run M evs s) = (isRotating s = even (count_list evs Click))"
  using assms
proof (induction evs arbitrary: s)
  case Nil
  then show ?case by (simp add: run_Nil)
next
  case (Cons ev evs)
  have r: "running M h (dispatch M ev s)" using Cons.prems by (rule running_dispatch)
  show ?case
  proof (cases ev)
    case Click
    then show ?thesis
      using Cons.IH [OF r] dispatch_click [OF Cons.prems]
      by (auto simp add: run_Cons click_def simp del: dispatch.simps)
  next
    case AnimationFrame
    then show ?thesis
      using Cons.IH [OF r] dispatch_frame(1) [OF Cons.prems]
      by (simp add: run_Cons del: dispatch.simps)
  qed
qed

lemma execution_frames:
  assumes "supported h"
  shows "\<exists>s. execution M h (replicate n AnimationFrame) = Inr s \<and> isRotating s
    \<and> rotationAngle s = ((\<lambda>a. js_add a (lit (1 / 100))) ^^ Suc n) (lit 0)"
proof -
  from main_js_supported [OF assms, of M] obtain s0 where
    s0: "main_js M h = Inr s0" "running M h s0" "isRotating s0"
      "rotationAngle s0 = lit (1 / 100)" by blast
  have "((\<lambda>a. js_add a (lit (1 / 100))) ^^ Suc n) (lit 0)
      = ((\<lambda>a. js_add a (lit (1 / 100))) ^^ n) (js_add (lit 0) (lit (1 / 100)))"
    by (simp only: funpow_Suc_right comp_apply)
  then have "((\<lambda>a. js_add a (lit (1 / 100))) ^^ n) (lit (1 / 100))
      = ((\<lambda>a. js_add a (lit (1 / 100))) ^^ Suc n) (lit 0)"
    by (simp only: first_angle)
  then show ?thesis
    using run_frames_rotating [OF s0(2,3), of n] s0(1,4)
    by (simp add: execution_def del: funpow.simps)
qed

lemma funpow_click: "isRotating ((click ^^ n) s) = (if even n then isRotating s else \<not> isRotating s)"
  by (induction n) (simp_all add: click_def)

lemma funpow_frame_paused_queue:
  assumes "\<not> isRotating s"
  shows "\<exists>cbs. queue (gpu ((frame M ^^ n) s)) = queue (gpu s) @ map Submit cbs \<and> length cbs = n"
proof (induction n)
  case 0
  have "queue (gpu ((frame M ^^ 0) s)) = queue (gpu s) @ map Submit [] \<and> length ([] :: command list list list) = 0"
    by simp
  then show ?case by blast
next
  case (Suc n)
  then obtain cbs where c: "queue (gpu ((frame M ^^ n) s)) = queue (gpu s) @ map Submit cbs"
    "length cbs = n" by blast
  have p: "\<not> isRotating ((frame M ^^ n) s)" using funpow_frame_paused [OF assms] by simp
  obtain cb where "queue (gpu (frame M ((frame M ^^ n) s))) = queue (gpu ((frame M ^^ n) s)) @ [Submit cb]"
    using p by (simp add: frame_queue)
  then have "queue (gpu ((frame M ^^ Suc n) s)) = queue (gpu s) @ map Submit (cbs @ [cb])
      \<and> length (cbs @ [cb]) = Suc n"
    using c by simp
  then show ?case by blast
qed

lemma run_append: "run M (evs @ evs') s = run M evs' (run M evs s)"
  by (simp add: run_def)

lemma supported_example_host: "supported example_host"
  by (simp add: supported_def example_host_def)

lemma execution_example_start:
  "\<exists>s. execution M example_host [] = Inr s \<and> running M example_host s \<and> isRotating s
     \<and> rotationAngle s = lit (1 / 100)"
  using main_js_supported [OF supported_example_host, of M]
  by (auto simp add: execution_def run_Nil)

lemma execution_example_click:
  "\<exists>s. execution M example_host [Click] = Inr s \<and> running M example_host s \<and> \<not> isRotating s
     \<and> rotationAngle s = lit (1 / 100)"
proof -
  from main_js_supported [OF supported_example_host, of M] obtain s0 where
    s0: "main_js M example_host = Inr s0" "running M example_host s0" "isRotating s0"
      "rotationAngle s0 = lit (1 / 100)" by blast
  have "execution M example_host [Click] = Inr (click s0)"
    using s0(1) dispatch_click [OF s0(2)]
    by (simp add: execution_def run_Cons run_Nil del: dispatch.simps)
  then show ?thesis using s0 running_click [OF s0(2)] by (simp add: click_def)
qed

section \<open>The claims about the state machine\<close>

text \<open>
  C4.  The click handler is an involution on the state.  Applied \<open>n\<close> times it leaves
  \<open>isRotating\<close> as it was when \<open>n\<close> is even and negates it when \<open>n\<close> is odd.  Nothing else
  changes \<open>isRotating\<close>: \<^verbatim>\<open>frame()\<close> and the delivery of a display refresh leave it as it is,
  so in every execution on a supported host the page is rotating exactly when the number
  of clicks so far is even.
\<close>

theorem click_toggle_parity:
  "click (click s) = s
   \<and> isRotating ((click ^^ n) s) = (if even n then isRotating s else \<not> isRotating s)
   \<and> isRotating (frame M s) = isRotating s
   \<and> isRotating (dispatch M AnimationFrame s) = isRotating s
   \<and> (supported h \<longrightarrow>
        (\<exists>s'. execution M h evs = Inr s' \<and> isRotating s' = even (count_list evs Click)))"
proof -
  have "supported h \<longrightarrow>
      (\<exists>s'. execution M h evs = Inr s' \<and> isRotating s' = even (count_list evs Click))"
  proof
    assume "supported h"
    from main_js_supported [OF this, of M] obtain s0 where
      s0: "main_js M h = Inr s0" "running M h s0" "isRotating s0" by blast
    show "\<exists>s'. execution M h evs = Inr s' \<and> isRotating s' = even (count_list evs Click)"
      using s0(1,3) run_isRotating [OF s0(2), of evs] by (simp add: execution_def)
  qed
  then show ?thesis
    by (simp add: funpow_click frame_isRotating) (simp add: click_def)
qed

theorem click_toggle_parity_witness:
  "\<forall>M. supported example_host
     \<and> (\<exists>s'. execution M example_host [Click, AnimationFrame, Click, Click] = Inr s'
          \<and> \<not> isRotating s')"
proof
  fix M
  show "supported example_host
     \<and> (\<exists>s'. execution M example_host [Click, AnimationFrame, Click, Click] = Inr s'
          \<and> \<not> isRotating s')"
    using click_toggle_parity [where M = M and h = example_host
        and evs = "[Click, AnimationFrame, Click, Click]"]
    by (simp add: supported_example_host)
qed

text \<open>
  C3.  While the page is paused, any number \<open>n\<close> of frame invocations leaves the rotation
  angle and the contents of every buffer unchanged, keeps the page paused, and queues
  nothing but \<open>n\<close> submissions.  In an execution that has reached a paused state, \<open>n\<close> more
  display refreshes leave the angle and the buffers as they were, and the uniform buffer
  still holds the matrix of that angle, the last one written while rotating.
\<close>

theorem paused_frames_keep_transform:
  "(\<not> isRotating s \<longrightarrow>
      \<not> isRotating ((frame M ^^ n) s)
      \<and> rotationAngle ((frame M ^^ n) s) = rotationAngle s
      \<and> buffers (gpu ((frame M ^^ n) s)) = buffers (gpu s)
      \<and> (\<exists>cbs. queue (gpu ((frame M ^^ n) s)) = queue (gpu s) @ map Submit cbs
            \<and> length cbs = n))
   \<and> (supported h \<and> execution M h evs = Inr s \<and> \<not> isRotating s \<longrightarrow>
      (\<exists>s'. execution M h (evs @ replicate n AnimationFrame) = Inr s'
         \<and> \<not> isRotating s'
         \<and> rotationAngle s' = rotationAngle s
         \<and> buffers (gpu s') = buffers (gpu s)
         \<and> take 16 (elements (buffers (gpu s') ! uniformBuffer s'))
             = createTransformationMatrix M (rotationAngle s) (lit 0) (lit 0)))"
proof (intro conjI impI)
  assume "\<not> isRotating s"
  then show "\<not> isRotating ((frame M ^^ n) s)"
    and "rotationAngle ((frame M ^^ n) s) = rotationAngle s"
    and "buffers (gpu ((frame M ^^ n) s)) = buffers (gpu s)"
    and "\<exists>cbs. queue (gpu ((frame M ^^ n) s)) = queue (gpu s) @ map Submit cbs \<and> length cbs = n"
    using funpow_frame_paused [where s = s and M = M and n = n]
      funpow_frame_paused_queue [where s = s and M = M and n = n] by simp_all
next
  assume a: "supported h \<and> execution M h evs = Inr s \<and> \<not> isRotating s"
  from execution_supported [of h M evs] a have r: "running M h s" by auto
  let ?s = "run M (replicate n AnimationFrame) s"
  have e: "execution M h (evs @ replicate n AnimationFrame) = Inr ?s"
    using a by (simp add: execution_append)
  have r': "running M h ?s" using r by (rule running_run)
  note p = run_frames_paused [OF r, of n]
  have u: "uniformBuffer ?s = 1" using r' by (simp add: running_def static_ok_def)
  have "take 16 (elements (buffers (gpu ?s) ! uniformBuffer ?s))
      = createTransformationMatrix M (rotationAngle ?s) (lit 0) (lit 0)"
    using r' by (simp add: running_def buffers_ok_def u length_createTransformationMatrix)
  then show "\<exists>s'. execution M h (evs @ replicate n AnimationFrame) = Inr s'
         \<and> \<not> isRotating s'
         \<and> rotationAngle s' = rotationAngle s
         \<and> buffers (gpu s') = buffers (gpu s)
         \<and> take 16 (elements (buffers (gpu s') ! uniformBuffer s'))
             = createTransformationMatrix M (rotationAngle s) (lit 0) (lit 0)"
    using e p a by simp
qed

theorem paused_frames_keep_transform_witness:
  "\<forall>M. \<exists>s s'. supported example_host \<and> execution M example_host [Click] = Inr s
     \<and> \<not> isRotating s
     \<and> rotationAngle ((frame M ^^ 2) s) = lit (1 / 100)
     \<and> execution M example_host ([Click] @ replicate 2 AnimationFrame) = Inr s'
     \<and> \<not> isRotating s'
     \<and> rotationAngle s' = lit (1 / 100)"
proof
  fix M
  from execution_example_click [of M] obtain s where
    s: "execution M example_host [Click] = Inr s" "\<not> isRotating s"
      "rotationAngle s = lit (1 / 100)" by blast
  from paused_frames_keep_transform [where s = s and M = M and n = 2 and h = example_host
      and evs = "[Click]"] s supported_example_host
  show "\<exists>s s'. supported example_host \<and> execution M example_host [Click] = Inr s
     \<and> \<not> isRotating s
     \<and> rotationAngle ((frame M ^^ 2) s) = lit (1 / 100)
     \<and> execution M example_host ([Click] @ replicate 2 AnimationFrame) = Inr s'
     \<and> \<not> isRotating s'
     \<and> rotationAngle s' = lit (1 / 100)"
    by auto
qed

text \<open>
  C10.  The click handler changes \<open>isRotating\<close> and nothing else; in particular it keeps the
  rotation angle.  If the page is rotating and is paused by a click, then after any number
  \<open>n\<close> of paused frames and the click that resumes it, the angle is the one held at the
  pause, and the first rotating frame continues from it: the angle becomes that angle plus
  0.01.  The same holds for the events of an execution.
\<close>

theorem pause_resume_keeps_angle:
  "click s = s\<lparr>isRotating := \<not> isRotating s\<rparr>
   \<and> rotationAngle (click s) = rotationAngle s
   \<and> (isRotating s \<longrightarrow>
        rotationAngle (click ((frame M ^^ n) (click s))) = rotationAngle s
        \<and> isRotating (click ((frame M ^^ n) (click s)))
        \<and> rotationAngle (frame M (click ((frame M ^^ n) (click s))))
            = js_add (rotationAngle s) (lit (1 / 100)))
   \<and> (supported h \<and> execution M h evs = Inr s \<and> isRotating s \<longrightarrow>
        (\<exists>s'. execution M h
                 (evs @ [Click] @ replicate n AnimationFrame @ [Click, AnimationFrame]) = Inr s'
           \<and> isRotating s'
           \<and> rotationAngle s' = js_add (rotationAngle s) (lit (1 / 100))))"
proof (intro conjI impI)
  show "click s = s\<lparr>isRotating := \<not> isRotating s\<rparr>" by (simp add: click_def)
  show "rotationAngle (click s) = rotationAngle s" by (simp add: click_def)
next
  assume i: "isRotating s"
  have c: "\<not> isRotating (click s)" "rotationAngle (click s) = rotationAngle s"
    using i by (simp_all add: click_def)
  note p = funpow_frame_paused [OF c(1), where M = M and n = n]
  show "rotationAngle (click ((frame M ^^ n) (click s))) = rotationAngle s"
    using p c(2) by (simp add: click_def)
  show "isRotating (click ((frame M ^^ n) (click s)))"
    using p by (simp add: click_def)
  show "rotationAngle (frame M (click ((frame M ^^ n) (click s))))
      = js_add (rotationAngle s) (lit (1 / 100))"
    using p c(2) by (simp add: frame_rotationAngle click_def)
next
  assume a: "supported h \<and> execution M h evs = Inr s \<and> isRotating s"
  from execution_supported [of h M evs] a have r: "running M h s" by auto
  have r1: "running M h (click s)" using r by (rule running_click)
  have c: "\<not> isRotating (click s)" "rotationAngle (click s) = rotationAngle s"
    using a by (simp_all add: click_def)
  let ?t = "run M (replicate n AnimationFrame) (click s)"
  have r2: "running M h ?t" using r1 by (rule running_run)
  note p = run_frames_paused [OF r1 c(1), of n]
  have r3: "running M h (click ?t)" using r2 by (rule running_click)
  let ?u = "dispatch M AnimationFrame (click ?t)"
  have "run M ([Click] @ replicate n AnimationFrame @ [Click, AnimationFrame]) s = ?u"
    using dispatch_click [OF r] dispatch_click [OF r2]
    by (simp add: run_append run_Cons run_Nil del: dispatch.simps)
  then have e: "execution M h
      (evs @ [Click] @ replicate n AnimationFrame @ [Click, AnimationFrame]) = Inr ?u"
    using a execution_append [of M h evs s] by simp
  have i: "isRotating (click ?t)" using p by (simp add: click_def)
  have ang: "rotationAngle (click ?t) = rotationAngle s" using p c(2) by (simp add: click_def)
  have "isRotating ?u" using dispatch_frame(1) [OF r3] i by (simp del: dispatch.simps)
  moreover have "rotationAngle ?u = js_add (rotationAngle s) (lit (1 / 100))"
  proof -
    have "rotationAngle ?u = rotationAngle (frame M (click ?t))"
      by (rule dispatch_frame(2) [OF r3])
    also have "\<dots> = js_add (rotationAngle (click ?t)) (lit (1 / 100))"
      using i by (simp add: frame_rotationAngle)
    finally show ?thesis by (simp only: ang)
  qed
  ultimately show "\<exists>s'. execution M h
      (evs @ [Click] @ replicate n AnimationFrame @ [Click, AnimationFrame]) = Inr s'
    \<and> isRotating s' \<and> rotationAngle s' = js_add (rotationAngle s) (lit (1 / 100))"
    using e by blast
qed

theorem pause_resume_keeps_angle_witness:
  "\<forall>M. \<exists>s s'. supported example_host \<and> execution M example_host [] = Inr s \<and> isRotating s
     \<and> rotationAngle (frame M (click ((frame M ^^ 3) (click s))))
         = js_add (lit (1 / 100)) (lit (1 / 100))
     \<and> execution M example_host
         ([] @ [Click] @ replicate 3 AnimationFrame @ [Click, AnimationFrame]) = Inr s'
     \<and> isRotating s'
     \<and> rotationAngle s' = js_add (lit (1 / 100)) (lit (1 / 100))"
proof
  fix M
  from execution_example_start [of M] obtain s where
    s: "execution M example_host [] = Inr s" "isRotating s"
      "rotationAngle s = lit (1 / 100)" by blast
  from pause_resume_keeps_angle [where s = s and M = M and n = 3 and h = example_host
      and evs = "[]"] s supported_example_host
  show "\<exists>s s'. supported example_host \<and> execution M example_host [] = Inr s \<and> isRotating s
     \<and> rotationAngle (frame M (click ((frame M ^^ 3) (click s))))
         = js_add (lit (1 / 100)) (lit (1 / 100))
     \<and> execution M example_host
         ([] @ [Click] @ replicate 3 AnimationFrame @ [Click, AnimationFrame]) = Inr s'
     \<and> isRotating s'
     \<and> rotationAngle s' = js_add (lit (1 / 100)) (lit (1 / 100))"
    by auto
qed

section \<open>The angle while rotating\<close>

lemma six_increments:
  "((\<lambda>a. js_add a (lit (1 / 100))) ^^ 6) (lit 0) = Finite (8646911284551353 / 144115188075855872)"
proof -
  have s1: "js_add (Finite (0)) (lit (1 / 100)) = Finite (5764607523034235 / 576460752303423488)"
    unfolding lit_hundredth js_add.simps round64_def
    by (rule trans [OF round_number_eval [where e = "- 7" and n = 5764607523034235 and q = "1 / 576460752303423488"]])
       simp_all
  have s2: "js_add (Finite (5764607523034235 / 576460752303423488)) (lit (1 / 100)) = Finite (5764607523034235 / 288230376151711744)"
    unfolding lit_hundredth js_add.simps round64_def
    by (rule trans [OF round_number_eval [where e = "- 6" and n = 5764607523034235 and q = "1 / 288230376151711744"]])
       simp_all
  have s3: "js_add (Finite (5764607523034235 / 288230376151711744)) (lit (1 / 100)) = Finite (1080863910568919 / 36028797018963968)"
    unfolding lit_hundredth js_add.simps round64_def
    by (rule trans [OF round_number_eval_tie [where e = "- 6" and n = 8646911284551352 and q = "1 / 288230376151711744"]])
       simp_all
  have s4: "js_add (Finite (1080863910568919 / 36028797018963968)) (lit (1 / 100)) = Finite (5764607523034235 / 144115188075855872)"
    unfolding lit_hundredth js_add.simps round64_def
    by (rule trans [OF round_number_eval [where e = "- 5" and n = 5764607523034235 and q = "1 / 144115188075855872"]])
       simp_all
  have s5: "js_add (Finite (5764607523034235 / 144115188075855872)) (lit (1 / 100)) = Finite (3602879701896397 / 72057594037927936)"
    unfolding lit_hundredth js_add.simps round64_def
    by (rule trans [OF round_number_eval [where e = "- 5" and n = 7205759403792794 and q = "1 / 144115188075855872"]])
       simp_all
  have s6: "js_add (Finite (3602879701896397 / 72057594037927936)) (lit (1 / 100)) = Finite (8646911284551353 / 144115188075855872)"
    unfolding lit_hundredth js_add.simps round64_def
    by (rule trans [OF round_number_eval [where e = "- 5" and n = 8646911284551353 and q = "1 / 144115188075855872"]])
       simp_all
  have "((\<lambda>a. js_add a (lit (1 / 100))) ^^ 6) (lit 0)
      = js_add (js_add (js_add (js_add (js_add (js_add (Finite 0) (lit (1 / 100)))
          (lit (1 / 100))) (lit (1 / 100))) (lit (1 / 100))) (lit (1 / 100))) (lit (1 / 100))"
    by (simp add: eval_nat_numeral lit_0 del: js_add.simps)
  then show ?thesis by (simp only: s1 s2 s3 s4 s5 s6)
qed

lemma lit_six_hundredths: "lit (6 / 100) = Finite (1080863910568919 / 18014398509481984)"
  unfolding lit_def round64_def
  by (rule trans [OF round_number_eval [where e = "- 5" and n = 8646911284551352 and q = "1 / 144115188075855872"]])
     simp_all

lemma round64_six_times: "round64 (6 * (5764607523034235 / 576460752303423488)) = Finite (1080863910568919 / 18014398509481984)"
  unfolding round64_def
  by (rule trans [OF round_number_eval_tie [where e = "- 5" and n = 8646911284551352 and q = "1 / 144115188075855872"]])
     simp_all

text \<open>
  C2 (as amended).  While the page is rotating, each frame invocation replaces the angle
  by the Number \<^verbatim>\<open>rotationAngle + 0.01\<close>, the exact sum rounded to double precision, and
  leaves the page rotating; after \<open>n\<close> invocations the angle is the \<open>n\<close>-fold rounded sum.
  The program starts from the angle 0: from there the angle stays finite, it never
  decreases from one frame to the next (no wrap is applied), it increases at every frame
  as long as it is below 2^47 = 140737488355328, and it never exceeds 2^47.  In an
  execution on a supported host, the first frame runs during the initialisation, so after
  \<open>n\<close> display refreshes the angle is the \<open>(n + 1)\<close>-fold rounded sum from 0.
\<close>

theorem rotating_frames_add_hundredth:
  "(isRotating s \<longrightarrow>
      isRotating ((frame M ^^ n) s)
      \<and> rotationAngle (frame M s) = js_add (rotationAngle s) (lit (1 / 100))
      \<and> rotationAngle ((frame M ^^ n) s)
          = ((\<lambda>a. js_add a (lit (1 / 100))) ^^ n) (rotationAngle s))
   \<and> (isRotating s \<and> rotationAngle s = lit 0 \<longrightarrow>
      (\<exists>r r'. rotationAngle ((frame M ^^ n) s) = Finite r
          \<and> rotationAngle ((frame M ^^ Suc n) s) = Finite r'
          \<and> 0 \<le> r \<and> r \<le> r' \<and> r' \<le> 140737488355328
          \<and> (r < 140737488355328 \<longrightarrow> r < r')))
   \<and> (supported h \<longrightarrow>
      (\<exists>s'. execution M h (replicate n AnimationFrame) = Inr s' \<and> isRotating s'
          \<and> rotationAngle s' = ((\<lambda>a. js_add a (lit (1 / 100))) ^^ Suc n) (lit 0)))"
proof (intro conjI impI)
  assume i: "isRotating s"
  show "isRotating ((frame M ^^ n) s)"
    using funpow_frame_rotating [OF i, where M = M and n = n] by simp
  show "rotationAngle (frame M s) = js_add (rotationAngle s) (lit (1 / 100))"
    using i by (simp add: frame_rotationAngle)
  show "rotationAngle ((frame M ^^ n) s)
      = ((\<lambda>a. js_add a (lit (1 / 100))) ^^ n) (rotationAngle s)"
    using funpow_frame_rotating [OF i, where M = M and n = n] by simp
next
  assume a: "isRotating s \<and> rotationAngle s = lit 0"
  then have i: "isRotating s" and z: "rotationAngle s = lit 0" by simp_all
  note f = funpow_frame_rotating [OF i, where M = M and n = n]
  from angle_orbit [of n] obtain r where
    r: "((\<lambda>a. js_add a (lit (1 / 100))) ^^ n) (lit 0) = Finite r" "0 \<le> r"
      "r \<le> 140737488355328" "round_to 53 (- 1074) r = r" by blast
  define r' where "r' = round_to 53 (- 1074) (r + 5764607523034235 / 576460752303423488)"
  note st = angle_step [OF r(2,3)]
  have n: "rotationAngle ((frame M ^^ n) s) = Finite r" using f r(1) by (simp add: z)
  have "rotationAngle ((frame M ^^ Suc n) s)
      = js_add (rotationAngle ((frame M ^^ n) s)) (lit (1 / 100))"
    using f by (simp add: frame_rotationAngle)
  then have n': "rotationAngle ((frame M ^^ Suc n) s) = Finite r'"
    using st(1) by (simp only: n r'_def)
  have m: "r \<le> r'" unfolding r'_def using r(4) by (rule angle_step_mono)
  have u: "r' \<le> 140737488355328" unfolding r'_def using st(3) .
  have "r < 140737488355328 \<longrightarrow> r < r'"
    unfolding r'_def using angle_step_strict [OF r(4) r(2)] by blast
  then show "\<exists>r r'. rotationAngle ((frame M ^^ n) s) = Finite r
      \<and> rotationAngle ((frame M ^^ Suc n) s) = Finite r'
      \<and> 0 \<le> r \<and> r \<le> r' \<and> r' \<le> 140737488355328
      \<and> (r < 140737488355328 \<longrightarrow> r < r')"
    using n n' r(2) m u by blast
next
  assume "supported h"
  then show "\<exists>s'. execution M h (replicate n AnimationFrame) = Inr s' \<and> isRotating s'
      \<and> rotationAngle s' = ((\<lambda>a. js_add a (lit (1 / 100))) ^^ Suc n) (lit 0)"
    by (rule execution_frames)
qed

theorem rotating_frames_add_hundredth_witness:
  "\<forall>M. \<exists>s. execution M example_host [] = Inr s \<and> isRotating s
     \<and> rotationAngle ((frame M ^^ 2) s)
         = js_add (js_add (lit (1 / 100)) (lit (1 / 100))) (lit (1 / 100))
     \<and> isRotating (s\<lparr>rotationAngle := lit 0\<rparr>)
     \<and> rotationAngle (s\<lparr>rotationAngle := lit 0\<rparr>) = lit 0
     \<and> (\<exists>r r'. rotationAngle ((frame M ^^ 1) (s\<lparr>rotationAngle := lit 0\<rparr>)) = Finite r
           \<and> rotationAngle ((frame M ^^ Suc 1) (s\<lparr>rotationAngle := lit 0\<rparr>)) = Finite r'
           \<and> r < 140737488355328 \<and> r < r' \<and> r' \<le> 140737488355328)
     \<and> supported example_host
     \<and> (\<exists>s'. execution M example_host (replicate 2 AnimationFrame) = Inr s' \<and> isRotating s')"
proof
  fix M
  from execution_example_start [of M] obtain s where
    s: "execution M example_host [] = Inr s" "isRotating s"
      "rotationAngle s = lit (1 / 100)" by blast
  have z: "isRotating (s\<lparr>rotationAngle := lit 0\<rparr>)"
    "rotationAngle (s\<lparr>rotationAngle := lit 0\<rparr>) = lit 0"
    using s(2) by simp_all
  note t1 = rotating_frames_add_hundredth [where s = s and M = M and n = 2
      and h = example_host]
  note t2 = rotating_frames_add_hundredth [where s = "s\<lparr>rotationAngle := lit 0\<rparr>" and M = M
      and n = 1 and h = example_host]
  have a: "rotationAngle ((frame M ^^ 2) s)
      = js_add (js_add (lit (1 / 100)) (lit (1 / 100))) (lit (1 / 100))"
    using t1 s(2,3) by (simp add: eval_nat_numeral del: js_add.simps)
  have b: "\<exists>r r'. rotationAngle ((frame M ^^ 1) (s\<lparr>rotationAngle := lit 0\<rparr>)) = Finite r
      \<and> rotationAngle ((frame M ^^ Suc 1) (s\<lparr>rotationAngle := lit 0\<rparr>)) = Finite r'
      \<and> r < 140737488355328 \<and> r < r' \<and> r' \<le> 140737488355328"
  proof -
    from t2 z obtain r r' where
      r: "rotationAngle ((frame M ^^ 1) (s\<lparr>rotationAngle := lit 0\<rparr>)) = Finite r"
        "rotationAngle ((frame M ^^ Suc 1) (s\<lparr>rotationAngle := lit 0\<rparr>)) = Finite r'"
        "r' \<le> 140737488355328" "r < 140737488355328 \<longrightarrow> r < r'"
      by blast
    have "rotationAngle ((frame M ^^ 1) (s\<lparr>rotationAngle := lit 0\<rparr>))
        = js_add (lit 0) (lit (1 / 100))"
      using t2 z by (simp del: js_add.simps)
    then have "Finite r = lit (1 / 100)"
      by (simp only: r(1) first_angle)
    then have "Finite r = Finite (5764607523034235 / 576460752303423488)"
      by (simp only: lit_hundredth)
    then have "r < 140737488355328" by simp
    with r show ?thesis by blast
  qed
  have c: "\<exists>s'. execution M example_host (replicate 2 AnimationFrame) = Inr s' \<and> isRotating s'"
    using t1 supported_example_host by blast
  show "\<exists>s. execution M example_host [] = Inr s \<and> isRotating s
     \<and> rotationAngle ((frame M ^^ 2) s)
         = js_add (js_add (lit (1 / 100)) (lit (1 / 100))) (lit (1 / 100))
     \<and> isRotating (s\<lparr>rotationAngle := lit 0\<rparr>)
     \<and> rotationAngle (s\<lparr>rotationAngle := lit 0\<rparr>) = lit 0
     \<and> (\<exists>r r'. rotationAngle ((frame M ^^ 1) (s\<lparr>rotationAngle := lit 0\<rparr>)) = Finite r
           \<and> rotationAngle ((frame M ^^ Suc 1) (s\<lparr>rotationAngle := lit 0\<rparr>)) = Finite r'
           \<and> r < 140737488355328 \<and> r < r' \<and> r' \<le> 140737488355328)
     \<and> supported example_host
     \<and> (\<exists>s'. execution M example_host (replicate 2 AnimationFrame) = Inr s' \<and> isRotating s')"
    using s(1,2) a z b c supported_example_host by blast
qed

text \<open>
  C2 as stated fails.  After six frame invocations from the angle 0 (the one of the
  initialisation and five display refreshes) the angle is 8646911284551353 / 2^57, printed
  \<^verbatim>\<open>0.060000000000000005\<close>.  It is not the Number \<^verbatim>\<open>0.06\<close>, not the value of \<^verbatim>\<open>0.01 * 6\<close>, and
  neither 6 / 100 nor six times the exact value of \<^verbatim>\<open>0.01\<close>.  The angle does not grow without
  bound either: at 2^47 the increment is absorbed, \<^verbatim>\<open>2**47 + 0.01 === 2**47\<close>.
\<close>

theorem angle_after_six_frames:
  "(\<forall>M. \<exists>s. execution M example_host (replicate 5 AnimationFrame) = Inr s
       \<and> rotationAngle s = Finite (8646911284551353 / 144115188075855872))
   \<and> Finite (8646911284551353 / 144115188075855872) \<noteq> lit (6 / 100)
   \<and> Finite (8646911284551353 / 144115188075855872) \<noteq> round64 (6 * (5764607523034235 / 576460752303423488))
   \<and> (8646911284551353 / 144115188075855872 :: rat) \<noteq> 6 / 100
   \<and> (8646911284551353 / 144115188075855872 :: rat) \<noteq> 6 * (5764607523034235 / 576460752303423488)
   \<and> js_add (Finite 140737488355328) (lit (1 / 100)) = Finite 140737488355328"
proof -
  have e: "\<forall>M. \<exists>s. execution M example_host (replicate 5 AnimationFrame) = Inr s
       \<and> rotationAngle s = Finite (8646911284551353 / 144115188075855872)"
  proof
    fix M
    have n6: "Suc 5 = (6::nat)" by simp
    from execution_frames [OF supported_example_host, of M 5] obtain s where
      s: "execution M example_host (replicate 5 AnimationFrame) = Inr s"
      "rotationAngle s = ((\<lambda>a. js_add a (lit (1 / 100))) ^^ Suc 5) (lit 0)" by blast
    from s(2) have "rotationAngle s = Finite (8646911284551353 / 144115188075855872)"
      by (simp only: n6 six_increments)
    with s(1) show "\<exists>s. execution M example_host (replicate 5 AnimationFrame) = Inr s
       \<and> rotationAngle s = Finite (8646911284551353 / 144115188075855872)"
      by blast
  qed
  have t: "js_add (Finite 140737488355328) (lit (1 / 100)) = Finite 140737488355328"
  proof -
    have "js_add (Finite 140737488355328) (lit (1 / 100)) = Finite (round_to 53 (- 1074) (140737488355328 + 5764607523034235 / 576460752303423488))"
      by (rule angle_step(1)) simp_all
    then show ?thesis by (simp only: round_to_stall)
  qed
  have a: "Finite (8646911284551353 / 144115188075855872) \<noteq> lit (6 / 100)"
    unfolding lit_six_hundredths by simp
  have b: "Finite (8646911284551353 / 144115188075855872) \<noteq> round64 (6 * (5764607523034235 / 576460752303423488))"
    unfolding round64_six_times by simp
  show ?thesis
    by (intro conjI e t a b) simp_all
qed

section \<open>The claims about rendering and resources\<close>

text \<open>
  C5.  On a supported host every frame invocation, rotating or paused, hands to the queue
  exactly one submission after the upload (if any): one command buffer holding one render
  pass, which clears to the colour \<open>(0, 0.2, 0.4, 1)\<close>, sets the pipeline, the bind group
  (at index 0) and the vertex buffer (in slot 0), draws once with 3 vertices and 1
  instance, and ends.  This holds for the frame that the initialisation runs and for the
  frame of every display refresh in every execution.  The handles are those of the one
  pipeline, the one bind group (which binds the uniform buffer) and the vertex buffer.
\<close>

theorem frame_render_pass:
  "supported h \<longrightarrow>
     (\<exists>s0. main_js M h = Inr s0
        \<and> queue (gpu s0) =
            [WriteBuffer 1 0 (createTransformationMatrix M (lit (1 / 100)) (lit 0) (lit 0)),
             Submit [[BeginRenderPass
            \<lparr>colorAttachments =
               [\<lparr>view = Some 0, loadOp = ''clear'',
                 clearValue = GPUColor (lit 0) (lit (2 / 10)) (lit (4 / 10)) (lit 1),
                 storeOp = ''store''\<rparr>]\<rparr>,
           SetPipeline 0, SetBindGroup 0 0, SetVertexBuffer 0 0, Draw 3 1 0 0, EndPass]]])
     \<and> (\<exists>s v. execution M h evs = Inr s
        \<and> pipeline s = 0 \<and> bindGroup s = 0 \<and> vertexBuffer s = 0 \<and> uniformBuffer s = 1
        \<and> length (pipelines (gpu s)) = 1 \<and> length (buffers (gpu s)) = 2
        \<and> map entries (bindGroups (gpu s)) = [[\<lparr>binding = 0, resourceBuffer = 1\<rparr>]]
        \<and> queue (gpu (dispatch M AnimationFrame s)) = queue (gpu s)
            @ (if isRotating s
               then [WriteBuffer 1 0 (createTransformationMatrix M
                       (js_add (rotationAngle s) (lit (1 / 100))) (lit 0) (lit 0))]
               else [])
            @ [Submit [[BeginRenderPass
            \<lparr>colorAttachments =
               [\<lparr>view = Some v, loadOp = ''clear'',
                 clearValue = GPUColor (lit 0) (lit (2 / 10)) (lit (4 / 10)) (lit 1),
                 storeOp = ''store''\<rparr>]\<rparr>,
           SetPipeline 0, SetBindGroup 0 0, SetVertexBuffer 0 0, Draw 3 1 0 0, EndPass]]])"
proof
  assume h: "supported h"
  from main_js_supported [OF h, of M] have 1: "\<exists>s0. main_js M h = Inr s0
        \<and> queue (gpu s0) =
            [WriteBuffer 1 0 (createTransformationMatrix M (lit (1 / 100)) (lit 0) (lit 0)),
             Submit [[BeginRenderPass
            \<lparr>colorAttachments =
               [\<lparr>view = Some 0, loadOp = ''clear'',
                 clearValue = GPUColor (lit 0) (lit (2 / 10)) (lit (4 / 10)) (lit 1),
                 storeOp = ''store''\<rparr>]\<rparr>,
           SetPipeline 0, SetBindGroup 0 0, SetVertexBuffer 0 0, Draw 3 1 0 0, EndPass]]]"
    by blast
  from execution_supported [OF h, of M evs] obtain s where
    s: "execution M h evs = Inr s" "running M h s" by blast
  from s(2) have st: "static_ok h s" and bu: "buffers_ok M s" by (simp_all add: running_def)
  from st obtain v0 where d: "renderPassDescriptor s =
      \<lparr>colorAttachments =
         [\<lparr>view = Some v0, loadOp = ''clear'',
           clearValue = GPUColor (lit 0) (lit (2 / 10)) (lit (4 / 10)) (lit 1),
           storeOp = ''store''\<rparr>]\<rparr>"
    by (auto simp add: static_ok_def)
  have hd: "pipeline s = 0" "bindGroup s = 0" "vertexBuffer s = 0" "uniformBuffer s = 1"
    "length (pipelines (gpu s)) = 1"
    "map entries (bindGroups (gpu s)) = [[\<lparr>binding = 0, resourceBuffer = 1\<rparr>]]"
    using st by (simp_all add: static_ok_def)
  have lb: "length (buffers (gpu s)) = 2" using bu by (simp add: buffers_ok_def)
  have q: "queue (gpu (dispatch M AnimationFrame s)) = queue (gpu s)
            @ (if isRotating s
               then [WriteBuffer 1 0 (createTransformationMatrix M
                       (js_add (rotationAngle s) (lit (1 / 100))) (lit 0) (lit 0))]
               else [])
            @ [Submit [[BeginRenderPass
            \<lparr>colorAttachments =
               [\<lparr>view = Some (texturesAcquired (gpu s)), loadOp = ''clear'',
                 clearValue = GPUColor (lit 0) (lit (2 / 10)) (lit (4 / 10)) (lit 1),
                 storeOp = ''store''\<rparr>]\<rparr>,
           SetPipeline 0, SetBindGroup 0 0, SetVertexBuffer 0 0, Draw 3 1 0 0, EndPass]]]"
    unfolding dispatch_frame(4) [OF s(2)] frame_queue
    by (simp add: d hd)
  have 2: "\<exists>s v. execution M h evs = Inr s
        \<and> pipeline s = 0 \<and> bindGroup s = 0 \<and> vertexBuffer s = 0 \<and> uniformBuffer s = 1
        \<and> length (pipelines (gpu s)) = 1 \<and> length (buffers (gpu s)) = 2
        \<and> map entries (bindGroups (gpu s)) = [[\<lparr>binding = 0, resourceBuffer = 1\<rparr>]]
        \<and> queue (gpu (dispatch M AnimationFrame s)) = queue (gpu s)
            @ (if isRotating s
               then [WriteBuffer 1 0 (createTransformationMatrix M
                       (js_add (rotationAngle s) (lit (1 / 100))) (lit 0) (lit 0))]
               else [])
            @ [Submit [[BeginRenderPass
            \<lparr>colorAttachments =
               [\<lparr>view = Some v, loadOp = ''clear'',
                 clearValue = GPUColor (lit 0) (lit (2 / 10)) (lit (4 / 10)) (lit 1),
                 storeOp = ''store''\<rparr>]\<rparr>,
           SetPipeline 0, SetBindGroup 0 0, SetVertexBuffer 0 0, Draw 3 1 0 0, EndPass]]]"
    by (rule exI [of _ s], rule exI [of _ "texturesAcquired (gpu s)"])
       (intro conjI s(1) hd lb q)
  from 1 2 show "(\<exists>s0. main_js M h = Inr s0
        \<and> queue (gpu s0) =
            [WriteBuffer 1 0 (createTransformationMatrix M (lit (1 / 100)) (lit 0) (lit 0)),
             Submit [[BeginRenderPass
            \<lparr>colorAttachments =
               [\<lparr>view = Some 0, loadOp = ''clear'',
                 clearValue = GPUColor (lit 0) (lit (2 / 10)) (lit (4 / 10)) (lit 1),
                 storeOp = ''store''\<rparr>]\<rparr>,
           SetPipeline 0, SetBindGroup 0 0, SetVertexBuffer 0 0, Draw 3 1 0 0, EndPass]]])
     \<and> (\<exists>s v. execution M h evs = Inr s
        \<and> pipeline s = 0 \<and> bindGroup s = 0 \<and> vertexBuffer s = 0 \<and> uniformBuffer s = 1
        \<and> length (pipelines (gpu s)) = 1 \<and> length (buffers (gpu s)) = 2
        \<and> map entries (bindGroups (gpu s)) = [[\<lparr>binding = 0, resourceBuffer = 1\<rparr>]]
        \<and> queue (gpu (dispatch M AnimationFrame s)) = queue (gpu s)
            @ (if isRotating s
               then [WriteBuffer 1 0 (createTransformationMatrix M
                       (js_add (rotationAngle s) (lit (1 / 100))) (lit 0) (lit 0))]
               else [])
            @ [Submit [[BeginRenderPass
            \<lparr>colorAttachments =
               [\<lparr>view = Some v, loadOp = ''clear'',
                 clearValue = GPUColor (lit 0) (lit (2 / 10)) (lit (4 / 10)) (lit 1),
                 storeOp = ''store''\<rparr>]\<rparr>,
           SetPipeline 0, SetBindGroup 0 0, SetVertexBuffer 0 0, Draw 3 1 0 0, EndPass]]])"
    by (rule conjI)
qed

theorem frame_render_pass_witness:
  "\<forall>M. supported example_host
     \<and> (\<exists>s v. execution M example_host [Click] = Inr s \<and> \<not> isRotating s
          \<and> queue (gpu (dispatch M AnimationFrame s)) = queue (gpu s) @ [Submit [[BeginRenderPass
            \<lparr>colorAttachments =
               [\<lparr>view = Some v, loadOp = ''clear'',
                 clearValue = GPUColor (lit 0) (lit (2 / 10)) (lit (4 / 10)) (lit 1),
                 storeOp = ''store''\<rparr>]\<rparr>,
           SetPipeline 0, SetBindGroup 0 0, SetVertexBuffer 0 0, Draw 3 1 0 0, EndPass]]])"
proof
  fix M
  from execution_example_click [of M] obtain s1 where
    s1: "execution M example_host [Click] = Inr s1" "\<not> isRotating s1" by blast
  from frame_render_pass [where h = example_host and M = M and evs = "[Click]"]
    supported_example_host
  obtain s v where sv: "execution M example_host [Click] = Inr s"
    "queue (gpu (dispatch M AnimationFrame s)) = queue (gpu s)
       @ (if isRotating s
          then [WriteBuffer 1 0 (createTransformationMatrix M
                  (js_add (rotationAngle s) (lit (1 / 100))) (lit 0) (lit 0))]
          else [])
       @ [Submit [[BeginRenderPass
            \<lparr>colorAttachments =
               [\<lparr>view = Some v, loadOp = ''clear'',
                 clearValue = GPUColor (lit 0) (lit (2 / 10)) (lit (4 / 10)) (lit 1),
                 storeOp = ''store''\<rparr>]\<rparr>,
           SetPipeline 0, SetBindGroup 0 0, SetVertexBuffer 0 0, Draw 3 1 0 0, EndPass]]]"
    by blast
  from sv(1) s1(1) have "s = s1" by simp
  with sv s1(2) have "execution M example_host [Click] = Inr s \<and> \<not> isRotating s
      \<and> queue (gpu (dispatch M AnimationFrame s)) = queue (gpu s) @ [Submit [[BeginRenderPass
            \<lparr>colorAttachments =
               [\<lparr>view = Some v, loadOp = ''clear'',
                 clearValue = GPUColor (lit 0) (lit (2 / 10)) (lit (4 / 10)) (lit 1),
                 storeOp = ''store''\<rparr>]\<rparr>,
           SetPipeline 0, SetBindGroup 0 0, SetVertexBuffer 0 0, Draw 3 1 0 0, EndPass]]]"
    by (simp del: dispatch.simps)
  then show "supported example_host
     \<and> (\<exists>s v. execution M example_host [Click] = Inr s \<and> \<not> isRotating s
          \<and> queue (gpu (dispatch M AnimationFrame s)) = queue (gpu s) @ [Submit [[BeginRenderPass
            \<lparr>colorAttachments =
               [\<lparr>view = Some v, loadOp = ''clear'',
                 clearValue = GPUColor (lit 0) (lit (2 / 10)) (lit (4 / 10)) (lit 1),
                 storeOp = ''store''\<rparr>]\<rparr>,
           SetPipeline 0, SetBindGroup 0 0, SetVertexBuffer 0 0, Draw 3 1 0 0, EndPass]]])"
    using supported_example_host by blast
qed

text \<open>
  C7.  In every execution on a supported host there is exactly one render pipeline and
  there are exactly two buffers.  The vertex buffer has the size of the vertex data, 3
  vertices of 5 floats of 4 bytes, and holds the vertex data, written while it was mapped
  at creation; no queue operation ever writes to it.  The uniform buffer has 256 bytes,
  which is at least the 64 bytes of a matrix.  Since this holds after any events, neither
  buffer is ever resized or replaced.
\<close>

theorem resources_created_once:
  "supported h \<longrightarrow>
     (\<exists>s. execution M h evs = Inr s
        \<and> length (pipelines (gpu s)) = 1
        \<and> length (buffers (gpu s)) = 2
        \<and> vertexBuffer s = 0 \<and> uniformBuffer s = 1
        \<and> byteSize (buffers (gpu s) ! vertexBuffer s) = byteLength vertexData
        \<and> byteLength vertexData = 3 * 5 * 4
        \<and> length vertexData = 3 * 5
        \<and> usage (buffers (gpu s) ! vertexBuffer s) = GPUBufferUsage_VERTEX
        \<and> elements (buffers (gpu s) ! vertexBuffer s) = vertexData
        \<and> byteSize (buffers (gpu s) ! uniformBuffer s) = 256
        \<and> 64 \<le> byteSize (buffers (gpu s) ! uniformBuffer s)
        \<and> usage (buffers (gpu s) ! uniformBuffer s)
            = GPUBufferUsage_UNIFORM OR GPUBufferUsage_COPY_DST
        \<and> length (elements (buffers (gpu s) ! uniformBuffer s)) = 64
        \<and> list_all (\<lambda>op. case op of Submit cbs \<Rightarrow> True
                          | WriteBuffer b off data \<Rightarrow> b = uniformBuffer s \<and> off = 0
                              \<and> length data = 16)
             (queue (gpu s)))"
proof
  assume h: "supported h"
  from execution_supported [OF h, of M evs] obtain s where
    s: "execution M h evs = Inr s" "running M h s" by blast
  from s(2) have st: "static_ok h s" and bu: "buffers_ok M s"
    and qu: "queue_ok M (queue (gpu s))" by (simp_all add: running_def)
  have hd: "vertexBuffer s = 0" "uniformBuffer s = 1" "length (pipelines (gpu s)) = 1"
    using st by (simp_all add: static_ok_def)
  have "list_all (upload_ok M) (queue (gpu s))" using qu by (simp add: queue_ok_def)
  then have w: "list_all (\<lambda>op. case op of Submit cbs \<Rightarrow> True
                          | WriteBuffer b off data \<Rightarrow> b = uniformBuffer s \<and> off = 0
                              \<and> length data = 16)
             (queue (gpu s))"
    by (rule list.pred_mono_strong)
       (auto simp add: upload_ok_def hd length_createTransformationMatrix split: queue_op.splits)
  have "length (buffers (gpu s)) = 2
        \<and> byteSize (buffers (gpu s) ! vertexBuffer s) = byteLength vertexData
        \<and> byteLength vertexData = 3 * 5 * 4
        \<and> length vertexData = 3 * 5
        \<and> usage (buffers (gpu s) ! vertexBuffer s) = GPUBufferUsage_VERTEX
        \<and> elements (buffers (gpu s) ! vertexBuffer s) = vertexData
        \<and> byteSize (buffers (gpu s) ! uniformBuffer s) = 256
        \<and> 64 \<le> byteSize (buffers (gpu s) ! uniformBuffer s)
        \<and> usage (buffers (gpu s) ! uniformBuffer s)
            = GPUBufferUsage_UNIFORM OR GPUBufferUsage_COPY_DST
        \<and> length (elements (buffers (gpu s) ! uniformBuffer s)) = 64"
    using bu by (simp add: buffers_ok_def hd byteLength_def BYTES_PER_ELEMENT_def
        length_vertexData length_createTransformationMatrix)
  then show "\<exists>s. execution M h evs = Inr s
        \<and> length (pipelines (gpu s)) = 1
        \<and> length (buffers (gpu s)) = 2
        \<and> vertexBuffer s = 0 \<and> uniformBuffer s = 1
        \<and> byteSize (buffers (gpu s) ! vertexBuffer s) = byteLength vertexData
        \<and> byteLength vertexData = 3 * 5 * 4
        \<and> length vertexData = 3 * 5
        \<and> usage (buffers (gpu s) ! vertexBuffer s) = GPUBufferUsage_VERTEX
        \<and> elements (buffers (gpu s) ! vertexBuffer s) = vertexData
        \<and> byteSize (buffers (gpu s) ! uniformBuffer s) = 256
        \<and> 64 \<le> byteSize (buffers (gpu s) ! uniformBuffer s)
        \<and> usage (buffers (gpu s) ! uniformBuffer s)
            = GPUBufferUsage_UNIFORM OR GPUBufferUsage_COPY_DST
        \<and> length (elements (buffers (gpu s) ! uniformBuffer s)) = 64
        \<and> list_all (\<lambda>op. case op of Submit cbs \<Rightarrow> True
                          | WriteBuffer b off data \<Rightarrow> b = uniformBuffer s \<and> off = 0
                              \<and> length data = 16)
             (queue (gpu s))"
    using s(1) hd w by (intro exI [of _ s]) simp
qed

theorem resources_created_once_witness:
  "\<forall>M. supported example_host
     \<and> (\<exists>s. execution M example_host [AnimationFrame, Click, AnimationFrame] = Inr s
          \<and> length (pipelines (gpu s)) = 1
          \<and> map byteSize (buffers (gpu s)) = [60, 256]
          \<and> elements (buffers (gpu s) ! 0) = vertexData)"
proof
  fix M
  from resources_created_once [where h = example_host and M = M
      and evs = "[AnimationFrame, Click, AnimationFrame]"] supported_example_host
  obtain s where s: "execution M example_host [AnimationFrame, Click, AnimationFrame] = Inr s"
    "length (pipelines (gpu s)) = 1" "length (buffers (gpu s)) = 2"
    "vertexBuffer s = 0" "uniformBuffer s = 1"
    "byteSize (buffers (gpu s) ! vertexBuffer s) = byteLength vertexData"
    "byteLength vertexData = 3 * 5 * 4"
    "elements (buffers (gpu s) ! vertexBuffer s) = vertexData"
    "byteSize (buffers (gpu s) ! uniformBuffer s) = 256"
    by blast
  obtain b0 b1 where b: "buffers (gpu s) = [b0, b1]"
    using s(3) by (auto simp add: length_Suc_conv eval_nat_numeral)
  have "map byteSize (buffers (gpu s)) = [60, 256]"
    using s(4-7,9) by (simp add: b)
  then show "supported example_host
     \<and> (\<exists>s. execution M example_host [AnimationFrame, Click, AnimationFrame] = Inr s
          \<and> length (pipelines (gpu s)) = 1
          \<and> map byteSize (buffers (gpu s)) = [60, 256]
          \<and> elements (buffers (gpu s) ! 0) = vertexData)"
    using s(1,2,4,8) supported_example_host by auto
qed

text \<open>
  C8.  If \<^verbatim>\<open>navigator.gpu\<close> is absent, the script logs one error and requests no adapter.
  If it is present and no adapter is available, the script requests the adapter once and
  logs one error.  In both cases this is all that happens in the execution, whatever
  events follow: no device is requested, no shader module, buffer, pipeline or bind group
  is created, nothing is queued, and no click listener or frame request is registered.
\<close>

theorem unsupported_host_aborts:
  "(\<not> navigator_gpu h \<longrightarrow>
      execution M h evs = Inl (new_backend
        \<lparr>consoleErrors := [''WebGPU is not supported on this browser.'']\<rparr>))
   \<and> (navigator_gpu h \<and> \<not> adapterAvailable h \<longrightarrow>
      execution M h evs = Inl (new_backend
        \<lparr>adapterRequests := [''high-performance''],
         consoleErrors :=
           [''WebGPU adapter not available. Your hardware or browser may not support WebGPU.'']\<rparr>))
   \<and> (\<not> navigator_gpu h \<or> \<not> adapterAvailable h \<longrightarrow>
      (\<exists>g. execution M h evs = Inl g
         \<and> length (consoleErrors g) = 1 \<and> length (adapterRequests g) \<le> 1
         \<and> deviceRequests g = 0 \<and> canvasConfigurations g = [] \<and> shaderModules g = []
         \<and> buffers g = [] \<and> pipelines g = [] \<and> bindGroups g = []
         \<and> texturesAcquired g = 0 \<and> queue g = []
         \<and> clickListeners g = 0 \<and> animationFrameRequests g = 0))"
proof -
  have 1: "\<not> navigator_gpu h \<longrightarrow>
      execution M h evs = Inl (new_backend
        \<lparr>consoleErrors := [''WebGPU is not supported on this browser.'']\<rparr>)"
    by (simp add: execution_def main_js_def console_error_def new_backend_def)
  have 2: "navigator_gpu h \<and> \<not> adapterAvailable h \<longrightarrow>
      execution M h evs = Inl (new_backend
        \<lparr>adapterRequests := [''high-performance''],
         consoleErrors :=
           [''WebGPU adapter not available. Your hardware or browser may not support WebGPU.'']\<rparr>)"
    by (simp add: execution_def main_js_def initWebGPU_def Let_def console_error_def
        requestAdapter_def new_backend_def)
  have 3: "\<not> navigator_gpu h \<or> \<not> adapterAvailable h \<longrightarrow>
      (\<exists>g. execution M h evs = Inl g
         \<and> length (consoleErrors g) = 1 \<and> length (adapterRequests g) \<le> 1
         \<and> deviceRequests g = 0 \<and> canvasConfigurations g = [] \<and> shaderModules g = []
         \<and> buffers g = [] \<and> pipelines g = [] \<and> bindGroups g = []
         \<and> texturesAcquired g = 0 \<and> queue g = []
         \<and> clickListeners g = 0 \<and> animationFrameRequests g = 0)"
  proof (cases "navigator_gpu h")
    case False
    with 1 show ?thesis by (simp add: new_backend_def)
  next
    case True
    with 2 show ?thesis by (auto simp add: new_backend_def)
  qed
  from 1 2 3 show ?thesis by (intro conjI)
qed

theorem unsupported_host_aborts_witness:
  "\<forall>M. \<not> navigator_gpu (example_host\<lparr>navigator_gpu := False\<rparr>)
     \<and> execution M (example_host\<lparr>navigator_gpu := False\<rparr>) [Click, AnimationFrame]
         = Inl (new_backend\<lparr>consoleErrors := [''WebGPU is not supported on this browser.'']\<rparr>)
     \<and> navigator_gpu (example_host\<lparr>adapterAvailable := False\<rparr>)
     \<and> \<not> adapterAvailable (example_host\<lparr>adapterAvailable := False\<rparr>)
     \<and> (\<exists>g. execution M (example_host\<lparr>adapterAvailable := False\<rparr>) [Click, AnimationFrame]
            = Inl g
          \<and> consoleErrors g =
              [''WebGPU adapter not available. Your hardware or browser may not support WebGPU.'']
          \<and> deviceRequests g = 0 \<and> buffers g = [] \<and> pipelines g = [] \<and> queue g = [])"
proof
  fix M
  note a = unsupported_host_aborts [where h = "example_host\<lparr>navigator_gpu := False\<rparr>"
      and M = M and evs = "[Click, AnimationFrame]"]
  note b = unsupported_host_aborts [where h = "example_host\<lparr>adapterAvailable := False\<rparr>"
      and M = M and evs = "[Click, AnimationFrame]"]
  have n: "\<not> navigator_gpu (example_host\<lparr>navigator_gpu := False\<rparr>)"
    "navigator_gpu (example_host\<lparr>adapterAvailable := False\<rparr>)"
    "\<not> adapterAvailable (example_host\<lparr>adapterAvailable := False\<rparr>)"
    by (simp_all add: example_host_def)
  have 1: "execution M (example_host\<lparr>navigator_gpu := False\<rparr>) [Click, AnimationFrame]
         = Inl (new_backend\<lparr>consoleErrors := [''WebGPU is not supported on this browser.'']\<rparr>)"
    using a n(1) by blast
  have "execution M (example_host\<lparr>adapterAvailable := False\<rparr>) [Click, AnimationFrame]
      = Inl (new_backend
        \<lparr>adapterRequests := [''high-performance''],
         consoleErrors :=
           [''WebGPU adapter not available. Your hardware or browser may not support WebGPU.'']\<rparr>)"
    using b n(2,3) by blast
  then have 2: "\<exists>g. execution M (example_host\<lparr>adapterAvailable := False\<rparr>)
            [Click, AnimationFrame] = Inl g
          \<and> consoleErrors g =
              [''WebGPU adapter not available. Your hardware or browser may not support WebGPU.'']
          \<and> deviceRequests g = 0 \<and> buffers g = [] \<and> pipelines g = [] \<and> queue g = []"
    by (simp add: new_backend_def)
  from n 1 2 show "\<not> navigator_gpu (example_host\<lparr>navigator_gpu := False\<rparr>)
     \<and> execution M (example_host\<lparr>navigator_gpu := False\<rparr>) [Click, AnimationFrame]
         = Inl (new_backend\<lparr>consoleErrors := [''WebGPU is not supported on this browser.'']\<rparr>)
     \<and> navigator_gpu (example_host\<lparr>adapterAvailable := False\<rparr>)
     \<and> \<not> adapterAvailable (example_host\<lparr>adapterAvailable := False\<rparr>)
     \<and> (\<exists>g. execution M (example_host\<lparr>adapterAvailable := False\<rparr>) [Click, AnimationFrame]
            = Inl g
          \<and> consoleErrors g =
              [''WebGPU adapter not available. Your hardware or browser may not support WebGPU.'']
          \<and> deviceRequests g = 0 \<and> buffers g = [] \<and> pipelines g = [] \<and> queue g = [])"
    by (intro conjI)
qed

text \<open>On a host that is not supported the queue stays empty.\<close>

lemma execution_unsupported:
  assumes "\<not> supported h"
  shows "\<exists>g. execution M h evs = Inl g \<and> queue g = []"
proof -
  consider "\<not> navigator_gpu h" | "navigator_gpu h" "\<not> adapterAvailable h"
    | "navigator_gpu h" "adapterAvailable h" "\<not> deviceAvailable h"
    using assms by (auto simp add: supported_def)
  then show ?thesis
  proof cases
    case 1
    then show ?thesis
      by (simp add: execution_def main_js_def console_error_def new_backend_def)
  next
    case 2
    then show ?thesis
      by (simp add: execution_def main_js_def initWebGPU_def Let_def console_error_def
          requestAdapter_def new_backend_def)
  next
    case 3
    then show ?thesis
      by (simp add: execution_def main_js_def initWebGPU_def Let_def console_error_def
          requestAdapter_def requestDevice_def new_backend_def)
  qed
qed

text \<open>The angle after at least one increment is a finite Number between 0.01 and 2^47.\<close>

lemma angle_orbit_Suc:
  "\<exists>a. ((\<lambda>a. js_add a (lit (1 / 100))) ^^ Suc n) (lit 0) = Finite a
      \<and> 5764607523034235 / 576460752303423488 \<le> a \<and> a \<le> 140737488355328"
proof -
  from angle_orbit [of n] obtain r where
    r: "((\<lambda>a. js_add a (lit (1 / 100))) ^^ n) (lit 0) = Finite r" "0 \<le> r" "r \<le> 140737488355328" by blast
  note st = angle_step [OF r(2,3)]
  have e: "((\<lambda>a. js_add a (lit (1 / 100))) ^^ Suc n) (lit 0) = js_add (Finite r) (lit (1 / 100))"
    by (simp add: r(1) del: js_add.simps)
  show ?thesis unfolding e st(1) using st(2,3) by blast
qed

text \<open>The uploads of an execution are those of its rotating frames, in their order.\<close>

lemma uploads_within_Submit: "uploads_within M k (Submit cbs)"
  by (simp add: uploads_within_def)

lemma uploads_within_mono:
  assumes "uploads_within M k op" and "k \<le> k'"
  shows "uploads_within M k' op"
proof (cases op)
  case (WriteBuffer b off data)
  with assms(1) obtain n where
    n: "b = 1" "off = 0" "n < k"
      "data = createTransformationMatrix M (((\<lambda>a. js_add a (lit (1 / 100))) ^^ Suc n) (lit 0)) (lit 0) (lit 0)"
    unfolding uploads_within_def by (simp only: queue_op.case) blast
  from n(3) assms(2) have "n < k'" by simp
  with n(1,2,4) show ?thesis
    unfolding uploads_within_def WriteBuffer by (simp only: queue_op.case) blast
next
  case (Submit cbs)
  then show ?thesis by (simp add: uploads_within_Submit)
qed

lemma uploads_within_next:
  "uploads_within M (Suc (Suc m))
     (WriteBuffer 1 0 (createTransformationMatrix M
        (js_add (((\<lambda>a. js_add a (lit (1 / 100))) ^^ Suc m) (lit 0)) (lit (1 / 100))) (lit 0) (lit 0)))"
proof -
  have "Suc m < Suc (Suc m)
      \<and> createTransformationMatrix M (js_add (((\<lambda>a. js_add a (lit (1 / 100))) ^^ Suc m) (lit 0)) (lit (1 / 100))) (lit 0) (lit 0)
        = createTransformationMatrix M (((\<lambda>a. js_add a (lit (1 / 100))) ^^ Suc (Suc m)) (lit 0)) (lit 0) (lit 0)"
    by (simp del: js_add.simps)
  then show ?thesis unfolding uploads_within_def by (simp only: queue_op.case) blast
qed

lemma main_js_uploads:
  assumes "supported h"
  shows "\<exists>s. main_js M h = Inr s \<and> running M h s
    \<and> rotationAngle s = ((\<lambda>a. js_add a (lit (1 / 100))) ^^ Suc 0) (lit 0)
    \<and> list_all (uploads_within M (Suc 0)) (queue (gpu s))"
proof -
  from main_js_supported [OF assms, of M] obtain s where
    s: "main_js M h = Inr s" "running M h s" "rotationAngle s = lit (1 / 100)"
    and q: "queue (gpu s) =
        [WriteBuffer 1 0 (createTransformationMatrix M (lit (1 / 100)) (lit 0) (lit 0)),
         Submit [[BeginRenderPass
            \<lparr>colorAttachments =
               [\<lparr>view = Some 0, loadOp = ''clear'',
                 clearValue = GPUColor (lit 0) (lit (2 / 10)) (lit (4 / 10)) (lit 1),
                 storeOp = ''store''\<rparr>]\<rparr>,
           SetPipeline 0, SetBindGroup 0 0, SetVertexBuffer 0 0, Draw 3 1 0 0, EndPass]]]"
    by blast
  have o: "((\<lambda>a. js_add a (lit (1 / 100))) ^^ Suc 0) (lit 0) = lit (1 / 100)"
    by (simp add: first_angle del: js_add.simps)
  have "uploads_within M (Suc 0)
      (WriteBuffer 1 0 (createTransformationMatrix M (lit (1 / 100)) (lit 0) (lit 0)))"
    unfolding uploads_within_def by (simp add: first_angle del: js_add.simps)
  then have "list_all (uploads_within M (Suc 0)) (queue (gpu s))"
    unfolding q by (simp add: uploads_within_Submit)
  with s o show ?thesis by simp
qed

lemma execution_uploads:
  assumes "supported h"
  shows "\<exists>s m. execution M h evs = Inr s \<and> running M h s \<and> m \<le> length evs
      \<and> rotationAngle s = ((\<lambda>a. js_add a (lit (1 / 100))) ^^ Suc m) (lit 0)
      \<and> list_all (uploads_within M (Suc m)) (queue (gpu s))"
proof (induction evs rule: rev_induct)
  case Nil
  from main_js_uploads [OF assms, of M] obtain s where
    s: "main_js M h = Inr s" "running M h s"
      "rotationAngle s = ((\<lambda>a. js_add a (lit (1 / 100))) ^^ Suc 0) (lit 0)"
      "list_all (uploads_within M (Suc 0)) (queue (gpu s))" by blast
  have "execution M h [] = Inr s" by (simp add: execution_def run_def s(1))
  with s(2,3,4) show ?case by blast
next
  case (snoc ev evs)
  then obtain s m where
    e: "execution M h evs = Inr s" and r: "running M h s" and m: "m \<le> length evs"
    and a: "rotationAngle s = ((\<lambda>a. js_add a (lit (1 / 100))) ^^ Suc m) (lit 0)"
    and u: "list_all (uploads_within M (Suc m)) (queue (gpu s))" by blast
  have e': "execution M h (evs @ [ev]) = Inr (dispatch M ev s)"
    using execution_append [OF e, of "[ev]"] by (simp add: run_def)
  have r': "running M h (dispatch M ev s)" using r by (rule running_dispatch)
  have ub: "uniformBuffer s = 1" using r by (simp add: running_def static_ok_def)
  have u1: "list_all (uploads_within M (Suc (Suc m))) (queue (gpu s))"
    using u by (rule list.pred_mono_strong) (simp add: uploads_within_mono)
  show ?case
  proof (cases "ev = AnimationFrame \<and> isRotating s")
    case True
    then have ev: "ev = AnimationFrame" and i: "isRotating s" by simp_all
    note d = dispatch_frame [OF r]
    have a': "rotationAngle (dispatch M ev s) = ((\<lambda>a. js_add a (lit (1 / 100))) ^^ Suc (Suc m)) (lit 0)"
      unfolding ev d(2) frame_rotationAngle using i a by (simp del: js_add.simps)
    have w: "uploads_within M (Suc (Suc m))
        (WriteBuffer 1 0 (createTransformationMatrix M
           (js_add (rotationAngle s) (lit (1 / 100))) (lit 0) (lit 0)))"
      unfolding a by (rule uploads_within_next)
    have u': "list_all (uploads_within M (Suc (Suc m))) (queue (gpu (dispatch M ev s)))"
      unfolding ev d(4) frame_queue using i ub u1 w by (simp add: uploads_within_Submit)
    have "Suc m \<le> length (evs @ [ev])" using m by simp
    with e' r' a' u' show ?thesis by blast
  next
    case False
    have a': "rotationAngle (dispatch M ev s) = ((\<lambda>a. js_add a (lit (1 / 100))) ^^ Suc m) (lit 0)"
    proof (cases ev)
      case Click
      then show ?thesis using a dispatch_click [OF r] by (simp add: click_def del: dispatch.simps)
    next
      case AnimationFrame
      with False have "\<not> isRotating s" by simp
      then show ?thesis
        unfolding AnimationFrame dispatch_frame(2) [OF r] frame_rotationAngle using a by simp
    qed
    have u': "list_all (uploads_within M (Suc m)) (queue (gpu (dispatch M ev s)))"
    proof (cases ev)
      case Click
      then show ?thesis using u dispatch_click [OF r] by (simp add: click_def del: dispatch.simps)
    next
      case AnimationFrame
      with False have "\<not> isRotating s" by simp
      then show ?thesis
        unfolding AnimationFrame dispatch_frame(4) [OF r] frame_queue using u
        by (simp add: uploads_within_Submit)
    qed
    have "m \<le> length (evs @ [ev])" using m by simp
    with e' r' a' u' show ?thesis by blast
  qed
qed

text \<open>What an upload holds, and when it differs from the identity.\<close>

lemma uploads_within_matrix:
  assumes "uploads_within M (Suc m) op" and "m \<le> k"
  shows "case op of Submit cbs \<Rightarrow> True
     | WriteBuffer b off data \<Rightarrow> b = 1 \<and> off = 0
         \<and> (\<exists>n a. n \<le> k
              \<and> ((\<lambda>a. js_add a (lit (1 / 100))) ^^ Suc n) (lit 0) = Finite a
              \<and> 5764607523034235 / 576460752303423488 \<le> a \<and> a \<le> 140737488355328
              \<and> data = createTransformationMatrix M (Finite a) (lit 0) (lit 0)
              \<and> data =
                  [to_float32 (cos_impl M a), js_neg (to_float32 (sin_impl M a)),
                     Finite 0, Finite 0,
                   to_float32 (sin_impl M a), to_float32 (cos_impl M a),
                     Finite 0, Finite 0,
                   Finite 0, Finite 0, Finite 1, Finite 0,
                   Finite 0, Finite 0, Finite 0, Finite 1])"
proof (cases op)
  case (WriteBuffer b off data)
  with assms(1) obtain n where
    n: "b = 1" "off = 0" "n < Suc m"
      "data = createTransformationMatrix M (((\<lambda>a. js_add a (lit (1 / 100))) ^^ Suc n) (lit 0)) (lit 0) (lit 0)"
    unfolding uploads_within_def by (simp only: queue_op.case) blast
  from angle_orbit_Suc [of n] obtain a where
    a: "((\<lambda>a. js_add a (lit (1 / 100))) ^^ Suc n) (lit 0) = Finite a"
      "5764607523034235 / 576460752303423488 \<le> a" "a \<le> 140737488355328" by blast
  have nk: "n \<le> k" using n(3) assms(2) by simp
  have nz: "a \<noteq> 0" using a(2) by auto
  have d: "data = createTransformationMatrix M (Finite a) (lit 0) (lit 0)"
    using n(4) by (simp only: a(1))
  have l: "createTransformationMatrix M (Finite a) (lit 0) (lit 0) =
      [to_float32 (cos_impl M a), js_neg (to_float32 (sin_impl M a)), Finite 0, Finite 0,
       to_float32 (sin_impl M a), to_float32 (cos_impl M a), Finite 0, Finite 0,
       Finite 0, Finite 0, Finite 1, Finite 0,
       Finite 0, Finite 0, Finite 0, Finite 1]"
    using nz by (simp add: createTransformationMatrix_eq lit_0 to_float32_0 del: to_float32.simps)
  have "\<exists>n a. n \<le> k
      \<and> ((\<lambda>a. js_add a (lit (1 / 100))) ^^ Suc n) (lit 0) = Finite a
      \<and> 5764607523034235 / 576460752303423488 \<le> a \<and> a \<le> 140737488355328
      \<and> data = createTransformationMatrix M (Finite a) (lit 0) (lit 0)
      \<and> data =
          [to_float32 (cos_impl M a), js_neg (to_float32 (sin_impl M a)), Finite 0, Finite 0,
           to_float32 (sin_impl M a), to_float32 (cos_impl M a), Finite 0, Finite 0,
           Finite 0, Finite 0, Finite 1, Finite 0,
           Finite 0, Finite 0, Finite 0, Finite 1]"
    using nk a d trans [OF d l] by (intro exI [of _ n] exI [of _ a] conjI)
  then show ?thesis unfolding WriteBuffer using n(1,2) by (simp only: queue_op.case)
next
  case (Submit cbs)
  then show ?thesis by simp
qed

lemma uploads_within_not_identity:
  assumes "uploads_within M (Suc m) op" and "m \<le> k"
    and "\<forall>n\<le>k. exact (to_float32 (Math_sin M (((\<lambda>a. js_add a (lit (1 / 100))) ^^ Suc n) (lit 0)))) \<noteq> Some 0"
  shows "case op of Submit cbs \<Rightarrow> True
     | WriteBuffer b off data \<Rightarrow> exact (data ! 4) \<noteq> Some 0
         \<and> data \<noteq> createTransformationMatrix M (lit 0) (lit 0) (lit 0)
         \<and> data \<noteq> identity_matrix"
proof (cases op)
  case (WriteBuffer b off data)
  with assms(1) obtain n where
    n: "n < Suc m"
      "data = createTransformationMatrix M (((\<lambda>a. js_add a (lit (1 / 100))) ^^ Suc n) (lit 0)) (lit 0) (lit 0)"
    unfolding uploads_within_def by (simp only: queue_op.case) blast
  have "n \<le> k" using n(1) assms(2) by simp
  with assms(3) have
    s: "exact (to_float32 (Math_sin M (((\<lambda>a. js_add a (lit (1 / 100))) ^^ Suc n) (lit 0)))) \<noteq> Some 0"
    by blast
  have 4: "data ! 4 = to_float32 (Math_sin M (((\<lambda>a. js_add a (lit (1 / 100))) ^^ Suc n) (lit 0)))"
    unfolding n(2) createTransformationMatrix_eq by simp
  have z: "createTransformationMatrix M (lit 0) (lit 0) (lit 0) ! 4 = Finite 0"
    unfolding createTransformationMatrix_eq by (simp add: lit_0 to_float32_0 del: to_float32.simps)
  have i: "identity_matrix ! 4 = Finite 0" by (simp add: identity_matrix_def)
  have a: "exact (data ! 4) \<noteq> Some 0" unfolding 4 by (rule s)
  have b: "data \<noteq> createTransformationMatrix M (lit 0) (lit 0) (lit 0)"
  proof
    assume "data = createTransformationMatrix M (lit 0) (lit 0) (lit 0)"
    then have "data ! 4 = Finite 0" by (simp only: z)
    with a show False by simp
  qed
  have c: "data \<noteq> identity_matrix"
  proof
    assume "data = identity_matrix"
    then have "data ! 4 = Finite 0" by (simp only: i)
    with a show False by simp
  qed
  show ?thesis unfolding WriteBuffer using a b c by (simp only: queue_op.case) blast
next
  case (Submit cbs)
  then show ?thesis by simp
qed

text \<open>
  C9.  In every execution, on any host, every write in the queue is an upload, to the
  uniform buffer at offset 0, of the matrix \<open>[c, -s, 0, 0, s, c, 0, 0, 0, 0, 1, 0, 0, 0, 0, 1]\<close>
  with \<open>c\<close> and \<open>s\<close> the values of \<^verbatim>\<open>Math.cos(a)\<close> and \<^verbatim>\<open>Math.sin(a)\<close> in single precision, where
  \<open>a\<close> is the angle that \<open>n + 1\<close> increments by 0.01 reach from 0, for some \<open>n\<close> up to the
  number of events: a Number of at least 0.01 (5764607523034235 / 2^59) and at most 2^47,
  never the angle 0.  On a supported host the queue starts with the upload for the angle
  0.01, before the first submission; on any other host the queue stays empty.  Whether the
  matrix of such an angle differs from the identity rests on the platform's \<^verbatim>\<open>Math.sin\<close> at
  the angles that the execution reaches: where its single-precision value at each of them
  is not a zero, every uploaded matrix has a nonzero entry in slot 4, where the identity
  and the matrix of the angle 0 have 0, so that neither of the two is ever written.
\<close>

theorem first_upload_is_hundredth:
  "list_all (\<lambda>op. case op of Submit cbs \<Rightarrow> True
               | WriteBuffer b off data \<Rightarrow> b = 1 \<and> off = 0
                   \<and> (\<exists>n a. n \<le> length evs
                        \<and> ((\<lambda>a. js_add a (lit (1 / 100))) ^^ Suc n) (lit 0) = Finite a
                        \<and> 5764607523034235 / 576460752303423488 \<le> a \<and> a \<le> 140737488355328
                        \<and> data = createTransformationMatrix M (Finite a) (lit 0) (lit 0)
                        \<and> data =
                            [to_float32 (cos_impl M a), js_neg (to_float32 (sin_impl M a)),
                               Finite 0, Finite 0,
                             to_float32 (sin_impl M a), to_float32 (cos_impl M a),
                               Finite 0, Finite 0,
                             Finite 0, Finite 0, Finite 1, Finite 0,
                             Finite 0, Finite 0, Finite 0, Finite 1]))
     (queue (final_backend (execution M h evs)))
   \<and> (supported h \<longrightarrow>
        (\<exists>rest. queue (final_backend (execution M h evs)) =
           WriteBuffer 1 0 (createTransformationMatrix M (lit (1 / 100)) (lit 0) (lit 0)) # rest))
   \<and> (\<not> supported h \<longrightarrow> queue (final_backend (execution M h evs)) = [])
   \<and> ((\<forall>n\<le>length evs.
          exact (to_float32 (Math_sin M (((\<lambda>a. js_add a (lit (1 / 100))) ^^ Suc n) (lit 0)))) \<noteq> Some 0) \<longrightarrow>
        list_all (\<lambda>op. case op of Submit cbs \<Rightarrow> True
                 | WriteBuffer b off data \<Rightarrow> exact (data ! 4) \<noteq> Some 0
                     \<and> data \<noteq> createTransformationMatrix M (lit 0) (lit 0) (lit 0)
                     \<and> data \<noteq> identity_matrix)
          (queue (final_backend (execution M h evs))))"
proof (cases "supported h")
  case True
  from execution_uploads [OF True, of M evs] obtain s m where
    s: "execution M h evs = Inr s" "running M h s" and m: "m \<le> length evs"
    and u: "list_all (uploads_within M (Suc m)) (queue (gpu s))" by blast
  have f: "final_backend (execution M h evs) = gpu s" by (simp add: final_backend_def s(1))
  from s(2) have qu: "queue_ok M (queue (gpu s))" by (simp add: running_def)
  have 1: "list_all (\<lambda>op. case op of Submit cbs \<Rightarrow> True
               | WriteBuffer b off data \<Rightarrow> b = 1 \<and> off = 0
                   \<and> (\<exists>n a. n \<le> length evs
                        \<and> ((\<lambda>a. js_add a (lit (1 / 100))) ^^ Suc n) (lit 0) = Finite a
                        \<and> 5764607523034235 / 576460752303423488 \<le> a \<and> a \<le> 140737488355328
                        \<and> data = createTransformationMatrix M (Finite a) (lit 0) (lit 0)
                        \<and> data =
                            [to_float32 (cos_impl M a), js_neg (to_float32 (sin_impl M a)),
                               Finite 0, Finite 0,
                             to_float32 (sin_impl M a), to_float32 (cos_impl M a),
                               Finite 0, Finite 0,
                             Finite 0, Finite 0, Finite 1, Finite 0,
                             Finite 0, Finite 0, Finite 0, Finite 1]))
     (queue (gpu s))"
    using u
  proof (rule list.pred_mono_strong)
    fix op
    assume "uploads_within M (Suc m) op"
    then show "case op of Submit cbs \<Rightarrow> True
               | WriteBuffer b off data \<Rightarrow> b = 1 \<and> off = 0
                   \<and> (\<exists>n a. n \<le> length evs
                        \<and> ((\<lambda>a. js_add a (lit (1 / 100))) ^^ Suc n) (lit 0) = Finite a
                        \<and> 5764607523034235 / 576460752303423488 \<le> a \<and> a \<le> 140737488355328
                        \<and> data = createTransformationMatrix M (Finite a) (lit 0) (lit 0)
                        \<and> data =
                            [to_float32 (cos_impl M a), js_neg (to_float32 (sin_impl M a)),
                               Finite 0, Finite 0,
                             to_float32 (sin_impl M a), to_float32 (cos_impl M a),
                               Finite 0, Finite 0,
                             Finite 0, Finite 0, Finite 1, Finite 0,
                             Finite 0, Finite 0, Finite 0, Finite 1])"
      using m by (rule uploads_within_matrix)
  qed
  have 2: "\<exists>rest. queue (gpu s) =
      WriteBuffer 1 0 (createTransformationMatrix M (lit (1 / 100)) (lit 0) (lit 0)) # rest"
    using qu by (simp add: queue_ok_def)
  have 3: "(\<forall>n\<le>length evs.
        exact (to_float32 (Math_sin M (((\<lambda>a. js_add a (lit (1 / 100))) ^^ Suc n) (lit 0)))) \<noteq> Some 0) \<longrightarrow>
      list_all (\<lambda>op. case op of Submit cbs \<Rightarrow> True
                 | WriteBuffer b off data \<Rightarrow> exact (data ! 4) \<noteq> Some 0
                     \<and> data \<noteq> createTransformationMatrix M (lit 0) (lit 0) (lit 0)
                     \<and> data \<noteq> identity_matrix)
        (queue (gpu s))"
  proof
    assume nz: "\<forall>n\<le>length evs.
        exact (to_float32 (Math_sin M (((\<lambda>a. js_add a (lit (1 / 100))) ^^ Suc n) (lit 0)))) \<noteq> Some 0"
    show "list_all (\<lambda>op. case op of Submit cbs \<Rightarrow> True
                 | WriteBuffer b off data \<Rightarrow> exact (data ! 4) \<noteq> Some 0
                     \<and> data \<noteq> createTransformationMatrix M (lit 0) (lit 0) (lit 0)
                     \<and> data \<noteq> identity_matrix)
        (queue (gpu s))"
      using u
    proof (rule list.pred_mono_strong)
      fix op
      assume "uploads_within M (Suc m) op"
      then show "case op of Submit cbs \<Rightarrow> True
          | WriteBuffer b off data \<Rightarrow> exact (data ! 4) \<noteq> Some 0
              \<and> data \<noteq> createTransformationMatrix M (lit 0) (lit 0) (lit 0)
              \<and> data \<noteq> identity_matrix"
        using m nz by (rule uploads_within_not_identity)
    qed
  qed
  show ?thesis unfolding f using True 1 2 3 by (intro conjI) simp_all
next
  case False
  from execution_unsupported [OF False, of M evs] obtain g where
    "execution M h evs = Inl g" "queue g = []" by blast
  then have "queue (final_backend (execution M h evs)) = []" by (simp add: final_backend_def)
  then show ?thesis using False by simp
qed

theorem first_upload_is_hundredth_witness:
  "supported example_host
   \<and> (\<exists>rest. queue (final_backend (execution first_frames_math example_host [AnimationFrame])) =
        WriteBuffer 1 0
          [Finite (16776377 / 16777216), Finite (- (10737239 / 1073741824)), Finite 0, Finite 0,
           Finite (10737239 / 1073741824), Finite (16776377 / 16777216), Finite 0, Finite 0,
           Finite 0, Finite 0, Finite 1, Finite 0,
           Finite 0, Finite 0, Finite 0, Finite 1] # rest)
   \<and> (\<exists>cbs cbs'. queue (final_backend
         (execution first_frames_math example_host [AnimationFrame])) =
        [WriteBuffer 1 0
          [Finite (16776377 / 16777216), Finite (- (10737239 / 1073741824)), Finite 0, Finite 0,
           Finite (10737239 / 1073741824), Finite (16776377 / 16777216), Finite 0, Finite 0,
           Finite 0, Finite 0, Finite 1, Finite 0,
           Finite 0, Finite 0, Finite 0, Finite 1],
         Submit cbs,
         WriteBuffer 1 0
          [Finite (16773861 / 16777216), Finite (- (5368351 / 268435456)), Finite 0, Finite 0,
           Finite (5368351 / 268435456), Finite (16773861 / 16777216), Finite 0, Finite 0,
           Finite 0, Finite 0, Finite 1, Finite 0,
           Finite 0, Finite 0, Finite 0, Finite 1],
         Submit cbs'])
   \<and> \<not> supported (example_host\<lparr>deviceAvailable := False\<rparr>)
   \<and> queue (final_backend
         (execution first_frames_math (example_host\<lparr>deviceAvailable := False\<rparr>)
            [AnimationFrame])) = []
   \<and> list_all (\<lambda>op. case op of Submit cbs \<Rightarrow> True
                 | WriteBuffer b off data \<Rightarrow> exact (data ! 4) \<noteq> Some 0
                     \<and> data \<noteq> createTransformationMatrix first_frames_math (lit 0) (lit 0) (lit 0)
                     \<and> data \<noteq> identity_matrix)
       (queue (final_backend (execution first_frames_math example_host [AnimationFrame])))"
proof -
  let ?M = "first_frames_math"
  note a = first_upload_is_hundredth [where M = ?M and h = example_host
      and evs = "[AnimationFrame]"]
  note b = first_upload_is_hundredth [where M = ?M
      and h = "example_host\<lparr>deviceAvailable := False\<rparr>" and evs = "[AnimationFrame]"]
  have u: "\<not> supported (example_host\<lparr>deviceAvailable := False\<rparr>)"
    by (simp add: supported_def example_host_def)
  have c1: "to_float32 (Finite (4503374449265621 / 4503599627370496)) = Finite (16776377 / 16777216)"
    unfolding to_float32.simps round32_def
    by (rule trans [OF round_number_eval [where e = "- 1" and n = 16776377 and q = "1 / 16777216"]])
       simp_all
  have s1: "to_float32 (Finite (5764511446722567 / 576460752303423488)) = Finite (10737239 / 1073741824)"
    unfolding to_float32.simps round32_def
    by (rule trans [OF round_number_eval [where e = "- 7" and n = 10737239 and q = "1 / 1073741824"]])
       simp_all
  have s2: "to_float32 (Finite (5764223223552103 / 288230376151711744)) = Finite (5368351 / 268435456)"
    unfolding to_float32.simps round32_def
    by (rule trans [OF round_number_eval [where e = "- 6" and n = 10736702 and q = "1 / 536870912"]])
       simp_all
  have o1: "((\<lambda>a. js_add a (lit (1 / 100))) ^^ Suc 0) (lit 0) = Finite (5764607523034235 / 576460752303423488)"
  proof -
    have "((\<lambda>a. js_add a (lit (1 / 100))) ^^ Suc 0) (lit 0) = js_add (lit 0) (lit (1 / 100))"
      by (simp del: js_add.simps)
    also have "\<dots> = lit (1 / 100)" by (rule first_angle)
    also have "\<dots> = Finite (5764607523034235 / 576460752303423488)" by (rule lit_hundredth)
    finally show ?thesis .
  qed
  have st: "js_add (Finite (5764607523034235 / 576460752303423488)) (lit (1 / 100)) = Finite (5764607523034235 / 288230376151711744)"
    unfolding lit_hundredth js_add.simps round64_def
    by (rule trans [OF round_number_eval [where e = "- 6" and n = 5764607523034235 and q = "1 / 288230376151711744"]])
       simp_all
  have o2: "((\<lambda>a. js_add a (lit (1 / 100))) ^^ Suc (Suc 0)) (lit 0) = Finite (5764607523034235 / 288230376151711744)"
    using o1 st by (simp del: js_add.simps)
  have m1: "exact (to_float32 (Math_sin ?M (((\<lambda>a. js_add a (lit (1 / 100))) ^^ Suc 0) (lit 0)))) \<noteq> Some 0"
    unfolding o1 by (simp add: first_frames_math_def s1 del: to_float32.simps)
  have m2: "exact (to_float32 (Math_sin ?M (((\<lambda>a. js_add a (lit (1 / 100))) ^^ Suc (Suc 0)) (lit 0)))) \<noteq> Some 0"
    unfolding o2 by (simp add: first_frames_math_def s2 del: to_float32.simps)
  have nz: "\<forall>n\<le>length [AnimationFrame].
      exact (to_float32 (Math_sin ?M (((\<lambda>a. js_add a (lit (1 / 100))) ^^ Suc n) (lit 0)))) \<noteq> Some 0"
  proof (intro allI impI)
    fix n :: nat
    assume "n \<le> length [AnimationFrame]"
    then have "n = 0 \<or> n = Suc 0" by auto
    then show "exact (to_float32 (Math_sin ?M (((\<lambda>a. js_add a (lit (1 / 100))) ^^ Suc n) (lit 0)))) \<noteq> Some 0"
      using m1 m2 by blast
  qed
  have mx: "createTransformationMatrix ?M (lit (1 / 100)) (lit 0) (lit 0) =
      [Finite (16776377 / 16777216), Finite (- (10737239 / 1073741824)), Finite 0, Finite 0,
       Finite (10737239 / 1073741824), Finite (16776377 / 16777216), Finite 0, Finite 0,
       Finite 0, Finite 0, Finite 1, Finite 0,
       Finite 0, Finite 0, Finite 0, Finite 1]"
    unfolding createTransformationMatrix_eq lit_hundredth
    by (simp add: first_frames_math_def c1 s1 lit_0 to_float32_0 del: to_float32.simps)
  have 1: "\<exists>rest. queue (final_backend (execution ?M example_host [AnimationFrame])) =
        WriteBuffer 1 0
          [Finite (16776377 / 16777216), Finite (- (10737239 / 1073741824)), Finite 0, Finite 0,
           Finite (10737239 / 1073741824), Finite (16776377 / 16777216), Finite 0, Finite 0,
           Finite 0, Finite 0, Finite 1, Finite 0,
           Finite 0, Finite 0, Finite 0, Finite 1] # rest"
    using a supported_example_host unfolding mx by blast
  have c2: "to_float32 (Finite (4502698937468619 / 4503599627370496)) = Finite (16773861 / 16777216)"
    unfolding to_float32.simps round32_def
    by (rule trans [OF round_number_eval [where e = "- 1" and n = 16773861 and q = "1 / 16777216"]])
       simp_all
  have e2: "js_add (lit (1 / 100)) (lit (1 / 100)) = Finite (5764607523034235 / 288230376151711744)"
    using st unfolding lit_hundredth .
  have mx': "createTransformationMatrix ?M (js_add (lit (1 / 100)) (lit (1 / 100))) (lit 0) (lit 0) =
      [Finite (16773861 / 16777216), Finite (- (5368351 / 268435456)), Finite 0, Finite 0,
      Finite (5368351 / 268435456), Finite (16773861 / 16777216), Finite 0, Finite 0,
      Finite 0, Finite 0, Finite 1, Finite 0,
      Finite 0, Finite 0, Finite 0, Finite 1]"
    unfolding createTransformationMatrix_eq e2
    by (simp add: first_frames_math_def c2 s2 lit_0 to_float32_0 del: to_float32.simps)
  from main_js_supported [OF supported_example_host, of ?M] obtain s0 where
    s0: "main_js ?M example_host = Inr s0" "running ?M example_host s0" "isRotating s0"
      "rotationAngle s0 = lit (1 / 100)"
    and q0: "\<exists>cbs. queue (gpu s0) =
        [WriteBuffer 1 0 (createTransformationMatrix ?M (lit (1 / 100)) (lit 0) (lit 0)),
         Submit cbs]"
    by blast
  from q0 obtain cbs where
    q0': "queue (gpu s0) =
        [WriteBuffer 1 0 (createTransformationMatrix ?M (lit (1 / 100)) (lit 0) (lit 0)),
         Submit cbs]" by blast
  have ub: "uniformBuffer s0 = 1" using s0(2) by (simp add: running_def static_ok_def)
  have fb: "final_backend (execution ?M example_host [AnimationFrame])
      = gpu (dispatch ?M AnimationFrame s0)"
    by (simp add: final_backend_def execution_def run_def s0(1) del: dispatch.simps)
  have q: "\<exists>cbs cbs'. queue (final_backend (execution ?M example_host [AnimationFrame])) =
        [WriteBuffer 1 0
          [Finite (16776377 / 16777216), Finite (- (10737239 / 1073741824)), Finite 0, Finite 0,
           Finite (10737239 / 1073741824), Finite (16776377 / 16777216), Finite 0, Finite 0,
           Finite 0, Finite 0, Finite 1, Finite 0,
           Finite 0, Finite 0, Finite 0, Finite 1],
         Submit cbs,
         WriteBuffer 1 0
          [Finite (16773861 / 16777216), Finite (- (5368351 / 268435456)), Finite 0, Finite 0,
           Finite (5368351 / 268435456), Finite (16773861 / 16777216), Finite 0, Finite 0,
           Finite 0, Finite 0, Finite 1, Finite 0,
           Finite 0, Finite 0, Finite 0, Finite 1],
         Submit cbs']"
    unfolding fb dispatch_frame(4) [OF s0(2)] frame_queue q0'
    using s0(3) by (simp add: ub s0(4) mx mx' del: js_add.simps)
  have 2: "queue (final_backend
         (execution ?M (example_host\<lparr>deviceAvailable := False\<rparr>) [AnimationFrame])) = []"
    using b u by blast
  have 3: "list_all (\<lambda>op. case op of Submit cbs \<Rightarrow> True
                 | WriteBuffer b off data \<Rightarrow> exact (data ! 4) \<noteq> Some 0
                     \<and> data \<noteq> createTransformationMatrix ?M (lit 0) (lit 0) (lit 0)
                     \<and> data \<noteq> identity_matrix)
       (queue (final_backend (execution ?M example_host [AnimationFrame])))"
    using a nz by blast
  from supported_example_host 1 q u 2 3 show ?thesis by (intro conjI)
qed

end
